theory Spec2Isabelle
  imports Complex_Main "HOL-Library.Word" "HOL-Library.Signed_Division" "HOL-Library.AList"
begin

unbundle bit_operations_syntax

section \<open>Data model of libs/input/PointerController.cpp\<close>

text \<open>
  The controller keeps its whole mutable state in one aggregate (\<open>mLocked\<close> plus
  \<open>mResources\<close>) guarded by one mutex; every public operation runs with the mutex held,
  so an operation is a function from state to state.

  Conventions of the embedding:
  \<^item> \<open>int32_t\<close> and \<open>uint32_t\<close> are \<open>32 word\<close>, \<open>nsecs_t\<close> (a 64-bit signed
    count of nanoseconds) and \<open>size_t\<close> are \<open>64 word\<close>; arithmetic on them
    wraps, and a signed value is read with \<open>sint\<close>, an unsigned one with \<open>unat\<close>.
  \<^item> C++ \<open>float\<close> is IEEE 754 binary32, the type \<open>cfloat\<close> below: a NaN, one of the
    two infinities, or a finite value. Every arithmetic operation and every conversion
    of an integer rounds its exact result to the nearest binary32 value, ties to even,
    and overflows to an infinity; every comparison with a NaN is false.
  \<^item> Calls into the collaborators that the controller only drives (sprite controller,
    looper, vsync receiver, log) are appended to a trace of events; the attributes that
    the controller sets on a sprite are kept in the sprite's record.
  \<^item> \<open>systemTime(SYSTEM_TIME_MONOTONIC)\<close> is an oracle: the n-th reading of the clock
    is \<open>systemTime E n\<close>, and the state counts the readings made so far.
\<close>

type_synonym int32 = "32 word"
type_synonym uint32 = "32 word"
type_synonym nsecs = "64 word"
type_synonym size_t = "64 word"

subsection \<open>The type \<open>float\<close>\<close>

text \<open>
  A \<open>float\<close> is a NaN, an infinity or a finite value \<open>FVal r\<close>. The finite values of
  binary32 are the multiples n * 2^e of a power of two with |n| < 2^24 and
  -149 \<le> e \<le> 104; a \<open>float\<close> that the controller computes is always one of them, because
  every operation ends with \<open>round32\<close>. A \<open>float\<close> that comes from outside (an argument of
  \<open>setPosition\<close>, a touch coordinate) is any \<open>cfloat\<close>; \<open>isFloat32\<close> says that it is a value
  of binary32, where a property needs that. The sign of a zero is not kept: the
  controller never divides by a variable and never prints a zero, so no operation of
  this file tells -0 from +0.
\<close>

datatype cfloat = FNaN | FPosInf | FNegInf | FVal real

text \<open>Rounding of a real to the nearest integer, ties to the even one.\<close>

definition roundHalfEven :: "real \<Rightarrow> int" where
  "roundHalfEven q =
     (let n = \<lfloor>q\<rfloor>; f = q - of_int n
      in if f < 1 / 2 then n else if 1 / 2 < f then n + 1 else if even n then n else n + 1)"

text \<open>The number of binary digits of a positive integer, 0 for the others.\<close>

function bitLength :: "int \<Rightarrow> nat" where
  "bitLength n = (if n \<le> 0 then 0 else Suc (bitLength (n div 2)))"
  by pat_completeness auto
termination by (relation "measure nat") auto

declare bitLength.simps [simp del]

text \<open>
  \<open>roundScaled b\<close> rounds a magnitude given in units of 2^-149, the smallest positive
  binary32 value: with k the number of digits of \<open>b\<close> beyond 24, the result is the
  multiple of 2^k nearest to \<open>b\<close> (ties to the even multiple), so it has at most 24
  significant digits. \<open>round32\<close> is round-to-nearest-even of binary32: a magnitude that
  rounds to 2^128 or more becomes an infinity.
\<close>

definition roundScaled :: "real \<Rightarrow> real" where
  "roundScaled b = (let k = bitLength \<lfloor>b\<rfloor> - 24 in of_int (roundHalfEven (b / 2 ^ k)) * 2 ^ k)"

definition round32 :: "real \<Rightarrow> cfloat" where
  "round32 r =
     (let m = roundScaled (\<bar>r\<bar> * 2 ^ 149)
      in if 2 ^ 277 \<le> m then (if r < 0 then FNegInf else FPosInf)
         else FVal (if r < 0 then - (m / 2 ^ 149) else m / 2 ^ 149))"

definition isFloat32 :: "cfloat \<Rightarrow> bool" where
  "isFloat32 c = (case c of FVal r \<Rightarrow> round32 r = FVal r | _ \<Rightarrow> True)"

text \<open>The value of a finite \<open>float\<close> as a real number (0 for the others).\<close>

definition isFinite :: "cfloat \<Rightarrow> bool" where
  "isFinite c = (case c of FVal r \<Rightarrow> True | _ \<Rightarrow> False)"

definition valueOf :: "cfloat \<Rightarrow> real" where
  "valueOf c = (case c of FVal r \<Rightarrow> r | _ \<Rightarrow> 0)"

text \<open>The operators \<open>-x\<close>, \<open>+\<close>, \<open>-\<close>, \<open>*\<close>, \<open>/\<close> of \<open>float\<close>.\<close>

fun fneg :: "cfloat \<Rightarrow> cfloat" where
  "fneg FNaN = FNaN"
| "fneg FPosInf = FNegInf"
| "fneg FNegInf = FPosInf"
| "fneg (FVal a) = FVal (- a)"

fun fadd :: "cfloat \<Rightarrow> cfloat \<Rightarrow> cfloat" where
  "fadd (FVal a) (FVal b) = round32 (a + b)"
| "fadd FNaN b = FNaN"
| "fadd a FNaN = FNaN"
| "fadd FPosInf FNegInf = FNaN"
| "fadd FNegInf FPosInf = FNaN"
| "fadd FPosInf b = FPosInf"
| "fadd FNegInf b = FNegInf"
| "fadd (FVal a) b = b"

definition fsub :: "cfloat \<Rightarrow> cfloat \<Rightarrow> cfloat" where
  "fsub a b = fadd a (fneg b)"

fun fmul :: "cfloat \<Rightarrow> cfloat \<Rightarrow> cfloat" where
  "fmul (FVal a) (FVal b) = round32 (a * b)"
| "fmul FNaN b = FNaN"
| "fmul a FNaN = FNaN"
| "fmul (FVal a) b = (if a = 0 then FNaN else if 0 < a then b else fneg b)"
| "fmul a (FVal b) = (if b = 0 then FNaN else if 0 < b then a else fneg a)"
| "fmul a b = (if a = b then FPosInf else FNegInf)"

fun fdiv :: "cfloat \<Rightarrow> cfloat \<Rightarrow> cfloat" where
  "fdiv (FVal a) (FVal b) =
     (if b = 0 then (if a = 0 then FNaN else if 0 < a then FPosInf else FNegInf)
      else round32 (a / b))"
| "fdiv FNaN b = FNaN"
| "fdiv a FNaN = FNaN"
| "fdiv (FVal a) b = FVal 0"
| "fdiv a (FVal b) = (if 0 \<le> b then a else fneg a)"
| "fdiv a b = FNaN"

text \<open>The comparisons \<open><=\<close>, \<open><\<close>, \<open>>=\<close>, \<open>>\<close>, \<open>==\<close> of \<open>float\<close>.\<close>

fun fle :: "cfloat \<Rightarrow> cfloat \<Rightarrow> bool" where
  "fle (FVal a) (FVal b) = (a \<le> b)"
| "fle FNaN b = False"
| "fle a FNaN = False"
| "fle FNegInf b = True"
| "fle a FPosInf = True"
| "fle a b = False"

fun flt :: "cfloat \<Rightarrow> cfloat \<Rightarrow> bool" where
  "flt (FVal a) (FVal b) = (a < b)"
| "flt FNaN b = False"
| "flt a FNaN = False"
| "flt FPosInf b = False"
| "flt a FNegInf = False"
| "flt a b = True"

definition fge :: "cfloat \<Rightarrow> cfloat \<Rightarrow> bool" where
  "fge a b = fle b a"

definition fgt :: "cfloat \<Rightarrow> cfloat \<Rightarrow> bool" where
  "fgt a b = flt b a"

fun feq :: "cfloat \<Rightarrow> cfloat \<Rightarrow> bool" where
  "feq FNaN b = False"
| "feq a FNaN = False"
| "feq a b = (a = b)"

subsection \<open>The structures of the controller\<close>

text \<open>A \<open>SpriteIcon\<close> is an opaque bitmap; only its identity matters here.\<close>

type_synonym SpriteIcon = nat

datatype ViewportType = VIEWPORT_INTERNAL | VIEWPORT_EXTERNAL | VIEWPORT_VIRTUAL

text \<open>
  \<open>DisplayViewport\<close> is declared by the input library (\<open>input/DisplayViewport.h\<close>), which is
  not among the sources. The record lists the fields of that struct; the controller reads
  \<open>displayId\<close>, \<open>orientation\<close>, the logical bounds and the device size, and compares whole
  viewports with \<open>==\<close>, which is equality of all fields.
\<close>

record DisplayViewport =
  displayId :: int32
  orientation :: int32
  logicalLeft :: int32
  logicalTop :: int32
  logicalRight :: int32
  logicalBottom :: int32
  physicalLeft :: int32
  physicalTop :: int32
  physicalRight :: int32
  physicalBottom :: int32
  deviceWidth :: int32
  deviceHeight :: int32
  uniqueId :: string
  physicalPort :: "8 word option"
  viewportType :: ViewportType

definition DISPLAY_ORIENTATION_0 :: int32 where "DISPLAY_ORIENTATION_0 = 0"
definition DISPLAY_ORIENTATION_90 :: int32 where "DISPLAY_ORIENTATION_90 = 1"
definition DISPLAY_ORIENTATION_180 :: int32 where "DISPLAY_ORIENTATION_180 = 2"
definition DISPLAY_ORIENTATION_270 :: int32 where "DISPLAY_ORIENTATION_270 = 3"

text \<open>
  A sprite is the rendering handle. \<open>spriteId\<close> is the identity of the handle (the
  address behind the \<open>sp<Sprite>\<close>); the other fields are the attributes last set on it.
\<close>

record Sprite =
  spriteId :: nat
  spriteLayer :: uint32
  spriteX :: cfloat
  spriteY :: cfloat
  spriteDisplayId :: int32
  spriteAlpha :: cfloat
  spriteVisible :: bool
  spriteIcon :: "SpriteIcon option"
  spriteMatrix :: "cfloat \<times> cfloat \<times> cfloat \<times> cfloat"

definition BASE_LAYER_POINTER :: uint32 where "BASE_LAYER_POINTER = 0"
definition BASE_LAYER_SPOT :: uint32 where "BASE_LAYER_SPOT = 1"

text \<open>
  \<open>Spot::lastIcon\<close> is a pointer to one of the two icons of \<open>mResources\<close> that \<open>setSpots\<close>
  passes, or null; the pointers are compared, not the bitmaps.
\<close>

datatype IconRef = RefSpotHover | RefSpotTouch

record Spot =
  spotId :: uint32
  spotAlpha :: cfloat
  spotScale :: cfloat
  spotX :: cfloat
  spotY :: cfloat
  spotSprite :: Sprite
  lastIcon :: "IconRef option"

text \<open>
  Modelled from the spec: the sentinel \<open>Spot::INVALID_ID\<close> and the two capacities are
  declared in PointerController.h, which is not among the sources. The spec names the
  sentinel ("detached, fading out, pending removal"), gives 12 as the size of
  \<open>MAX_SPOTS\<close> and calls \<open>MAX_RECYCLED_SPRITES\<close> the cap of the pool; both caps are 12
  here. The sentinel is the largest \<open>uint32_t\<close>, which no touch id (0..31) can equal.
  The general theorems use of these values only that \<open>MAX_SPOTS\<close> is positive.
\<close>

definition INVALID_ID :: uint32 where "INVALID_ID = 0xffffffff"
definition MAX_SPOTS :: nat where "MAX_SPOTS = 12"
definition MAX_RECYCLED_SPRITES :: nat where "MAX_RECYCLED_SPRITES = 12"

text \<open>
  Modelled from the spec: the constructor \<open>Spot(id, sprite)\<close> is in the missing header.
  A spot starts with alpha 1.0, a constant scale, and no icon shown.
\<close>

definition newSpot :: "uint32 \<Rightarrow> Sprite \<Rightarrow> Spot" where
  "newSpot i sp = \<lparr>spotId = i, spotAlpha = FVal 1, spotScale = FVal 1, spotX = FVal 0,
                   spotY = FVal 0, spotSprite = sp, lastIcon = None\<rparr>"

record PointerResources =
  spotHover :: SpriteIcon
  spotTouch :: SpriteIcon
  spotAnchor :: SpriteIcon

record PointerAnimation =
  animationFrames :: "SpriteIcon list"
  durationPerFrame :: nsecs

datatype Presentation = POINTER | SPOT
datatype Transition = IMMEDIATE | GRADUAL
datatype InactivityTimeout = NORMAL | SHORT

datatype Event =
    OpenTransaction
  | CloseTransaction
  | RequestNextVsync
  | RemoveMessages
  | SendMessageDelayed nsecs
  | LogWarning int32

text \<open>
  The collaborators whose answers the controller uses: the validity test of the viewport
  type, the resource policy, the monotonic clock and the sprite factory. They are
  parameters of every operation.
\<close>

record Env =
  isValid :: "DisplayViewport \<Rightarrow> bool"
  getDefaultPointerIconId :: int32
  getCustomPointerIconId :: int32
  loadPointerResources :: "PointerResources \<Rightarrow> int32 \<Rightarrow> PointerResources"
  loadPointerIcon :: "SpriteIcon \<Rightarrow> int32 \<Rightarrow> SpriteIcon"
  loadAdditionalMouseResources ::
    "(int32 \<times> SpriteIcon) list \<Rightarrow> (int32 \<times> PointerAnimation) list \<Rightarrow> int32
      \<Rightarrow> (int32 \<times> SpriteIcon) list \<times> (int32 \<times> PointerAnimation) list"
  systemTime :: "nat \<Rightarrow> nsecs"
  createSprite :: "nat \<Rightarrow> Sprite"

text \<open>
  The state: the fields of \<open>mLocked\<close>, then \<open>mResources\<close>, then the bookkeeping of the
  embedding (trace of collaborator calls, sprites created, clock readings). The two
  \<open>std::map\<close>s of resources are association lists read with \<open>map_of\<close>;
  \<open>spotsByDisplay\<close> is an association list kept in ascending key order, the order in which
  the code iterates over the \<open>std::map\<close>.
\<close>

record PointerController =
  animationPending :: bool
  animationTime :: nsecs
  presentation :: Presentation
  presentationChanged :: bool
  inactivityTimeout :: InactivityTimeout
  pointerFadeDirection :: int32
  pointerX :: cfloat
  pointerY :: cfloat
  pointerAlpha :: cfloat
  pointerSprite :: Sprite
  pointerIcon :: SpriteIcon
  pointerIconChanged :: bool
  additionalMouseResources :: "(int32 \<times> SpriteIcon) list"
  animationResources :: "(int32 \<times> PointerAnimation) list"
  requestedPointerType :: int32
  animationFrameIndex :: size_t
  lastFrameUpdatedTime :: nsecs
  buttonState :: int32
  viewport :: DisplayViewport
  spotsByDisplay :: "(int32 \<times> Spot list) list"
  recycledSprites :: "Sprite list"
  mResources :: PointerResources
  trace :: "Event list"
  spritesCreated :: nat
  clockReads :: nat

definition POINTER_FADE_DURATION :: nsecs where "POINTER_FADE_DURATION = 500 * 1000000"
definition SPOT_FADE_DURATION :: nsecs where "SPOT_FADE_DURATION = 200 * 1000000"
definition INACTIVITY_TIMEOUT_DELAY_TIME_NORMAL :: nsecs where
  "INACTIVITY_TIMEOUT_DELAY_TIME_NORMAL = 15 * 1000 * 1000000"
definition INACTIVITY_TIMEOUT_DELAY_TIME_SHORT :: nsecs where
  "INACTIVITY_TIMEOUT_DELAY_TIME_SHORT = 3 * 1000 * 1000000"

text \<open>The conversions of \<open>int32_t\<close> and \<open>nsecs_t\<close> to \<open>float\<close>: they round.\<close>

definition float_of_int32 :: "int32 \<Rightarrow> cfloat" where
  "float_of_int32 w = round32 (real_of_int (sint w))"

definition float_of_nsecs :: "nsecs \<Rightarrow> cfloat" where
  "float_of_nsecs w = round32 (real_of_int (sint w))"

definition emit :: "Event \<Rightarrow> PointerController \<Rightarrow> PointerController" where
  "emit e s = s\<lparr>trace := trace s @ [e]\<rparr>"

section \<open>Bounds, position\<close>

text \<open>\<open>getBoundsLocked\<close>: \<open>None\<close> is the return value \<open>false\<close> (no out-parameter written).\<close>

definition getBoundsLocked ::
  "Env \<Rightarrow> PointerController \<Rightarrow> (cfloat \<times> cfloat \<times> cfloat \<times> cfloat) option" where
  "getBoundsLocked E s =
     (if \<not> isValid E (viewport s) then None
      else Some (float_of_int32 (logicalLeft (viewport s)),
                 float_of_int32 (logicalTop (viewport s)),
                 float_of_int32 (logicalRight (viewport s) - 1),
                 float_of_int32 (logicalBottom (viewport s) - 1)))"

definition startAnimationLocked :: "Env \<Rightarrow> PointerController \<Rightarrow> PointerController" where
  "startAnimationLocked E s =
     (if \<not> animationPending s
      then emit RequestNextVsync
             (s\<lparr>animationPending := True,
                animationTime := systemTime E (clockReads s),
                clockReads := Suc (clockReads s)\<rparr>)
      else s)"

text \<open>The part of \<open>updatePointerLocked\<close> that runs when the icon or the presentation changed.\<close>

definition updatePointerIconLocked :: "Env \<Rightarrow> PointerController \<Rightarrow> PointerController" where
  "updatePointerIconLocked E s =
     (let s1 =
        (if presentation s = POINTER then
           (if requestedPointerType s = getDefaultPointerIconId E
            then s\<lparr>pointerSprite := (pointerSprite s)\<lparr>spriteIcon := Some (pointerIcon s)\<rparr>\<rparr>
            else
              (case map_of (additionalMouseResources s) (requestedPointerType s) of
                 Some ic \<Rightarrow>
                   (let s' =
                      (case map_of (animationResources s) (requestedPointerType s) of
                         Some anim \<Rightarrow>
                           startAnimationLocked E
                             (s\<lparr>animationFrameIndex := 0,
                                lastFrameUpdatedTime := systemTime E (clockReads s),
                                clockReads := Suc (clockReads s)\<rparr>)
                       | None \<Rightarrow> s)
                    in s'\<lparr>pointerSprite := (pointerSprite s')\<lparr>spriteIcon := Some ic\<rparr>\<rparr>)
               | None \<Rightarrow>
                   (let s' = emit (LogWarning (requestedPointerType s)) s
                    in s'\<lparr>pointerSprite :=
                            (pointerSprite s')\<lparr>spriteIcon := Some (pointerIcon s')\<rparr>\<rparr>)))
         else s\<lparr>pointerSprite :=
                  (pointerSprite s)\<lparr>spriteIcon := Some (spotAnchor (mResources s))\<rparr>\<rparr>)
      in s1\<lparr>pointerIconChanged := False, presentationChanged := False\<rparr>)"

definition updatePointerLocked :: "Env \<Rightarrow> PointerController \<Rightarrow> PointerController" where
  "updatePointerLocked E s =
     (if \<not> isValid E (viewport s) then s
      else
        let s1 = emit OpenTransaction s;
            s2 = s1\<lparr>pointerSprite :=
                      (pointerSprite s1)\<lparr>spriteLayer := BASE_LAYER_POINTER,
                                          spriteX := pointerX s1,
                                          spriteY := pointerY s1,
                                          spriteDisplayId := displayId (viewport s1)\<rparr>\<rparr>;
            s3 = (if fgt (pointerAlpha s2) (FVal 0)
                  then s2\<lparr>pointerSprite :=
                            (pointerSprite s2)\<lparr>spriteAlpha := pointerAlpha s2,
                                                spriteVisible := True\<rparr>\<rparr>
                  else s2\<lparr>pointerSprite := (pointerSprite s2)\<lparr>spriteVisible := False\<rparr>\<rparr>);
            s4 = (if pointerIconChanged s3 \<or> presentationChanged s3
                  then updatePointerIconLocked E s3 else s3)
        in emit CloseTransaction s4)"

definition setPositionLocked ::
  "Env \<Rightarrow> cfloat \<Rightarrow> cfloat \<Rightarrow> PointerController \<Rightarrow> PointerController" where
  "setPositionLocked E x y s =
     (case getBoundsLocked E s of
        None \<Rightarrow> s
      | Some (minX, minY, maxX, maxY) \<Rightarrow>
          updatePointerLocked E
            (s\<lparr>pointerX := (if fle x minX then minX else if fge x maxX then maxX else x),
               pointerY := (if fle y minY then minY else if fge y maxY then maxY else y)\<rparr>))"

definition move :: "Env \<Rightarrow> cfloat \<Rightarrow> cfloat \<Rightarrow> PointerController \<Rightarrow> PointerController" where
  "move E deltaX deltaY s =
     (if feq deltaX (FVal 0) \<and> feq deltaY (FVal 0) then s
      else setPositionLocked E (fadd (pointerX s) deltaX) (fadd (pointerY s) deltaY) s)"

definition setPosition ::
  "Env \<Rightarrow> cfloat \<Rightarrow> cfloat \<Rightarrow> PointerController \<Rightarrow> PointerController" where
  "setPosition E x y s = setPositionLocked E x y s"

definition setButtonState :: "int32 \<Rightarrow> PointerController \<Rightarrow> PointerController" where
  "setButtonState b s = (if buttonState s \<noteq> b then s\<lparr>buttonState := b\<rparr> else s)"

definition getPosition :: "PointerController \<Rightarrow> cfloat \<times> cfloat" where
  "getPosition s = (pointerX s, pointerY s)"

section \<open>Fading and the inactivity timer\<close>

definition resetInactivityTimeoutLocked :: "PointerController \<Rightarrow> PointerController" where
  "resetInactivityTimeoutLocked s =
     emit (SendMessageDelayed
             (if inactivityTimeout s = SHORT then INACTIVITY_TIMEOUT_DELAY_TIME_SHORT
              else INACTIVITY_TIMEOUT_DELAY_TIME_NORMAL))
       (emit RemoveMessages s)"

definition removeInactivityTimeoutLocked :: "PointerController \<Rightarrow> PointerController" where
  "removeInactivityTimeoutLocked s = emit RemoveMessages s"

definition fade :: "Env \<Rightarrow> Transition \<Rightarrow> PointerController \<Rightarrow> PointerController" where
  "fade E transition s =
     (let s1 = removeInactivityTimeoutLocked s
      in if transition = IMMEDIATE
         then updatePointerLocked E (s1\<lparr>pointerFadeDirection := 0, pointerAlpha := FVal 0\<rparr>)
         else startAnimationLocked E (s1\<lparr>pointerFadeDirection := - 1\<rparr>))"

definition unfade :: "Env \<Rightarrow> Transition \<Rightarrow> PointerController \<Rightarrow> PointerController" where
  "unfade E transition s =
     (let s1 = resetInactivityTimeoutLocked s
      in if transition = IMMEDIATE
         then updatePointerLocked E (s1\<lparr>pointerFadeDirection := 0, pointerAlpha := FVal 1\<rparr>)
         else startAnimationLocked E (s1\<lparr>pointerFadeDirection := 1\<rparr>))"

definition doInactivityTimeout :: "Env \<Rightarrow> PointerController \<Rightarrow> PointerController" where
  "doInactivityTimeout E s = fade E GRADUAL s"

definition setInactivityTimeout ::
  "InactivityTimeout \<Rightarrow> PointerController \<Rightarrow> PointerController" where
  "setInactivityTimeout t s =
     (if inactivityTimeout s \<noteq> t
      then resetInactivityTimeoutLocked (s\<lparr>inactivityTimeout := t\<rparr>) else s)"

section \<open>Spots and the pool of recycled sprites\<close>

text \<open>
  A \<open>Spot*\<close> is held by exactly one vector and a sprite by exactly one spot or by the
  pool, so spots and sprites are values. \<open>getSpot\<close> returns the index of the spot it
  finds, \<open>None\<close> for the null pointer.
\<close>

fun getSpot :: "uint32 \<Rightarrow> Spot list \<Rightarrow> nat option" where
  "getSpot i [] = None"
| "getSpot i (sp # spots) =
     (if spotId sp = i then Some 0 else map_option Suc (getSpot i spots))"

text \<open>\<open>Sprite::clearIcon\<close> leaves the sprite without an icon.\<close>

definition clearIcon :: "Sprite \<Rightarrow> Sprite" where
  "clearIcon sp = sp\<lparr>spriteIcon := None\<rparr>"

definition releaseSpotLocked :: "Spot \<Rightarrow> PointerController \<Rightarrow> PointerController" where
  "releaseSpotLocked spot s =
     (let sprite = clearIcon (spotSprite spot)
      in if length (recycledSprites s) < MAX_RECYCLED_SPRITES
         then s\<lparr>recycledSprites := recycledSprites s @ [sprite]\<rparr>
         else s)"

text \<open>
  \<open>removeFirstFadingSpotLocked\<close>: the spot erased (\<open>None\<close> for the null pointer) and the
  vector after the call.
\<close>

fun removeFirstFadingSpotLocked :: "Spot list \<Rightarrow> Spot option \<times> Spot list" where
  "removeFirstFadingSpotLocked [] = (None, [])"
| "removeFirstFadingSpotLocked (sp # spots) =
     (if spotId sp = INVALID_ID then (Some sp, spots)
      else (let (r, spots') = removeFirstFadingSpotLocked spots in (r, sp # spots')))"

lemma removeFirstFadingSpotLocked_length:
  "removeFirstFadingSpotLocked spots = (Some sp, spots') \<Longrightarrow> length spots = Suc (length spots')"
  by (induction spots arbitrary: spots') (auto split: if_splits prod.splits)

text \<open>
  The loop at the head of \<open>createAndAddSpotLocked\<close>. With \<open>spots.size() >= MAX_SPOTS\<close> and
  \<open>MAX_SPOTS > 0\<close> the vector is not empty, so \<open>spots[0]\<close> exists.
\<close>

function evictSpots :: "Spot list \<Rightarrow> PointerController \<Rightarrow> Spot list \<times> PointerController" where
  "evictSpots spots s =
     (if length spots \<ge> MAX_SPOTS then
        (case removeFirstFadingSpotLocked spots of
           (Some spot, spots') \<Rightarrow> evictSpots spots' (releaseSpotLocked spot s)
         | (None, spots') \<Rightarrow> evictSpots (tl spots) (releaseSpotLocked (hd spots) s))
      else (spots, s))"
  by pat_completeness auto
termination
proof (relation "measure (\<lambda>(spots, s). length spots)", goal_cases)
  case 1
  show ?case by simp
next
  case (2 spots s x y)
  then have "spots \<noteq> []" by (auto simp: MAX_SPOTS_def)
  then show ?case by simp
next
  case (3 spots s x y spot)
  then show ?case using removeFirstFadingSpotLocked_length [of spots spot y] by simp
qed

declare evictSpots.simps [simp del]

definition createAndAddSpotLocked ::
  "Env \<Rightarrow> uint32 \<Rightarrow> Spot list \<Rightarrow> PointerController \<Rightarrow> Spot list \<times> PointerController" where
  "createAndAddSpotLocked E i spots s =
     (let (spots1, s1) = evictSpots spots s;
          (sprite, s2) =
            (if recycledSprites s1 \<noteq> []
             then (last (recycledSprites s1),
                   s1\<lparr>recycledSprites := butlast (recycledSprites s1)\<rparr>)
             else (createSprite E (spritesCreated s1),
                   s1\<lparr>spritesCreated := Suc (spritesCreated s1)\<rparr>))
      in (spots1 @ [newSpot i sprite], s2))"

definition fadeOutAndReleaseSpotLocked ::
  "Env \<Rightarrow> Spot \<Rightarrow> PointerController \<Rightarrow> Spot \<times> PointerController" where
  "fadeOutAndReleaseSpotLocked E spot s =
     (if spotId spot \<noteq> INVALID_ID
      then (spot\<lparr>spotId := INVALID_ID\<rparr>, startAnimationLocked E s)
      else (spot, s))"

fun fadeOutSpots :: "Env \<Rightarrow> Spot list \<Rightarrow> PointerController \<Rightarrow> Spot list \<times> PointerController" where
  "fadeOutSpots E [] s = ([], s)"
| "fadeOutSpots E (spot # spots) s =
     (let (spot', s1) = fadeOutAndReleaseSpotLocked E spot s;
          (spots', s2) = fadeOutSpots E spots s1
      in (spot' # spots', s2))"

fun fadeOutDisplays ::
  "Env \<Rightarrow> (int32 \<times> Spot list) list \<Rightarrow> PointerController
     \<Rightarrow> (int32 \<times> Spot list) list \<times> PointerController" where
  "fadeOutDisplays E [] s = ([], s)"
| "fadeOutDisplays E ((d, spots) # rest) s =
     (let (spots', s1) = fadeOutSpots E spots s;
          (rest', s2) = fadeOutDisplays E rest s1
      in ((d, spots') # rest', s2))"

definition fadeOutAndReleaseAllSpotsLocked :: "Env \<Rightarrow> PointerController \<Rightarrow> PointerController" where
  "fadeOutAndReleaseAllSpotsLocked E s =
     (let (m, s1) = fadeOutDisplays E (spotsByDisplay s) s in s1\<lparr>spotsByDisplay := m\<rparr>)"

definition derefIcon :: "PointerResources \<Rightarrow> IconRef \<Rightarrow> SpriteIcon" where
  "derefIcon res r = (case r of RefSpotHover \<Rightarrow> spotHover res | RefSpotTouch \<Rightarrow> spotTouch res)"

definition updateSprite ::
  "PointerResources \<Rightarrow> IconRef option \<Rightarrow> cfloat \<Rightarrow> cfloat \<Rightarrow> int32 \<Rightarrow> Spot \<Rightarrow> Spot" where
  "updateSprite res ic x y did spot =
     (let sprite1 = (spotSprite spot)
            \<lparr>spriteLayer := BASE_LAYER_SPOT + spotId spot,
             spriteX := x, spriteY := y, spriteDisplayId := did,
             spriteAlpha := spotAlpha spot,
             spriteMatrix := (spotScale spot, FVal 0, FVal 0, spotScale spot)\<rparr>;
          spot1 = spot\<lparr>spotSprite := sprite1, spotX := x, spotY := y\<rparr>
      in if ic \<noteq> lastIcon spot1
         then (case ic of
                 Some r \<Rightarrow>
                   spot1\<lparr>lastIcon := ic,
                         spotSprite := sprite1\<lparr>spriteIcon := Some (derefIcon res r),
                                               spriteVisible := True\<rparr>\<rparr>
               | None \<Rightarrow>
                   spot1\<lparr>lastIcon := ic, spotSprite := sprite1\<lparr>spriteVisible := False\<rparr>\<rparr>)
         else spot1)"

text \<open>
  \<open>BitSet32\<close> (libutils) numbers its bits from the most significant one:
  bit n is \<open>0x80000000 >> n\<close>. The loop over \<open>idBits\<close> with \<open>clearFirstMarkedBit\<close> visits
  the marked bits in ascending order of n.
\<close>

definition hasBit :: "uint32 \<Rightarrow> nat \<Rightarrow> bool" where
  "hasBit w n = (n < 32 \<and> bit w (31 - n))"

definition markedBits :: "uint32 \<Rightarrow> nat list" where
  "markedBits w = filter (hasBit w) [0..<32]"

record PointerCoords =
  axisX :: cfloat
  axisY :: cfloat
  axisPressure :: cfloat

text \<open>The body of the first loop of \<open>setSpots\<close>, for the touch id \<open>n\<close>.\<close>

definition addOrMoveSpot ::
  "Env \<Rightarrow> (nat \<Rightarrow> PointerCoords) \<Rightarrow> (nat \<Rightarrow> uint32) \<Rightarrow> int32
     \<Rightarrow> Spot list \<times> PointerController \<Rightarrow> nat \<Rightarrow> Spot list \<times> PointerController" where
  "addOrMoveSpot E spotCoords spotIdToIndex did acc n =
     (let (spots, s) = acc;
          c = spotCoords (unat (spotIdToIndex n));
          ic = (if fgt (axisPressure c) (FVal 0) then RefSpotTouch else RefSpotHover);
          (k, spots1, s1) =
            (case getSpot (of_nat n) spots of
               Some k \<Rightarrow> (k, spots, s)
             | None \<Rightarrow>
                 (let (spots', s') = createAndAddSpotLocked E (of_nat n) spots s
                  in (length spots' - 1, spots', s')))
      in (spots1[k := updateSprite (mResources s1) (Some ic) (axisX c) (axisY c) did (spots1 ! k)],
          s1))"

text \<open>The second loop of \<open>setSpots\<close>: spots whose finger went up start to fade.\<close>

fun fadeOutLiftedSpots ::
  "Env \<Rightarrow> uint32 \<Rightarrow> Spot list \<Rightarrow> PointerController \<Rightarrow> Spot list \<times> PointerController" where
  "fadeOutLiftedSpots E bits [] s = ([], s)"
| "fadeOutLiftedSpots E bits (spot # spots) s =
     (let (spot', s1) =
            (if spotId spot \<noteq> INVALID_ID \<and> \<not> hasBit bits (unat (spotId spot))
             then fadeOutAndReleaseSpotLocked E spot s else (spot, s));
          (spots', s2) = fadeOutLiftedSpots E bits spots s1
      in (spot' # spots', s2))"

text \<open>\<open>spotsByDisplay[displayId] = newSpots\<close> on the ordered map (keys compared as signed).\<close>

fun assignDisplay ::
  "int32 \<Rightarrow> Spot list \<Rightarrow> (int32 \<times> Spot list) list \<Rightarrow> (int32 \<times> Spot list) list" where
  "assignDisplay d v [] = [(d, v)]"
| "assignDisplay d v ((d', v') # rest) =
     (if d = d' then (d, v) # rest
      else if sint d < sint d' then (d, v) # (d', v') # rest
      else (d', v') # assignDisplay d v rest)"

definition setSpots ::
  "Env \<Rightarrow> (nat \<Rightarrow> PointerCoords) \<Rightarrow> (nat \<Rightarrow> uint32) \<Rightarrow> uint32 \<Rightarrow> int32
     \<Rightarrow> PointerController \<Rightarrow> PointerController" where
  "setSpots E spotCoords spotIdToIndex spotIdBits did s =
     (if \<not> isValid E (viewport s) then s
      else
        let newSpots = (case map_of (spotsByDisplay s) did of Some l \<Rightarrow> l | None \<Rightarrow> []);
            s1 = emit OpenTransaction s;
            (newSpots1, s2) =
              foldl (addOrMoveSpot E spotCoords spotIdToIndex did) (newSpots, s1)
                (markedBits spotIdBits);
            (newSpots2, s3) = fadeOutLiftedSpots E spotIdBits newSpots1 s2;
            s4 = emit CloseTransaction s3
        in s4\<lparr>spotsByDisplay := assignDisplay did newSpots2 (spotsByDisplay s4)\<rparr>)"

definition clearSpots :: "Env \<Rightarrow> PointerController \<Rightarrow> PointerController" where
  "clearSpots E s =
     (if \<not> isValid E (viewport s) then s else fadeOutAndReleaseAllSpotsLocked E s)"

section \<open>Resources, presentation, icons\<close>

definition loadResourcesLocked :: "Env \<Rightarrow> PointerController \<Rightarrow> PointerController" where
  "loadResourcesLocked E s =
     (if \<not> isValid E (viewport s) then s
      else
        let did = displayId (viewport s);
            s1 = s\<lparr>mResources := loadPointerResources E (mResources s) did,
                   pointerIcon := loadPointerIcon E (pointerIcon s) did,
                   additionalMouseResources := [],
                   animationResources := []\<rparr>;
            s2 = (if presentation s1 = POINTER
                  then (let (a, b) = loadAdditionalMouseResources E [] [] did
                        in s1\<lparr>additionalMouseResources := a, animationResources := b\<rparr>)
                  else s1)
        in s2\<lparr>pointerIconChanged := True\<rparr>)"

definition setPresentation :: "Env \<Rightarrow> Presentation \<Rightarrow> PointerController \<Rightarrow> PointerController" where
  "setPresentation E p s =
     (if presentation s = p then s
      else
        let s1 = s\<lparr>presentation := p, presentationChanged := True\<rparr>
        in if \<not> isValid E (viewport s1) then s1
           else if p = POINTER then
             (let s2 = (if additionalMouseResources s1 = []
                        then (let (a, b) = loadAdditionalMouseResources E
                                             (additionalMouseResources s1)
                                             (animationResources s1)
                                             (displayId (viewport s1))
                              in s1\<lparr>additionalMouseResources := a, animationResources := b\<rparr>)
                        else s1)
              in updatePointerLocked E (fadeOutAndReleaseAllSpotsLocked E s2))
           else s1)"

definition reloadPointerResources :: "Env \<Rightarrow> PointerController \<Rightarrow> PointerController" where
  "reloadPointerResources E s = updatePointerLocked E (loadResourcesLocked E s)"

definition updatePointerIcon :: "Env \<Rightarrow> int32 \<Rightarrow> PointerController \<Rightarrow> PointerController" where
  "updatePointerIcon E iconId s =
     (if requestedPointerType s \<noteq> iconId
      then updatePointerLocked E (s\<lparr>requestedPointerType := iconId, presentationChanged := True\<rparr>)
      else s)"

definition setCustomPointerIcon ::
  "Env \<Rightarrow> SpriteIcon \<Rightarrow> PointerController \<Rightarrow> PointerController" where
  "setCustomPointerIcon E ic s =
     (let iconId = getCustomPointerIconId E
      in updatePointerLocked E
           (s\<lparr>additionalMouseResources := AList.update iconId ic (additionalMouseResources s),
              requestedPointerType := iconId,
              presentationChanged := True\<rparr>))"

section \<open>Display viewport\<close>

definition getNonRotatedSize :: "DisplayViewport \<Rightarrow> int32 \<times> int32" where
  "getNonRotatedSize v =
     (if orientation v = DISPLAY_ORIENTATION_90 \<or> orientation v = DISPLAY_ORIENTATION_270
      then (deviceHeight v, deviceWidth v)
      else (deviceWidth v, deviceHeight v))"

text \<open>The first \<open>switch\<close> of \<open>setDisplayViewport\<close>: undo the rotation of the old viewport.\<close>

definition undoRotation :: "DisplayViewport \<Rightarrow> cfloat \<times> cfloat \<Rightarrow> cfloat \<times> cfloat" where
  "undoRotation old p =
     (let (x, y) = p in
      if orientation old = DISPLAY_ORIENTATION_90
        then (fsub (float_of_int32 (deviceHeight old)) y, x)
      else if orientation old = DISPLAY_ORIENTATION_180
        then (fsub (float_of_int32 (deviceWidth old)) x, fsub (float_of_int32 (deviceHeight old)) y)
      else if orientation old = DISPLAY_ORIENTATION_270
        then (y, fsub (float_of_int32 (deviceWidth old)) x)
      else (x, y))"

text \<open>The second \<open>switch\<close>: perform the rotation of the new viewport.\<close>

definition applyRotation :: "DisplayViewport \<Rightarrow> cfloat \<times> cfloat \<Rightarrow> cfloat \<times> cfloat" where
  "applyRotation new p =
     (let (x, y) = p in
      if orientation new = DISPLAY_ORIENTATION_90
        then (y, fsub (float_of_int32 (deviceHeight new)) x)
      else if orientation new = DISPLAY_ORIENTATION_180
        then (fsub (float_of_int32 (deviceWidth new)) x, fsub (float_of_int32 (deviceHeight new)) y)
      else if orientation new = DISPLAY_ORIENTATION_270
        then (fsub (float_of_int32 (deviceWidth new)) y, x)
      else (x, y))"

definition setDisplayViewport ::
  "Env \<Rightarrow> DisplayViewport \<Rightarrow> PointerController \<Rightarrow> PointerController" where
  "setDisplayViewport E v s =
     (if v = viewport s then s
      else
        let oldViewport = viewport s;
            s1 = s\<lparr>viewport := v\<rparr>;
            (oldDisplayWidth, oldDisplayHeight) = getNonRotatedSize oldViewport;
            (newDisplayWidth, newDisplayHeight) = getNonRotatedSize v;
            s2 =
              (if displayId oldViewport \<noteq> displayId v
                  \<or> oldDisplayWidth \<noteq> newDisplayWidth
                  \<or> oldDisplayHeight \<noteq> newDisplayHeight
               then
                 fadeOutAndReleaseAllSpotsLocked E
                   (case getBoundsLocked E s1 of
                      Some (minX, minY, maxX, maxY) \<Rightarrow>
                        loadResourcesLocked E
                          (s1\<lparr>pointerX := fmul (fadd minX maxX) (FVal (1 / 2)),
                              pointerY := fmul (fadd minY maxY) (FVal (1 / 2))\<rparr>)
                    | None \<Rightarrow> s1\<lparr>pointerX := FVal 0, pointerY := FVal 0\<rparr>)
               else if orientation oldViewport \<noteq> orientation v then
                 (let (x, y) = applyRotation v
                                 (undoRotation oldViewport
                                    (fadd (pointerX s1) (FVal (1 / 2)),
                                     fadd (pointerY s1) (FVal (1 / 2))))
                  in s1\<lparr>pointerX := fsub x (FVal (1 / 2)), pointerY := fsub y (FVal (1 / 2))\<rparr>)
               else s1)
        in updatePointerLocked E s2)"

section \<open>Animation\<close>

text \<open>
  The pointer branch of \<open>doFadingAnimationLocked\<close> (the \<open>if\<close>/\<open>else if\<close> on the fade
  direction): the value it leaves in \<open>keepAnimating\<close>, and the state.
\<close>

definition fadePointerLocked ::
  "Env \<Rightarrow> nsecs \<Rightarrow> PointerController \<Rightarrow> bool \<times> PointerController" where
  "fadePointerLocked E frameDelay s =
     (if sint (pointerFadeDirection s) < 0 then
        (let a = fsub (pointerAlpha s)
                   (fdiv (float_of_nsecs frameDelay) (float_of_nsecs POINTER_FADE_DURATION))
         in if fle a (FVal 0)
            then (False,
                  updatePointerLocked E (s\<lparr>pointerAlpha := FVal 0, pointerFadeDirection := 0\<rparr>))
            else (True, updatePointerLocked E (s\<lparr>pointerAlpha := a\<rparr>)))
      else if sint (pointerFadeDirection s) > 0 then
        (let a = fadd (pointerAlpha s)
                   (fdiv (float_of_nsecs frameDelay) (float_of_nsecs POINTER_FADE_DURATION))
         in if fge a (FVal 1)
            then (False,
                  updatePointerLocked E (s\<lparr>pointerAlpha := FVal 1, pointerFadeDirection := 0\<rparr>))
            else (True, updatePointerLocked E (s\<lparr>pointerAlpha := a\<rparr>)))
      else (False, s))"

text \<open>
  The inner loop over one display's spots: the vector after the loop, the state, and
  whether the loop set \<open>keepAnimating\<close>.
\<close>

fun fadeSpotsLocked ::
  "nsecs \<Rightarrow> Spot list \<Rightarrow> PointerController \<Rightarrow> Spot list \<times> PointerController \<times> bool" where
  "fadeSpotsLocked frameDelay [] s = ([], s, False)"
| "fadeSpotsLocked frameDelay (spot # spots) s =
     (if spotId spot = INVALID_ID then
        (let a = fsub (spotAlpha spot)
                   (fdiv (float_of_nsecs frameDelay) (float_of_nsecs SPOT_FADE_DURATION))
         in if fle a (FVal 0)
            then fadeSpotsLocked frameDelay spots (releaseSpotLocked (spot\<lparr>spotAlpha := a\<rparr>) s)
            else (let (spots', s', k) = fadeSpotsLocked frameDelay spots s
                  in (spot\<lparr>spotAlpha := a,
                            spotSprite := (spotSprite spot)\<lparr>spriteAlpha := a\<rparr>\<rparr> # spots',
                      s', True)))
      else (let (spots', s', k) = fadeSpotsLocked frameDelay spots s in (spot # spots', s', k)))"

text \<open>The outer loop over the displays; a display left without spots is erased.\<close>

fun fadeDisplaysLocked ::
  "nsecs \<Rightarrow> (int32 \<times> Spot list) list \<Rightarrow> PointerController
     \<Rightarrow> (int32 \<times> Spot list) list \<times> PointerController \<times> bool" where
  "fadeDisplaysLocked frameDelay [] s = ([], s, False)"
| "fadeDisplaysLocked frameDelay ((d, spots) # rest) s =
     (let (spots', s1, k1) = fadeSpotsLocked frameDelay spots s;
          (rest', s2, k2) = fadeDisplaysLocked frameDelay rest s1
      in ((if spots' = [] then rest' else (d, spots') # rest'), s2, k1 \<or> k2))"

definition doFadingAnimationLocked ::
  "Env \<Rightarrow> nsecs \<Rightarrow> PointerController \<Rightarrow> bool \<times> PointerController" where
  "doFadingAnimationLocked E timestamp s =
     (let frameDelay = timestamp - animationTime s;
          (k1, s1) = fadePointerLocked E frameDelay s;
          (m, s2, k2) = fadeDisplaysLocked frameDelay (spotsByDisplay s1) s1
      in (k1 \<or> k2, s2\<lparr>spotsByDisplay := m\<rparr>))"

text \<open>
  The \<open>while\<close> loop of \<open>doBitmapAnimationLocked\<close> that brings the frame index below the
  number of frames. With no frame the loop never ends: \<open>None\<close>.
\<close>

function wrapFrameIndex :: "size_t \<Rightarrow> size_t \<Rightarrow> size_t option" where
  "wrapFrameIndex i n =
     (if n = 0 then None
      else if i \<ge> n then wrapFrameIndex (i - n) n
      else Some i)"
  by pat_completeness auto
termination
proof (relation "measure (\<lambda>(i, n). unat i)", goal_cases)
  case 1
  show ?case by simp
next
  case (2 i n)
  then have "unat n \<le> unat i" and "0 < unat n"
    by (simp_all add: word_le_nat_alt unat_gt_0)
  then show ?case by (simp add: unat_sub_if')
qed

declare wrapFrameIndex.simps [simp del]

text \<open>
  \<open>doBitmapAnimationLocked\<close>. \<open>None\<close> stands for the two ways in which the C++ gives no
  result: the division by a zero \<open>durationPerFrame\<close>, and the loop above on an animation
  without frames. The division truncates towards zero; the quotient is narrowed to
  \<open>int\<close> and widened again with its sign.
\<close>

definition doBitmapAnimationLocked ::
  "Env \<Rightarrow> nsecs \<Rightarrow> PointerController \<Rightarrow> (bool \<times> PointerController) option" where
  "doBitmapAnimationLocked E timestamp s =
     (case map_of (animationResources s) (requestedPointerType s) of
        None \<Rightarrow> Some (False, s)
      | Some anim \<Rightarrow>
          if sint (timestamp - lastFrameUpdatedTime s) > sint (durationPerFrame anim) then
            (if durationPerFrame anim = 0 then None
             else
               let s1 = emit OpenTransaction s;
                   incr = (word_of_int (sint (timestamp - lastFrameUpdatedTime s1)
                                          sdiv sint (durationPerFrame anim)) :: 32 word);
                   idx = animationFrameIndex s1 + scast incr;
                   s2 = s1\<lparr>animationFrameIndex := idx,
                           lastFrameUpdatedTime :=
                             lastFrameUpdatedTime s1 + durationPerFrame anim * scast incr\<rparr>
               in (case wrapFrameIndex idx (of_nat (length (animationFrames anim))) of
                     None \<Rightarrow> None
                   | Some j \<Rightarrow>
                       Some (True,
                             emit CloseTransaction
                               (s2\<lparr>animationFrameIndex := j,
                                   pointerSprite :=
                                     (pointerSprite s2)
                                       \<lparr>spriteIcon := Some (animationFrames anim ! unat j)\<rparr>\<rparr>))))
          else Some (True, s))"

definition doAnimate :: "Env \<Rightarrow> nsecs \<Rightarrow> PointerController \<Rightarrow> PointerController option" where
  "doAnimate E timestamp s =
     (let s0 = s\<lparr>animationPending := False\<rparr>;
          (keepFading, s1) = doFadingAnimationLocked E timestamp s0
      in (case doBitmapAnimationLocked E timestamp s1 of
            None \<Rightarrow> None
          | Some (keepBitmapFlipping, s2) \<Rightarrow>
              Some (if keepFading \<or> keepBitmapFlipping then startAnimationLocked E s2 else s2)))"

section \<open>Construction and reachable states\<close>

text \<open>
  The constructor assigns the fields below. \<open>u\<close> is the object before the constructor
  body runs: it supplies \<open>animationTime\<close>, which the constructor leaves uninitialised, and
  the members built by their own default constructors (viewport, pointer icon,
  resources). The containers start empty, and the pointer sprite is the first sprite
  that the sprite controller creates.
\<close>

definition constructor :: "Env \<Rightarrow> PointerController \<Rightarrow> PointerController" where
  "constructor E u =
     u\<lparr>animationPending := False,
       presentation := POINTER,
       presentationChanged := False,
       inactivityTimeout := NORMAL,
       pointerFadeDirection := 0,
       pointerX := FVal 0,
       pointerY := FVal 0,
       pointerAlpha := FVal 0,
       pointerSprite := createSprite E 0,
       pointerIconChanged := False,
       additionalMouseResources := [],
       animationResources := [],
       requestedPointerType := getDefaultPointerIconId E,
       animationFrameIndex := 0,
       lastFrameUpdatedTime := 0,
       buttonState := 0,
       spotsByDisplay := [],
       recycledSprites := [],
       trace := [],
       spritesCreated := 1,
       clockReads := 0\<rparr>"

text \<open>
  The states of a controller: the constructed one, and every state that a public
  operation or a delivered callback (vsync pulse, inactivity message) leads to. A vsync
  pulse may carry any timestamp; an animation step that has no result leads nowhere.
\<close>

inductive reachable :: "Env \<Rightarrow> PointerController \<Rightarrow> bool" for E :: Env where
  r_constructor: "reachable E (constructor E u)"
| r_move: "reachable E s \<Longrightarrow> reachable E (move E dx dy s)"
| r_setButtonState: "reachable E s \<Longrightarrow> reachable E (setButtonState b s)"
| r_setPosition: "reachable E s \<Longrightarrow> reachable E (setPosition E x y s)"
| r_fade: "reachable E s \<Longrightarrow> reachable E (fade E tr s)"
| r_unfade: "reachable E s \<Longrightarrow> reachable E (unfade E tr s)"
| r_setPresentation: "reachable E s \<Longrightarrow> reachable E (setPresentation E p s)"
| r_setSpots: "reachable E s \<Longrightarrow> reachable E (setSpots E coords idx bits d s)"
| r_clearSpots: "reachable E s \<Longrightarrow> reachable E (clearSpots E s)"
| r_setInactivityTimeout: "reachable E s \<Longrightarrow> reachable E (setInactivityTimeout t s)"
| r_reloadPointerResources: "reachable E s \<Longrightarrow> reachable E (reloadPointerResources E s)"
| r_setDisplayViewport: "reachable E s \<Longrightarrow> reachable E (setDisplayViewport E v s)"
| r_updatePointerIcon: "reachable E s \<Longrightarrow> reachable E (updatePointerIcon E i s)"
| r_setCustomPointerIcon: "reachable E s \<Longrightarrow> reachable E (setCustomPointerIcon E ic s)"
| r_doInactivityTimeout: "reachable E s \<Longrightarrow> reachable E (doInactivityTimeout E s)"
| r_doAnimate: "reachable E s \<Longrightarrow> doAnimate E ts s = Some s' \<Longrightarrow> reachable E s'"

section \<open>A concrete environment and concrete states\<close>

text \<open>
  Modelled from the spec: \<open>DisplayViewport::isValid()\<close> belongs to the input library
  (\<open>input/DisplayViewport.h\<close>), which is not among the sources. The spec says of the
  viewport that it carries a display identifier and is "invalid until first set"; a
  default-constructed viewport has the display id -1, so a viewport is taken as valid
  when its display id is not negative. The theorems hold for every validity test (it is
  the parameter \<open>isValid\<close> of the environment); only the concrete environment of the
  examples uses this one.
\<close>

definition libraryIsValid :: "DisplayViewport \<Rightarrow> bool" where
  "libraryIsValid v = (0 \<le> sint (displayId v))"

definition exampleSprite :: "nat \<Rightarrow> Sprite" where
  "exampleSprite n =
     \<lparr>spriteId = n, spriteLayer = 0, spriteX = FVal 0, spriteY = FVal 0, spriteDisplayId = 0,
      spriteAlpha = FVal 1, spriteVisible = False, spriteIcon = None,
      spriteMatrix = (FVal 1, FVal 0, FVal 0, FVal 1)\<rparr>"

definition exampleEnv :: Env where
  "exampleEnv =
     \<lparr>isValid = libraryIsValid,
      getDefaultPointerIconId = 1000,
      getCustomPointerIconId = - 1,
      loadPointerResources = (\<lambda>r d. \<lparr>spotHover = 1, spotTouch = 2, spotAnchor = 3\<rparr>),
      loadPointerIcon = (\<lambda>i d. 4),
      loadAdditionalMouseResources = (\<lambda>a b d. ((1002, 5) # a, b)),
      systemTime = (\<lambda>n. of_nat n * 1000000),
      createSprite = exampleSprite\<rparr>"

text \<open>The viewport of the spec's scenario: left 0, top 0, width 1080, height 1920, rotation 0.\<close>

definition exampleViewport :: DisplayViewport where
  "exampleViewport =
     \<lparr>displayId = 0, orientation = 0, logicalLeft = 0, logicalTop = 0,
      logicalRight = 1080, logicalBottom = 1920, physicalLeft = 0, physicalTop = 0,
      physicalRight = 1080, physicalBottom = 1920, deviceWidth = 1080, deviceHeight = 1920,
      uniqueId = ''local:0'', physicalPort = None, viewportType = VIEWPORT_INTERNAL\<rparr>"

text \<open>A default-constructed viewport: display id -1, everything else zero.\<close>

definition defaultViewport :: DisplayViewport where
  "defaultViewport =
     \<lparr>displayId = - 1, orientation = 0, logicalLeft = 0, logicalTop = 0,
      logicalRight = 0, logicalBottom = 0, physicalLeft = 0, physicalTop = 0,
      physicalRight = 0, physicalBottom = 0, deviceWidth = 0, deviceHeight = 0,
      uniqueId = [], physicalPort = None, viewportType = VIEWPORT_INTERNAL\<rparr>"

text \<open>A valid display id with logical bounds that contain no pixel (left 10, right 5).\<close>

definition degenerateViewport :: DisplayViewport where
  "degenerateViewport = exampleViewport\<lparr>logicalLeft := 10, logicalRight := 5\<rparr>"

definition blank :: PointerController where
  "blank =
     \<lparr>animationPending = False, animationTime = 0, presentation = POINTER,
      presentationChanged = False, inactivityTimeout = NORMAL, pointerFadeDirection = 0,
      pointerX = FVal 0, pointerY = FVal 0, pointerAlpha = FVal 0,
      pointerSprite = exampleSprite 0,
      pointerIcon = 0, pointerIconChanged = False, additionalMouseResources = [],
      animationResources = [], requestedPointerType = 0, animationFrameIndex = 0,
      lastFrameUpdatedTime = 0, buttonState = 0, viewport = defaultViewport,
      spotsByDisplay = [], recycledSprites = [],
      mResources = \<lparr>spotHover = 0, spotTouch = 0, spotAnchor = 0\<rparr>,
      trace = [], spritesCreated = 0, clockReads = 0\<rparr>"

text \<open>A freshly constructed controller, and one that has been given the example viewport.\<close>

definition freshState :: PointerController where
  "freshState = constructor exampleEnv blank"

definition exampleState :: PointerController where
  "exampleState = setDisplayViewport exampleEnv exampleViewport freshState"

definition degenerateState :: PointerController where
  "degenerateState = setDisplayViewport exampleEnv degenerateViewport freshState"







definition wideViewport :: DisplayViewport where
  "wideViewport = exampleViewport\<lparr>logicalRight := 16777220, deviceWidth := 16777220\<rparr>"

definition wideState :: PointerController where
  "wideState = setDisplayViewport exampleEnv wideViewport freshState"

text \<open>Touch coordinates with pressure 0.5, the same for every index.\<close>

definition plainCoords :: "nat \<Rightarrow> PointerCoords" where
  "plainCoords k = \<lparr>axisX = FVal 10, axisY = FVal 20, axisPressure = FVal (1 / 2)\<rparr>"

text \<open>
  Thirteen touches (ids 0 to 12) reported at once on display 0; twelve live spots; the
  same with the spot at index 5 fading.
\<close>

definition thirteen :: PointerController where
  "thirteen = setSpots exampleEnv plainCoords (\<lambda>k. 0) 0xFFF80000 0 exampleState"

definition twelveSpots :: "Spot list" where
  "twelveSpots =
     [newSpot 0 (exampleSprite 1), newSpot 1 (exampleSprite 2), newSpot 2 (exampleSprite 3),
      newSpot 3 (exampleSprite 4), newSpot 4 (exampleSprite 5), newSpot 5 (exampleSprite 6),
      newSpot 6 (exampleSprite 7), newSpot 7 (exampleSprite 8), newSpot 8 (exampleSprite 9),
      newSpot 9 (exampleSprite 10), newSpot 10 (exampleSprite 11), newSpot 11 (exampleSprite 12)]"

definition twelveSpotsOneFading :: "Spot list" where
  "twelveSpotsOneFading = twelveSpots[5 := (twelveSpots ! 5)\<lparr>spotId := INVALID_ID\<rparr>]"

text \<open>
  The spec's scenario: id 1 touches with pressure 0.5, then lifts; a first vsync pulse
  comes at 100 ms, a second at 300 ms. \<open>tick\<close> is an animation step of the example
  environment (the state stays as it is where the step has no result).
\<close>

definition tick :: "nsecs \<Rightarrow> PointerController \<Rightarrow> PointerController" where
  "tick ts s = (case doAnimate exampleEnv ts s of Some s' \<Rightarrow> s' | None \<Rightarrow> s)"

definition touchedState :: PointerController where
  "touchedState = setSpots exampleEnv plainCoords (\<lambda>k. 0) 0x40000000 0 exampleState"

definition liftedState :: PointerController where
  "liftedState = setSpots exampleEnv plainCoords (\<lambda>k. 0) 0 0 touchedState"

definition halfFadedState :: PointerController where
  "halfFadedState = tick 100000000 liftedState"

definition fadedState :: PointerController where
  "fadedState = tick 300000000 halfFadedState"

text \<open>
  A gradual fade of a fully visible pointer: the first vsync pulse comes at 100 ms, the
  second at one second.
\<close>

definition visibleState :: PointerController where
  "visibleState = unfade exampleEnv IMMEDIATE exampleState"

definition fadingState :: PointerController where
  "fadingState = fade exampleEnv GRADUAL visibleState"

definition dimmedState :: PointerController where
  "dimmedState = tick 100000000 fadingState"

definition transparentState :: PointerController where
  "transparentState = tick 1000000000 dimmedState"

section \<open>Notions used to state the properties\<close>

text \<open>
  The spot that the spec names for eviction from a full list, and the list without it:
  the first fading spot in list order if there is one, else the spot at index 0.
\<close>

definition evictionVictim :: "Spot list \<Rightarrow> Spot" where
  "evictionVictim spots =
     (case find (\<lambda>sp. spotId sp = INVALID_ID) spots of Some sp \<Rightarrow> sp | None \<Rightarrow> spots ! 0)"

definition withoutVictim :: "Spot list \<Rightarrow> Spot list" where
  "withoutVictim spots =
     (case find (\<lambda>sp. spotId sp = INVALID_ID) spots of
        Some sp \<Rightarrow> takeWhile (\<lambda>sp. spotId sp \<noteq> INVALID_ID) spots
                    @ tl (dropWhile (\<lambda>sp. spotId sp \<noteq> INVALID_ID) spots)
      | None \<Rightarrow> tl spots)"

text \<open>
  A spot is faded out by an animation step with the given frame delay when it is fading
  and the step brings its alpha to 0 or below: the condition under which the step erases
  it. \<open>allSpots\<close> lists the spots of all displays in iteration order.
\<close>

definition fadedOut :: "nsecs \<Rightarrow> Spot \<Rightarrow> bool" where
  "fadedOut frameDelay spot =
     (spotId spot = INVALID_ID \<and>
      fle (fsub (spotAlpha spot)
             (fdiv (float_of_nsecs frameDelay) (float_of_nsecs SPOT_FADE_DURATION)))
          (FVal 0))"

definition allSpots :: "PointerController \<Rightarrow> Spot list" where
  "allSpots s = concat (map snd (spotsByDisplay s))"

definition fadingSpotLeft :: "PointerController \<Rightarrow> bool" where
  "fadingSpotLeft s = (\<exists>sp\<in>set (allSpots s). spotId sp = INVALID_ID)"



text \<open>The test of \<open>setDisplayViewport\<close> for a change of the display id or of the unrotated size.\<close>

definition displayChanged :: "DisplayViewport \<Rightarrow> DisplayViewport \<Rightarrow> bool" where
  "displayChanged old new =
     (displayId old \<noteq> displayId new \<or> getNonRotatedSize old \<noteq> getNonRotatedSize new)"

text \<open>
  Two projections of the state. The spot loops that only start the animation change
  nothing outside the fields that \<open>exceptAnimation\<close> blanks; the loops that only release
  spots or take a sprite change nothing outside the fields that \<open>exceptPool\<close> blanks.
\<close>

definition exceptAnimation :: "PointerController \<Rightarrow> PointerController" where
  "exceptAnimation s =
     s\<lparr>animationPending := False, animationTime := 0, clockReads := 0, trace := []\<rparr>"

definition exceptPool :: "PointerController \<Rightarrow> PointerController" where
  "exceptPool s = s\<lparr>recycledSprites := [], spritesCreated := 0\<rparr>"

text \<open>
  Two invariants of the reachable states: while the viewport is valid and the presentation
  is POINTER no icon change is left waiting for a push, and the pool of recycled sprites
  holds at most \<open>MAX_RECYCLED_SPRITES\<close> handles.
\<close>

definition flagsSettled :: "Env \<Rightarrow> PointerController \<Rightarrow> bool" where
  "flagsSettled E s =
     (isValid E (viewport s) \<and> presentation s = POINTER
        \<longrightarrow> \<not> pointerIconChanged s \<and> \<not> presentationChanged s)"

definition poolBounded :: "PointerController \<Rightarrow> bool" where
  "poolBounded s = (length (recycledSprites s) \<le> MAX_RECYCLED_SPRITES)"

section \<open>Lemmas\<close>

subsection \<open>Rounding to binary32\<close>

lemma roundHalfEven_error: "\<bar>of_int (roundHalfEven q) - q\<bar> \<le> 1 / 2"
proof -
  have "of_int \<lfloor>q\<rfloor> \<le> q" "q < of_int \<lfloor>q\<rfloor> + 1" by linarith+
  then show ?thesis by (auto simp add: roundHalfEven_def Let_def)
qed

lemma roundHalfEven_of_int: "roundHalfEven (of_int n) = n"
  by (simp add: roundHalfEven_def Let_def)

lemma roundHalfEven_mono:
  assumes "q1 \<le> q2"
  shows "roundHalfEven q1 \<le> roundHalfEven q2"
proof (rule ccontr)
  assume "\<not> roundHalfEven q1 \<le> roundHalfEven q2"
  then have "roundHalfEven q2 + 1 \<le> roundHalfEven q1" by simp
  then have lt: "(of_int (roundHalfEven q2) :: real) + 1 \<le> of_int (roundHalfEven q1)"
    by (metis of_int_1 of_int_add of_int_le_iff)
  have e1: "\<bar>of_int (roundHalfEven q1) - q1\<bar> \<le> 1 / 2" by (rule roundHalfEven_error)
  have e2: "\<bar>of_int (roundHalfEven q2) - q2\<bar> \<le> 1 / 2" by (rule roundHalfEven_error)
  from lt e1 e2 assms have "q1 = q2" by linarith
  with lt show False by simp
qed

lemma bitLength_upper: "n < 2 ^ bitLength n"
proof (induction n rule: bitLength.induct)
  case (1 n)
  show ?case
  proof (cases "n \<le> 0")
    case True
    then show ?thesis by (simp add: bitLength.simps [of n])
  next
    case False
    from 1 [OF False] have "n div 2 < 2 ^ bitLength (n div 2)" .
    then have "n < 2 * 2 ^ bitLength (n div 2)" by linarith
    with False show ?thesis by (simp add: bitLength.simps [of n])
  qed
qed

lemma bitLength_lower: "0 < bitLength n \<Longrightarrow> 2 ^ (bitLength n - 1) \<le> n"
proof (induction n rule: bitLength.induct)
  case (1 n)
  show ?case
  proof (cases "n \<le> 0")
    case True
    with 1(2) show ?thesis by (simp add: bitLength.simps [of n])
  next
    case False
    show ?thesis
    proof (cases "0 < bitLength (n div 2)")
      case True
      from 1(1) [OF False True] have "2 ^ (bitLength (n div 2) - 1) \<le> n div 2" .
      then have "2 * 2 ^ (bitLength (n div 2) - 1) \<le> n" by linarith
      moreover from True have "(2::int) * 2 ^ (bitLength (n div 2) - 1) = 2 ^ bitLength (n div 2)"
        by (metis Suc_pred' power_Suc)
      ultimately show ?thesis using False by (simp add: bitLength.simps [of n])
    next
      case z: False
      with False show ?thesis by (simp add: bitLength.simps [of n])
    qed
  qed
qed

lemma bitLength_le: "n < 2 ^ j \<Longrightarrow> bitLength n \<le> j"
proof (rule ccontr)
  assume a: "n < 2 ^ j" and "\<not> bitLength n \<le> j"
  then have b: "j \<le> bitLength n - 1" and p: "0 < bitLength n" by simp_all
  from bitLength_lower [OF p] have "2 ^ (bitLength n - 1) \<le> n" .
  moreover from b have "(2::int) ^ j \<le> 2 ^ (bitLength n - 1)" by (simp add: power_increasing)
  ultimately show False using a by linarith
qed

lemma ulp_upper: "(b::real) < 2 ^ (24 + (bitLength \<lfloor>b\<rfloor> - 24))"
proof -
  have "\<lfloor>b\<rfloor> < 2 ^ bitLength \<lfloor>b\<rfloor>" by (rule bitLength_upper)
  moreover have "(2::int) ^ bitLength \<lfloor>b\<rfloor> \<le> 2 ^ (24 + (bitLength \<lfloor>b\<rfloor> - 24))"
    by (rule power_increasing) simp_all
  ultimately have "\<lfloor>b\<rfloor> < 2 ^ (24 + (bitLength \<lfloor>b\<rfloor> - 24))" by linarith
  then have "\<lfloor>b\<rfloor> < \<lfloor>(2::real) ^ (24 + (bitLength \<lfloor>b\<rfloor> - 24))\<rfloor>"
    by (metis floor_of_int of_int_numeral of_int_power)
  then show ?thesis by (simp add: floor_less_cancel)
qed

lemma ulp_lower:
  assumes "0 < bitLength \<lfloor>b\<rfloor> - 24"
  shows "2 ^ (23 + (bitLength \<lfloor>b\<rfloor> - 24)) \<le> (b::real)"
proof -
  from assms have p: "0 < bitLength \<lfloor>b\<rfloor>" and e: "23 + (bitLength \<lfloor>b\<rfloor> - 24) = bitLength \<lfloor>b\<rfloor> - 1"
    by simp_all
  from bitLength_lower [OF p] have "2 ^ (bitLength \<lfloor>b\<rfloor> - 1) \<le> \<lfloor>b\<rfloor>" .
  then have "(2::real) ^ (bitLength \<lfloor>b\<rfloor> - 1) \<le> of_int \<lfloor>b\<rfloor>"
    by (metis of_int_le_iff of_int_numeral of_int_power)
  also have "\<dots> \<le> b" by simp
  finally show ?thesis by (simp add: e)
qed

lemma ulp_bound:
  assumes "(b::real) < 2 ^ (24 + j)"
  shows "bitLength \<lfloor>b\<rfloor> - 24 \<le> j"
proof -
  from assms have "\<lfloor>b\<rfloor> < 2 ^ (24 + j)" by (simp add: floor_less_iff)
  from bitLength_le [OF this] show ?thesis by simp
qed

lemma roundScaled_error:
  assumes "0 \<le> b"
  shows "\<bar>roundScaled b - b\<bar> \<le> max (1 / 2) (b / 2 ^ 24)"
proof -
  let ?k = "bitLength \<lfloor>b\<rfloor> - 24"
  let ?n = "roundHalfEven (b / 2 ^ ?k)"
  have m: "roundScaled b = of_int ?n * 2 ^ ?k" by (simp add: roundScaled_def Let_def)
  have "\<bar>of_int ?n - b / 2 ^ ?k\<bar> \<le> 1 / 2" by (rule roundHalfEven_error)
  then have "\<bar>of_int ?n - b / 2 ^ ?k\<bar> * 2 ^ ?k \<le> 1 / 2 * 2 ^ ?k"
    by (rule mult_right_mono) simp
  moreover have "\<bar>of_int ?n - b / 2 ^ ?k\<bar> * 2 ^ ?k = \<bar>of_int ?n * 2 ^ ?k - b\<bar>"
  proof -
    have "\<bar>of_int ?n - b / 2 ^ ?k\<bar> * 2 ^ ?k = \<bar>(of_int ?n - b / 2 ^ ?k) * 2 ^ ?k\<bar>"
      by (simp add: abs_mult)
    also have "(of_int ?n - b / 2 ^ ?k) * 2 ^ ?k = of_int ?n * 2 ^ ?k - b"
      by (simp add: algebra_simps)
    finally show ?thesis .
  qed
  ultimately have e: "\<bar>roundScaled b - b\<bar> \<le> 2 ^ ?k / 2" by (simp add: m)
  show ?thesis
  proof (cases "?k = 0")
    case True
    with e have "\<bar>roundScaled b - b\<bar> \<le> 1 / 2" by simp
    then show ?thesis by linarith
  next
    case False
    then have "0 < ?k" by simp
    from ulp_lower [OF this] have l: "2 ^ (23 + ?k) \<le> b" .
    have "(2::real) ^ (23 + ?k) = 2 ^ 23 * 2 ^ ?k" by (simp only: power_add)
    with l have "2 ^ ?k / 2 \<le> b / 2 ^ 24" by simp
    with e show ?thesis by linarith
  qed
qed

lemma roundScaled_nonneg:
  assumes "0 \<le> b"
  shows "0 \<le> roundScaled b"
proof -
  let ?k = "bitLength \<lfloor>b\<rfloor> - 24"
  from assms have "0 \<le> b / 2 ^ ?k" by simp
  from roundHalfEven_mono [OF this] have "0 \<le> roundHalfEven (b / 2 ^ ?k)"
    using roundHalfEven_of_int [of 0] by simp
  then show ?thesis by (simp add: roundScaled_def Let_def)
qed

lemma roundScaled_finite:
  assumes "0 \<le> b" and "b < 2 ^ 277 - 2 ^ 252"
  shows "roundScaled b \<le> 2 ^ 277 - 2 ^ 253"
proof -
  let ?k = "bitLength \<lfloor>b\<rfloor> - 24"
  let ?n = "roundHalfEven (b / 2 ^ ?k)"
  have m: "roundScaled b = of_int ?n * 2 ^ ?k" by (simp add: roundScaled_def Let_def)
  from assms(2) have "b < 2 ^ (24 + 253)" by simp
  from ulp_bound [OF this] have k: "?k \<le> 253" .
  have u: "b < 2 ^ (24 + ?k)" by (rule ulp_upper)
  have "\<bar>of_int ?n - b / 2 ^ ?k\<bar> \<le> 1 / 2" by (rule roundHalfEven_error)
  then have n: "of_int ?n \<le> b / 2 ^ ?k + 1 / 2" by linarith
  show ?thesis
  proof (cases "?k = 253")
    case True
    from assms(2) have "b / 2 ^ 253 < (2 ^ 277 - 2 ^ 252) / 2 ^ 253"
      by (simp add: divide_strict_right_mono)
    then have "b / 2 ^ 253 + 1 / 2 < 2 ^ 24" by simp
    with n True have "(of_int ?n :: real) < of_int (2 ^ 24)" by simp
    then have "?n < 2 ^ 24" by (simp only: of_int_less_iff)
    then have "?n \<le> 2 ^ 24 - 1" by simp
    then have "(of_int ?n :: real) \<le> of_int (2 ^ 24 - 1)" by (simp only: of_int_le_iff)
    then have "(of_int ?n :: real) * 2 ^ 253 \<le> of_int (2 ^ 24 - 1) * 2 ^ 253"
      by (rule mult_right_mono) simp
    with True show ?thesis by (simp add: m)
  next
    case False
    with k have k': "?k \<le> 252" by simp
    from u have "b / 2 ^ ?k < 2 ^ 24" by (simp add: power_add pos_divide_less_eq)
    with n have "(of_int ?n :: real) < of_int (2 ^ 24 + 1)" by simp
    then have "?n < 2 ^ 24 + 1" by (simp only: of_int_less_iff)
    then have "?n \<le> 2 ^ 24" by simp
    then have "(of_int ?n :: real) \<le> of_int (2 ^ 24)" by (simp only: of_int_le_iff)
    then have "(of_int ?n :: real) * 2 ^ ?k \<le> of_int (2 ^ 24) * 2 ^ ?k"
      by (rule mult_right_mono) simp
    also have "\<dots> = 2 ^ (24 + ?k)" by (simp add: power_add)
    also have "\<dots> \<le> (2::real) ^ 276" by (rule power_increasing) (use k' in simp_all)
    also have "\<dots> \<le> 2 ^ 277 - 2 ^ 253" by simp
    finally show ?thesis by (simp add: m)
  qed
qed


lemma roundHalfEven_le_pow:
  assumes "q \<le> 2 ^ j"
  shows "(of_int (roundHalfEven q) :: real) \<le> 2 ^ j"
proof -
  from assms have "q \<le> of_int (2 ^ j)" by simp
  from roundHalfEven_mono [OF this] have "roundHalfEven q \<le> 2 ^ j"
    by (simp only: roundHalfEven_of_int)
  then have "(of_int (roundHalfEven q) :: real) \<le> of_int (2 ^ j)" by (simp only: of_int_le_iff)
  then show ?thesis by simp
qed

lemma roundHalfEven_ge_pow:
  assumes "2 ^ j \<le> q"
  shows "2 ^ j \<le> (of_int (roundHalfEven q) :: real)"
proof -
  from assms have "of_int (2 ^ j) \<le> q" by simp
  from roundHalfEven_mono [OF this] have "2 ^ j \<le> roundHalfEven q"
    by (simp only: roundHalfEven_of_int)
  then have "(of_int (2 ^ j) :: real) \<le> of_int (roundHalfEven q)" by (simp only: of_int_le_iff)
  then show ?thesis by simp
qed

lemma roundScaled_mono:
  assumes "0 \<le> b1" and "b1 \<le> b2"
  shows "roundScaled b1 \<le> roundScaled b2"
proof -
  let ?k1 = "bitLength \<lfloor>b1\<rfloor> - 24"
  let ?k2 = "bitLength \<lfloor>b2\<rfloor> - 24"
  have m1: "roundScaled b1 = of_int (roundHalfEven (b1 / 2 ^ ?k1)) * 2 ^ ?k1"
    and m2: "roundScaled b2 = of_int (roundHalfEven (b2 / 2 ^ ?k2)) * 2 ^ ?k2"
    by (simp_all add: roundScaled_def Let_def)
  have "b2 < 2 ^ (24 + ?k2)" by (rule ulp_upper)
  with assms(2) have "b1 < 2 ^ (24 + ?k2)" by simp
  from ulp_bound [OF this] have le: "?k1 \<le> ?k2" .
  show ?thesis
  proof (cases "?k1 = ?k2")
    case True
    from assms(2) have "b1 / 2 ^ ?k2 \<le> b2 / 2 ^ ?k2" by (simp add: divide_right_mono)
    from roundHalfEven_mono [OF this]
    have "(of_int (roundHalfEven (b1 / 2 ^ ?k2)) :: real) \<le> of_int (roundHalfEven (b2 / 2 ^ ?k2))"
      by (simp only: of_int_le_iff)
    then have "(of_int (roundHalfEven (b1 / 2 ^ ?k2)) :: real) * 2 ^ ?k2
                 \<le> of_int (roundHalfEven (b2 / 2 ^ ?k2)) * 2 ^ ?k2"
      by (rule mult_right_mono) simp
    with True show ?thesis by (simp only: m1 m2)
  next
    case False
    with le have lt: "?k1 < ?k2" by simp
    then have p: "0 < ?k2" by simp
    have "b1 < 2 ^ (24 + ?k1)" by (rule ulp_upper)
    then have "b1 / 2 ^ ?k1 \<le> 2 ^ 24" by (simp add: power_add pos_divide_le_eq)
    from roundHalfEven_le_pow [OF this]
    have "of_int (roundHalfEven (b1 / 2 ^ ?k1)) * 2 ^ ?k1 \<le> (2::real) ^ 24 * 2 ^ ?k1"
      by (rule mult_right_mono) simp
    also have "\<dots> = 2 ^ (24 + ?k1)" by (simp only: power_add)
    also have "\<dots> \<le> (2::real) ^ (23 + ?k2)" by (rule power_increasing) (use lt in simp_all)
    also have "\<dots> = 2 ^ 23 * 2 ^ ?k2" by (simp only: power_add)
    also have "\<dots> \<le> of_int (roundHalfEven (b2 / 2 ^ ?k2)) * 2 ^ ?k2"
    proof (rule mult_right_mono)
      from ulp_lower [OF p] have "2 ^ (23 + ?k2) \<le> b2" .
      then have "2 ^ 23 \<le> b2 / 2 ^ ?k2" by (simp add: power_add pos_le_divide_eq)
      from roundHalfEven_ge_pow [OF this]
      show "2 ^ 23 \<le> (of_int (roundHalfEven (b2 / 2 ^ ?k2)) :: real)" .
    qed simp
    finally show ?thesis by (simp only: m1 m2)
  qed
qed

lemma abs_scale:
  assumes "0 < (c::real)"
  shows "\<bar>a / c - x\<bar> = \<bar>a - x * c\<bar> / c"
proof -
  from assms have "a / c - x = (a - x * c) / c" by (simp add: field_simps)
  then have "\<bar>a / c - x\<bar> = \<bar>a - x * c\<bar> / \<bar>c\<bar>" by (simp only: abs_divide)
  with assms show ?thesis by simp
qed

lemma round32_finite:
  assumes "\<bar>r\<bar> < 2 ^ 128 - 2 ^ 103"
  obtains v where "round32 r = FVal v"
    and "\<bar>v - r\<bar> \<le> max (1 / 2 ^ 150) (\<bar>r\<bar> / 2 ^ 24)"
    and "\<bar>v\<bar> \<le> 2 ^ 128 - 2 ^ 104"
    and "0 \<le> r \<Longrightarrow> 0 \<le> v" and "r \<le> 0 \<Longrightarrow> v \<le> 0"
proof -
  let ?b = "\<bar>r\<bar> * 2 ^ 149"
  let ?m = "roundScaled ?b"
  have b0: "0 \<le> ?b" by simp
  from assms have "?b < (2 ^ 128 - 2 ^ 103) * 2 ^ 149" by (simp only: mult_strict_right_mono zero_less_power zero_less_numeral)
  then have b1: "?b < 2 ^ 277 - 2 ^ 252" by simp
  from roundScaled_finite [OF b0 b1] have f: "?m \<le> 2 ^ 277 - 2 ^ 253" .
  then have nf: "\<not> 2 ^ 277 \<le> ?m" by simp
  have n: "0 \<le> ?m" by (rule roundScaled_nonneg [OF b0])
  from roundScaled_error [OF b0] have e: "\<bar>?m - ?b\<bar> \<le> max (1 / 2) (?b / 2 ^ 24)" .
  have e': "\<bar>?m / 2 ^ 149 - \<bar>r\<bar>\<bar> \<le> max (1 / 2 ^ 150) (\<bar>r\<bar> / 2 ^ 24)"
  proof -
    have "\<bar>?m / 2 ^ 149 - \<bar>r\<bar>\<bar> = \<bar>?m - ?b\<bar> / 2 ^ 149"
      by (rule abs_scale) simp
    also from e have "\<dots> \<le> max (1 / 2) (?b / 2 ^ 24) / 2 ^ 149"
      by (rule divide_right_mono) simp
    also have "\<dots> = max (1 / 2 ^ 150) (\<bar>r\<bar> / 2 ^ 24)" by (simp add: max_def)
    finally show ?thesis .
  qed
  from f have f': "?m / 2 ^ 149 \<le> 2 ^ 128 - 2 ^ 104"
  proof -
    from f have "?m / 2 ^ 149 \<le> (2 ^ 277 - 2 ^ 253) / 2 ^ 149" by (rule divide_right_mono) simp
    then show ?thesis by simp
  qed
  from n have n': "0 \<le> ?m / 2 ^ 149" by simp
  show ?thesis
  proof (cases "r < 0")
    case True
    show ?thesis
    proof (rule that [of "- (?m / 2 ^ 149)"])
      from nf True show "round32 r = FVal (- (?m / 2 ^ 149))" by (simp add: round32_def Let_def)
      from e' True show "\<bar>- (?m / 2 ^ 149) - r\<bar> \<le> max (1 / 2 ^ 150) (\<bar>r\<bar> / 2 ^ 24)" by linarith
      from f' n' show "\<bar>- (?m / 2 ^ 149)\<bar> \<le> 2 ^ 128 - 2 ^ 104" by linarith
      from True show "0 \<le> r \<Longrightarrow> 0 \<le> - (?m / 2 ^ 149)" by simp
      from n' show "r \<le> 0 \<Longrightarrow> - (?m / 2 ^ 149) \<le> 0" by simp
    qed
  next
    case False
    show ?thesis
    proof (rule that [of "?m / 2 ^ 149"])
      from nf False show "round32 r = FVal (?m / 2 ^ 149)" by (simp add: round32_def Let_def)
      from e' False show "\<bar>?m / 2 ^ 149 - r\<bar> \<le> max (1 / 2 ^ 150) (\<bar>r\<bar> / 2 ^ 24)" by linarith
      from f' n' show "\<bar>?m / 2 ^ 149\<bar> \<le> 2 ^ 128 - 2 ^ 104" by linarith
      from n' show "0 \<le> r \<Longrightarrow> 0 \<le> ?m / 2 ^ 149" by simp
      show "r \<le> 0 \<Longrightarrow> ?m / 2 ^ 149 \<le> 0"
      proof -
        assume "r \<le> 0"
        with False have "r = 0" by simp
        then have "?m = 0" by (simp add: roundScaled_def roundHalfEven_def bitLength.simps Let_def)
        then show ?thesis by simp
      qed
    qed
  qed
qed

lemma round32_mono:
  assumes "r1 \<le> r2" and "round32 r1 = FVal v1" and "round32 r2 = FVal v2"
  shows "v1 \<le> v2"
proof -
  let ?m1 = "roundScaled (\<bar>r1\<bar> * 2 ^ 149)"
  let ?m2 = "roundScaled (\<bar>r2\<bar> * 2 ^ 149)"
  from assms(2) have v1: "v1 = (if r1 < 0 then - (?m1 / 2 ^ 149) else ?m1 / 2 ^ 149)"
    by (simp add: round32_def Let_def split: if_splits)
  from assms(3) have v2: "v2 = (if r2 < 0 then - (?m2 / 2 ^ 149) else ?m2 / 2 ^ 149)"
    by (simp add: round32_def Let_def split: if_splits)
  have n1: "0 \<le> ?m1" by (rule roundScaled_nonneg) simp
  have n2: "0 \<le> ?m2" by (rule roundScaled_nonneg) simp
  show ?thesis
  proof (cases "r2 < 0")
    case True
    with assms(1) have r1: "r1 < 0" by simp
    from True assms(1) have "\<bar>r2\<bar> * 2 ^ 149 \<le> \<bar>r1\<bar> * 2 ^ 149" by simp
    then have "?m2 \<le> ?m1" by (rule roundScaled_mono [rotated]) simp
    then have "?m2 / 2 ^ 149 \<le> ?m1 / 2 ^ 149" by (rule divide_right_mono) simp
    with True r1 show ?thesis by (simp only: v1 v2 if_True neg_le_iff_le)
  next
    case False
    show ?thesis
    proof (cases "r1 < 0")
      case True
      from n1 n2 have "- (?m1 / 2 ^ 149) \<le> ?m2 / 2 ^ 149"
        by (meson divide_nonneg_nonneg neg_le_0_iff_le order_trans zero_le_numeral zero_le_power)
      with True False show ?thesis by (simp only: v1 v2 if_True if_False)
    next
      case r1: False
      from r1 False assms(1) have "\<bar>r1\<bar> * 2 ^ 149 \<le> \<bar>r2\<bar> * 2 ^ 149" by simp
      then have "?m1 \<le> ?m2" by (rule roundScaled_mono [rotated]) simp
      then have "?m1 / 2 ^ 149 \<le> ?m2 / 2 ^ 149" by (rule divide_right_mono) simp
      with r1 False show ?thesis by (simp only: v1 v2 if_False)
    qed
  qed
qed

lemmas float_eval = round32_def roundScaled_def roundHalfEven_def bitLength.simps
  float_of_int32_def float_of_nsecs_def fsub_def fge_def fgt_def Let_def


subsection \<open>What the rendering push leaves alone\<close>

lemma updatePointerLocked_invalid:
  "\<not> isValid E (viewport s) \<Longrightarrow> updatePointerLocked E s = s"
  by (simp add: updatePointerLocked_def)

lemma startAnimationLocked_frame:
  "viewport (startAnimationLocked E s) = viewport s"
  "pointerX (startAnimationLocked E s) = pointerX s"
  "pointerY (startAnimationLocked E s) = pointerY s"
  "pointerAlpha (startAnimationLocked E s) = pointerAlpha s"
  "pointerFadeDirection (startAnimationLocked E s) = pointerFadeDirection s"
  by (simp_all add: startAnimationLocked_def emit_def)

lemma updatePointerIconLocked_frame:
  "viewport (updatePointerIconLocked E s) = viewport s"
  "pointerX (updatePointerIconLocked E s) = pointerX s"
  "pointerY (updatePointerIconLocked E s) = pointerY s"
  "pointerAlpha (updatePointerIconLocked E s) = pointerAlpha s"
  "pointerFadeDirection (updatePointerIconLocked E s) = pointerFadeDirection s"
  by (simp_all add: updatePointerIconLocked_def startAnimationLocked_frame emit_def Let_def
      split: option.splits)

lemma updatePointerLocked_frame:
  "viewport (updatePointerLocked E s) = viewport s"
  "pointerX (updatePointerLocked E s) = pointerX s"
  "pointerY (updatePointerLocked E s) = pointerY s"
  "pointerAlpha (updatePointerLocked E s) = pointerAlpha s"
  "pointerFadeDirection (updatePointerLocked E s) = pointerFadeDirection s"
  by (simp_all add: updatePointerLocked_def updatePointerIconLocked_frame emit_def Let_def)

subsection \<open>What the spot loops leave alone\<close>

lemma exceptAnimation_fields:
  assumes "exceptAnimation s' = exceptAnimation s"
  shows "viewport s' = viewport s" and "presentation s' = presentation s"
    and "pointerIconChanged s' = pointerIconChanged s"
    and "presentationChanged s' = presentationChanged s"
    and "pointerX s' = pointerX s" and "pointerY s' = pointerY s"
    and "pointerAlpha s' = pointerAlpha s"
    and "pointerFadeDirection s' = pointerFadeDirection s"
    and "recycledSprites s' = recycledSprites s"
    and "spotsByDisplay s' = spotsByDisplay s"
    and "mResources s' = mResources s" and "pointerIcon s' = pointerIcon s"
    and "additionalMouseResources s' = additionalMouseResources s"
    and "animationResources s' = animationResources s"
    and "requestedPointerType s' = requestedPointerType s"
    and "pointerSprite s' = pointerSprite s"
proof -
  have "f (exceptAnimation s') = f (exceptAnimation s)" for f :: "PointerController \<Rightarrow> 'a"
    using assms by simp
  note h = this
  show "viewport s' = viewport s" using h [of viewport] by (simp add: exceptAnimation_def)
  show "presentation s' = presentation s"
    using h [of presentation] by (simp add: exceptAnimation_def)
  show "pointerIconChanged s' = pointerIconChanged s"
    using h [of pointerIconChanged] by (simp add: exceptAnimation_def)
  show "presentationChanged s' = presentationChanged s"
    using h [of presentationChanged] by (simp add: exceptAnimation_def)
  show "pointerX s' = pointerX s" using h [of pointerX] by (simp add: exceptAnimation_def)
  show "pointerY s' = pointerY s" using h [of pointerY] by (simp add: exceptAnimation_def)
  show "pointerAlpha s' = pointerAlpha s"
    using h [of pointerAlpha] by (simp add: exceptAnimation_def)
  show "pointerFadeDirection s' = pointerFadeDirection s"
    using h [of pointerFadeDirection] by (simp add: exceptAnimation_def)
  show "recycledSprites s' = recycledSprites s"
    using h [of recycledSprites] by (simp add: exceptAnimation_def)
  show "spotsByDisplay s' = spotsByDisplay s"
    using h [of spotsByDisplay] by (simp add: exceptAnimation_def)
  show "mResources s' = mResources s" using h [of mResources] by (simp add: exceptAnimation_def)
  show "pointerIcon s' = pointerIcon s" using h [of pointerIcon] by (simp add: exceptAnimation_def)
  show "additionalMouseResources s' = additionalMouseResources s"
    using h [of additionalMouseResources] by (simp add: exceptAnimation_def)
  show "animationResources s' = animationResources s"
    using h [of animationResources] by (simp add: exceptAnimation_def)
  show "requestedPointerType s' = requestedPointerType s"
    using h [of requestedPointerType] by (simp add: exceptAnimation_def)
  show "pointerSprite s' = pointerSprite s"
    using h [of pointerSprite] by (simp add: exceptAnimation_def)
qed

lemma exceptPool_fields:
  assumes "exceptPool s' = exceptPool s"
  shows "viewport s' = viewport s" and "presentation s' = presentation s"
    and "pointerIconChanged s' = pointerIconChanged s"
    and "presentationChanged s' = presentationChanged s"
    and "pointerX s' = pointerX s" and "pointerY s' = pointerY s"
    and "pointerAlpha s' = pointerAlpha s"
    and "pointerFadeDirection s' = pointerFadeDirection s"
    and "animationPending s' = animationPending s"
    and "animationTime s' = animationTime s"
    and "trace s' = trace s" and "clockReads s' = clockReads s"
    and "spotsByDisplay s' = spotsByDisplay s"
    and "mResources s' = mResources s"
    and "animationResources s' = animationResources s"
    and "requestedPointerType s' = requestedPointerType s"
proof -
  have "f (exceptPool s') = f (exceptPool s)" for f :: "PointerController \<Rightarrow> 'a"
    using assms by simp
  note h = this
  show "viewport s' = viewport s" using h [of viewport] by (simp add: exceptPool_def)
  show "presentation s' = presentation s" using h [of presentation] by (simp add: exceptPool_def)
  show "pointerIconChanged s' = pointerIconChanged s"
    using h [of pointerIconChanged] by (simp add: exceptPool_def)
  show "presentationChanged s' = presentationChanged s"
    using h [of presentationChanged] by (simp add: exceptPool_def)
  show "pointerX s' = pointerX s" using h [of pointerX] by (simp add: exceptPool_def)
  show "pointerY s' = pointerY s" using h [of pointerY] by (simp add: exceptPool_def)
  show "pointerAlpha s' = pointerAlpha s" using h [of pointerAlpha] by (simp add: exceptPool_def)
  show "pointerFadeDirection s' = pointerFadeDirection s"
    using h [of pointerFadeDirection] by (simp add: exceptPool_def)
  show "animationPending s' = animationPending s"
    using h [of animationPending] by (simp add: exceptPool_def)
  show "animationTime s' = animationTime s"
    using h [of animationTime] by (simp add: exceptPool_def)
  show "trace s' = trace s" using h [of trace] by (simp add: exceptPool_def)
  show "clockReads s' = clockReads s" using h [of clockReads] by (simp add: exceptPool_def)
  show "spotsByDisplay s' = spotsByDisplay s"
    using h [of spotsByDisplay] by (simp add: exceptPool_def)
  show "mResources s' = mResources s" using h [of mResources] by (simp add: exceptPool_def)
  show "animationResources s' = animationResources s"
    using h [of animationResources] by (simp add: exceptPool_def)
  show "requestedPointerType s' = requestedPointerType s"
    using h [of requestedPointerType] by (simp add: exceptPool_def)
qed

lemma startAnimationLocked_exceptAnimation:
  "exceptAnimation (startAnimationLocked E s) = exceptAnimation s"
  by (simp add: startAnimationLocked_def exceptAnimation_def emit_def)

lemma fadeOutAndReleaseSpotLocked_exceptAnimation:
  "fadeOutAndReleaseSpotLocked E spot s = (spot', s') \<Longrightarrow> exceptAnimation s' = exceptAnimation s"
  by (auto simp: fadeOutAndReleaseSpotLocked_def startAnimationLocked_exceptAnimation
      split: if_splits)

lemma fadeOutSpots_exceptAnimation:
  "fadeOutSpots E spots s = (spots', s') \<Longrightarrow> exceptAnimation s' = exceptAnimation s"
proof (induction spots arbitrary: s spots' s')
  case Nil
  then show ?case by simp
next
  case (Cons spot spots)
  obtain spot1 s1 where h1: "fadeOutAndReleaseSpotLocked E spot s = (spot1, s1)"
    by (cases "fadeOutAndReleaseSpotLocked E spot s")
  obtain spots2 s2 where h2: "fadeOutSpots E spots s1 = (spots2, s2)"
    by (cases "fadeOutSpots E spots s1")
  from Cons.prems h1 h2 have "s' = s2" by simp
  with Cons.IH [OF h2] fadeOutAndReleaseSpotLocked_exceptAnimation [OF h1]
  show ?case by simp
qed

lemma fadeOutDisplays_exceptAnimation:
  "fadeOutDisplays E m s = (m', s') \<Longrightarrow> exceptAnimation s' = exceptAnimation s"
proof (induction m arbitrary: s m' s')
  case Nil
  then show ?case by simp
next
  case (Cons a m)
  obtain d spots where a: "a = (d, spots)" by (cases a)
  obtain spots1 s1 where h1: "fadeOutSpots E spots s = (spots1, s1)"
    by (cases "fadeOutSpots E spots s")
  obtain m2 s2 where h2: "fadeOutDisplays E m s1 = (m2, s2)"
    by (cases "fadeOutDisplays E m s1")
  from Cons.prems a h1 h2 have "s' = s2" by simp
  with Cons.IH [OF h2] fadeOutSpots_exceptAnimation [OF h1]
  show ?case by simp
qed

lemma fadeOutLiftedSpots_exceptAnimation:
  "fadeOutLiftedSpots E bits spots s = (spots', s') \<Longrightarrow> exceptAnimation s' = exceptAnimation s"
proof (induction spots arbitrary: s spots' s')
  case Nil
  then show ?case by simp
next
  case (Cons spot spots)
  obtain spot1 s1 where h1:
    "(if spotId spot \<noteq> INVALID_ID \<and> \<not> hasBit bits (unat (spotId spot))
      then fadeOutAndReleaseSpotLocked E spot s else (spot, s)) = (spot1, s1)"
    by (cases "if spotId spot \<noteq> INVALID_ID \<and> \<not> hasBit bits (unat (spotId spot))
               then fadeOutAndReleaseSpotLocked E spot s else (spot, s)")
  then have e1: "exceptAnimation s1 = exceptAnimation s"
    by (auto split: if_splits dest: fadeOutAndReleaseSpotLocked_exceptAnimation)
  obtain spots2 s2 where h2: "fadeOutLiftedSpots E bits spots s1 = (spots2, s2)"
    by (cases "fadeOutLiftedSpots E bits spots s1")
  from Cons.prems h1 h2 have "s' = s2" by simp
  with Cons.IH [OF h2] e1 show ?case by simp
qed

lemma fadeOutAndReleaseAllSpotsLocked_frame:
  "viewport (fadeOutAndReleaseAllSpotsLocked E s) = viewport s"
  "presentation (fadeOutAndReleaseAllSpotsLocked E s) = presentation s"
  "pointerIconChanged (fadeOutAndReleaseAllSpotsLocked E s) = pointerIconChanged s"
  "presentationChanged (fadeOutAndReleaseAllSpotsLocked E s) = presentationChanged s"
  "pointerX (fadeOutAndReleaseAllSpotsLocked E s) = pointerX s"
  "pointerY (fadeOutAndReleaseAllSpotsLocked E s) = pointerY s"
  "pointerAlpha (fadeOutAndReleaseAllSpotsLocked E s) = pointerAlpha s"
  "pointerFadeDirection (fadeOutAndReleaseAllSpotsLocked E s) = pointerFadeDirection s"
  "recycledSprites (fadeOutAndReleaseAllSpotsLocked E s) = recycledSprites s"
  "mResources (fadeOutAndReleaseAllSpotsLocked E s) = mResources s"
  "pointerIcon (fadeOutAndReleaseAllSpotsLocked E s) = pointerIcon s"
  "additionalMouseResources (fadeOutAndReleaseAllSpotsLocked E s) = additionalMouseResources s"
  "animationResources (fadeOutAndReleaseAllSpotsLocked E s) = animationResources s"
  "requestedPointerType (fadeOutAndReleaseAllSpotsLocked E s) = requestedPointerType s"
  "pointerSprite (fadeOutAndReleaseAllSpotsLocked E s) = pointerSprite s"
proof -
  obtain m' s' where h: "fadeOutDisplays E (spotsByDisplay s) s = (m', s')"
    by (cases "fadeOutDisplays E (spotsByDisplay s) s")
  note f = exceptAnimation_fields [OF fadeOutDisplays_exceptAnimation [OF h]]
  have r: "fadeOutAndReleaseAllSpotsLocked E s = s'\<lparr>spotsByDisplay := m'\<rparr>"
    by (simp add: fadeOutAndReleaseAllSpotsLocked_def h)
  show "viewport (fadeOutAndReleaseAllSpotsLocked E s) = viewport s"
    and "presentation (fadeOutAndReleaseAllSpotsLocked E s) = presentation s"
    and "pointerIconChanged (fadeOutAndReleaseAllSpotsLocked E s) = pointerIconChanged s"
    and "presentationChanged (fadeOutAndReleaseAllSpotsLocked E s) = presentationChanged s"
    and "pointerX (fadeOutAndReleaseAllSpotsLocked E s) = pointerX s"
    and "pointerY (fadeOutAndReleaseAllSpotsLocked E s) = pointerY s"
    and "pointerAlpha (fadeOutAndReleaseAllSpotsLocked E s) = pointerAlpha s"
    and "pointerFadeDirection (fadeOutAndReleaseAllSpotsLocked E s) = pointerFadeDirection s"
    and "recycledSprites (fadeOutAndReleaseAllSpotsLocked E s) = recycledSprites s"
    and "mResources (fadeOutAndReleaseAllSpotsLocked E s) = mResources s"
    and "pointerIcon (fadeOutAndReleaseAllSpotsLocked E s) = pointerIcon s"
    and "additionalMouseResources (fadeOutAndReleaseAllSpotsLocked E s)
           = additionalMouseResources s"
    and "animationResources (fadeOutAndReleaseAllSpotsLocked E s) = animationResources s"
    and "requestedPointerType (fadeOutAndReleaseAllSpotsLocked E s) = requestedPointerType s"
    and "pointerSprite (fadeOutAndReleaseAllSpotsLocked E s) = pointerSprite s"
    by (simp_all add: r f)
qed

lemma loadResourcesLocked_frame:
  "viewport (loadResourcesLocked E s) = viewport s"
  "presentation (loadResourcesLocked E s) = presentation s"
  "presentationChanged (loadResourcesLocked E s) = presentationChanged s"
  "pointerX (loadResourcesLocked E s) = pointerX s"
  "pointerY (loadResourcesLocked E s) = pointerY s"
  "pointerAlpha (loadResourcesLocked E s) = pointerAlpha s"
  "pointerFadeDirection (loadResourcesLocked E s) = pointerFadeDirection s"
  "recycledSprites (loadResourcesLocked E s) = recycledSprites s"
  "spotsByDisplay (loadResourcesLocked E s) = spotsByDisplay s"
  by (simp_all add: loadResourcesLocked_def Let_def split: prod.splits)

subsection \<open>The two invariants, operation by operation\<close>

lemma updatePointerIconLocked_frame2:
  "presentation (updatePointerIconLocked E s) = presentation s"
  "recycledSprites (updatePointerIconLocked E s) = recycledSprites s"
  "spotsByDisplay (updatePointerIconLocked E s) = spotsByDisplay s"
  "mResources (updatePointerIconLocked E s) = mResources s"
  "pointerIcon (updatePointerIconLocked E s) = pointerIcon s"
  "additionalMouseResources (updatePointerIconLocked E s) = additionalMouseResources s"
  "animationResources (updatePointerIconLocked E s) = animationResources s"
  "requestedPointerType (updatePointerIconLocked E s) = requestedPointerType s"
  "\<not> pointerIconChanged (updatePointerIconLocked E s)"
  "\<not> presentationChanged (updatePointerIconLocked E s)"
  by (simp_all add: updatePointerIconLocked_def startAnimationLocked_def emit_def Let_def
      split: option.splits)

lemma updatePointerLocked_frame2:
  "presentation (updatePointerLocked E s) = presentation s"
  "recycledSprites (updatePointerLocked E s) = recycledSprites s"
  "spotsByDisplay (updatePointerLocked E s) = spotsByDisplay s"
  "mResources (updatePointerLocked E s) = mResources s"
  "pointerIcon (updatePointerLocked E s) = pointerIcon s"
  "additionalMouseResources (updatePointerLocked E s) = additionalMouseResources s"
  "animationResources (updatePointerLocked E s) = animationResources s"
  "requestedPointerType (updatePointerLocked E s) = requestedPointerType s"
  by (simp_all add: updatePointerLocked_def updatePointerIconLocked_frame2 emit_def Let_def)

lemma updatePointerLocked_flags:
  "isValid E (viewport s) \<Longrightarrow> \<not> pointerIconChanged (updatePointerLocked E s)"
  "isValid E (viewport s) \<Longrightarrow> \<not> presentationChanged (updatePointerLocked E s)"
  by (auto simp: updatePointerLocked_def updatePointerIconLocked_frame2 emit_def Let_def)

lemma updatePointerLocked_settled: "flagsSettled E (updatePointerLocked E s)"
  by (cases "isValid E (viewport s)")
     (simp_all add: flagsSettled_def updatePointerLocked_flags updatePointerLocked_frame updatePointerLocked_invalid)

lemma flagsSettled_cong:
  "viewport s' = viewport s \<Longrightarrow> presentation s' = presentation s \<Longrightarrow>
   pointerIconChanged s' = pointerIconChanged s \<Longrightarrow>
   presentationChanged s' = presentationChanged s \<Longrightarrow>
   flagsSettled E s' = flagsSettled E s"
  by (simp add: flagsSettled_def)

lemma releaseSpotLocked_exceptPool: "exceptPool (releaseSpotLocked spot s) = exceptPool s"
  by (simp add: releaseSpotLocked_def exceptPool_def Let_def)

lemma releaseSpotLocked_poolBounded: "poolBounded s \<Longrightarrow> poolBounded (releaseSpotLocked spot s)"
  by (simp add: releaseSpotLocked_def poolBounded_def Let_def)

lemma evictSpots_preserves:
  assumes step: "\<And>spot s. P s \<Longrightarrow> P (releaseSpotLocked spot s)"
  shows "P s \<Longrightarrow> evictSpots spots s = (spots', s') \<Longrightarrow> P s'"
proof (induction spots s arbitrary: spots' s' rule: evictSpots.induct)
  case (1 spots s)
  show ?case
  proof (cases "length spots \<ge> MAX_SPOTS")
    case False
    with "1.prems" show ?thesis by (simp add: evictSpots.simps [of spots])
  next
    case True
    obtain r rest where h: "removeFirstFadingSpotLocked spots = (r, rest)"
      by (cases "removeFirstFadingSpotLocked spots")
    show ?thesis
    proof (cases r)
      case None
      with True h "1.prems" have e: "evictSpots (tl spots) (releaseSpotLocked (hd spots) s) = (spots', s')"
        by (simp add: evictSpots.simps [of spots])
      from "1.IH"(1) [OF True h [symmetric, unfolded None] refl _ e] step [OF "1.prems"(1)]
      show ?thesis by simp
    next
      case (Some spot)
      with True h "1.prems" have e: "evictSpots rest (releaseSpotLocked spot s) = (spots', s')"
        by (simp add: evictSpots.simps [of spots])
      from "1.IH"(2) [OF True h [symmetric, unfolded Some] refl _ e] step [OF "1.prems"(1)]
      show ?thesis by simp
    qed
  qed
qed

lemma fadeSpotsLocked_preserves:
  assumes step: "\<And>spot s. P s \<Longrightarrow> P (releaseSpotLocked spot s)"
  shows "P s \<Longrightarrow> fadeSpotsLocked d spots s = (spots', s', k) \<Longrightarrow> P s'"
proof (induction spots arbitrary: s spots' s' k)
  case Nil
  then show ?case by simp
next
  case (Cons spot spots)
  let ?a = "fsub (spotAlpha spot) (fdiv (float_of_nsecs d) (float_of_nsecs SPOT_FADE_DURATION))"
  show ?case
  proof (cases "spotId spot = INVALID_ID \<and> fle ?a (FVal 0)")
    case True
    with Cons.prems have "fadeSpotsLocked d spots (releaseSpotLocked (spot\<lparr>spotAlpha := ?a\<rparr>) s) = (spots', s', k)"
      by (simp add: Let_def)
    from Cons.IH [OF step [OF Cons.prems(1)] this] show ?thesis .
  next
    case False
    obtain r1 r2 r3 where h: "fadeSpotsLocked d spots s = (r1, r2, r3)"
      by (cases "fadeSpotsLocked d spots s")
    with False Cons.prems have "s' = r2" by (auto simp: Let_def split: if_splits)
    with Cons.IH [OF Cons.prems(1) h] show ?thesis by simp
  qed
qed

lemma fadeDisplaysLocked_preserves:
  assumes step: "\<And>spot s. P s \<Longrightarrow> P (releaseSpotLocked spot s)"
  shows "P s \<Longrightarrow> fadeDisplaysLocked d m s = (m', s', k) \<Longrightarrow> P s'"
proof (induction m arbitrary: s m' s' k)
  case Nil
  then show ?case by simp
next
  case (Cons a m)
  obtain disp spots where a: "a = (disp, spots)" by (cases a)
  obtain r1 r2 r3 where h1: "fadeSpotsLocked d spots s = (r1, r2, r3)"
    by (cases "fadeSpotsLocked d spots s")
  obtain q1 q2 q3 where h2: "fadeDisplaysLocked d m r2 = (q1, q2, q3)"
    by (cases "fadeDisplaysLocked d m r2")
  from Cons.prems a h1 h2 have "s' = q2" by simp
  with Cons.IH [OF fadeSpotsLocked_preserves [of P, OF step Cons.prems(1) h1] h2]
  show ?case by simp
qed

lemma createAndAddSpotLocked_exceptPool:
  assumes "createAndAddSpotLocked E i spots s = (spots', s')"
  shows "exceptPool s' = exceptPool s"
proof -
  obtain spots1 s1 where h: "evictSpots spots s = (spots1, s1)" by (cases "evictSpots spots s")
  have "exceptPool s1 = exceptPool s"
    by (rule evictSpots_preserves [where P = "\<lambda>x. exceptPool x = exceptPool s", OF _ _ h])
       (simp_all add: releaseSpotLocked_exceptPool)
  with assms h show ?thesis
    by (auto simp: createAndAddSpotLocked_def exceptPool_def split: if_splits)
qed

lemma createAndAddSpotLocked_poolBounded:
  assumes "createAndAddSpotLocked E i spots s = (spots', s')" and "poolBounded s"
  shows "poolBounded s'"
proof -
  obtain spots1 s1 where h: "evictSpots spots s = (spots1, s1)" by (cases "evictSpots spots s")
  have "poolBounded s1"
    by (rule evictSpots_preserves [where P = poolBounded, OF _ assms(2) h])
       (rule releaseSpotLocked_poolBounded)
  with assms h show ?thesis
    by (auto simp: createAndAddSpotLocked_def poolBounded_def split: if_splits)
qed

lemma addOrMoveSpot_preserves:
  assumes "addOrMoveSpot E coords idx did (spots, s) n = (spots', s')"
  shows "exceptPool s' = exceptPool s" and "poolBounded s \<Longrightarrow> poolBounded s'"
proof -
  obtain c1 c2 where c: "createAndAddSpotLocked E (of_nat n) spots s = (c1, c2)"
    by (cases "createAndAddSpotLocked E (of_nat n) spots s")
  from assms c have "s' = s \<or> s' = c2"
    by (auto simp: addOrMoveSpot_def Let_def split: option.splits)
  then show "exceptPool s' = exceptPool s" and "poolBounded s \<Longrightarrow> poolBounded s'"
    using createAndAddSpotLocked_exceptPool [OF c] createAndAddSpotLocked_poolBounded [OF c]
    by auto
qed

lemma foldl_addOrMoveSpot_preserves:
  "foldl (addOrMoveSpot E coords idx did) (spots, s) ns = (spots', s') \<Longrightarrow>
   exceptPool s' = exceptPool s \<and> (poolBounded s \<longrightarrow> poolBounded s')"
proof (induction ns arbitrary: spots s)
  case Nil
  then show ?case by simp
next
  case (Cons n ns)
  obtain a1 a2 where a: "addOrMoveSpot E coords idx did (spots, s) n = (a1, a2)"
    by (cases "addOrMoveSpot E coords idx did (spots, s) n")
  from Cons.prems a have "foldl (addOrMoveSpot E coords idx did) (a1, a2) ns = (spots', s')"
    by simp
  from Cons.IH [OF this] addOrMoveSpot_preserves [OF a] show ?case by simp
qed

lemma emit_frame:
  "exceptAnimation (emit e s) = exceptAnimation s"
  "poolBounded (emit e s) = poolBounded s"
  by (simp_all add: emit_def exceptAnimation_def poolBounded_def)

lemma setSpots_preserves:
  "viewport (setSpots E coords idx bits did s) = viewport s"
  "presentation (setSpots E coords idx bits did s) = presentation s"
  "pointerIconChanged (setSpots E coords idx bits did s) = pointerIconChanged s"
  "presentationChanged (setSpots E coords idx bits did s) = presentationChanged s"
  "poolBounded s \<Longrightarrow> poolBounded (setSpots E coords idx bits did s)"
proof -
  let ?new = "case map_of (spotsByDisplay s) did of Some l \<Rightarrow> l | None \<Rightarrow> []"
  obtain n1 s2 where f: "foldl (addOrMoveSpot E coords idx did) (?new, emit OpenTransaction s)
      (markedBits bits) = (n1, s2)"
    by (cases "foldl (addOrMoveSpot E coords idx did) (?new, emit OpenTransaction s) (markedBits bits)")
  obtain n2 s3 where g: "fadeOutLiftedSpots E bits n1 s2 = (n2, s3)"
    by (cases "fadeOutLiftedSpots E bits n1 s2")
  have r: "setSpots E coords idx bits did s =
     (if \<not> isValid E (viewport s) then s
      else (emit CloseTransaction s3)\<lparr>spotsByDisplay :=
              assignDisplay did n2 (spotsByDisplay (emit CloseTransaction s3))\<rparr>)"
    by (simp add: setSpots_def f g Let_def)
  note p = foldl_addOrMoveSpot_preserves [OF f]
  note pf = exceptPool_fields [OF p [THEN conjunct1]]
  note af = exceptAnimation_fields [OF fadeOutLiftedSpots_exceptAnimation [OF g]]
  show "viewport (setSpots E coords idx bits did s) = viewport s"
    and "presentation (setSpots E coords idx bits did s) = presentation s"
    and "pointerIconChanged (setSpots E coords idx bits did s) = pointerIconChanged s"
    and "presentationChanged (setSpots E coords idx bits did s) = presentationChanged s"
    by (simp_all add: r emit_def) (simp_all add: af pf, simp_all add: emit_def)
  show "poolBounded (setSpots E coords idx bits did s)" if "poolBounded s"
  proof -
    from that p have "poolBounded s2" by (simp add: emit_frame)
    then have "poolBounded s3" using af(9) by (simp add: poolBounded_def)
    with that show ?thesis by (simp add: r) (simp add: emit_def poolBounded_def)
  qed
qed


lemma flagsSettled_upd:
  "flagsSettled E (s\<lparr>trace := tr\<rparr>) = flagsSettled E s"
  "flagsSettled E (s\<lparr>pointerFadeDirection := fd\<rparr>) = flagsSettled E s"
  "flagsSettled E (s\<lparr>pointerAlpha := a\<rparr>) = flagsSettled E s"
  "flagsSettled E (s\<lparr>animationPending := ap\<rparr>) = flagsSettled E s"
  "flagsSettled E (s\<lparr>inactivityTimeout := it\<rparr>) = flagsSettled E s"
  "flagsSettled E (s\<lparr>buttonState := bs\<rparr>) = flagsSettled E s"
  "flagsSettled E (s\<lparr>spotsByDisplay := m\<rparr>) = flagsSettled E s"
  by (simp_all add: flagsSettled_def)

lemma poolBounded_upd:
  "poolBounded (s\<lparr>trace := tr\<rparr>) = poolBounded s"
  "poolBounded (s\<lparr>pointerFadeDirection := fd\<rparr>) = poolBounded s"
  "poolBounded (s\<lparr>pointerAlpha := a\<rparr>) = poolBounded s"
  "poolBounded (s\<lparr>animationPending := ap\<rparr>) = poolBounded s"
  "poolBounded (s\<lparr>inactivityTimeout := it\<rparr>) = poolBounded s"
  "poolBounded (s\<lparr>buttonState := bs\<rparr>) = poolBounded s"
  "poolBounded (s\<lparr>spotsByDisplay := m\<rparr>) = poolBounded s"
  "poolBounded (s\<lparr>pointerX := x\<rparr>) = poolBounded s"
  "poolBounded (s\<lparr>pointerY := y\<rparr>) = poolBounded s"
  "poolBounded (s\<lparr>requestedPointerType := i\<rparr>) = poolBounded s"
  "poolBounded (s\<lparr>presentationChanged := pc\<rparr>) = poolBounded s"
  "poolBounded (s\<lparr>presentation := p\<rparr>) = poolBounded s"
  "poolBounded (s\<lparr>viewport := v\<rparr>) = poolBounded s"
  "poolBounded (s\<lparr>additionalMouseResources := am\<rparr>) = poolBounded s"
  "poolBounded (s\<lparr>animationResources := ar\<rparr>) = poolBounded s"
  by (simp_all add: poolBounded_def)

lemma startAnimationLocked_settled:
  "flagsSettled E (startAnimationLocked E s) = flagsSettled E s"
  by (rule flagsSettled_cong) (simp_all add: startAnimationLocked_def emit_def)

lemma startAnimationLocked_poolBounded:
  "poolBounded (startAnimationLocked E s) = poolBounded s"
  by (simp add: startAnimationLocked_def emit_def poolBounded_def)

lemma updatePointerLocked_poolBounded:
  "poolBounded (updatePointerLocked E s) = poolBounded s"
  by (simp add: poolBounded_def updatePointerLocked_frame2)

lemma fadeOutAndReleaseAllSpotsLocked_poolBounded:
  "poolBounded (fadeOutAndReleaseAllSpotsLocked E s) = poolBounded s"
  by (simp add: poolBounded_def fadeOutAndReleaseAllSpotsLocked_frame)

lemma fadeOutAndReleaseAllSpotsLocked_settled:
  "flagsSettled E (fadeOutAndReleaseAllSpotsLocked E s) = flagsSettled E s"
  by (rule flagsSettled_cong) (simp_all add: fadeOutAndReleaseAllSpotsLocked_frame)

lemma loadResourcesLocked_poolBounded:
  "poolBounded (loadResourcesLocked E s) = poolBounded s"
  by (simp add: poolBounded_def loadResourcesLocked_frame)

lemma setPositionLocked_inv:
  "flagsSettled E s \<Longrightarrow> flagsSettled E (setPositionLocked E x y s)"
  "poolBounded (setPositionLocked E x y s) = poolBounded s"
  by (simp_all add: setPositionLocked_def updatePointerLocked_settled
      updatePointerLocked_poolBounded poolBounded_upd split: option.splits)

lemma fade_inv:
  "flagsSettled E s \<Longrightarrow> flagsSettled E (fade E tr s)"
  "poolBounded (fade E tr s) = poolBounded s"
  by (simp_all add: fade_def Let_def updatePointerLocked_settled startAnimationLocked_settled
      updatePointerLocked_poolBounded startAnimationLocked_poolBounded
      removeInactivityTimeoutLocked_def emit_def flagsSettled_upd poolBounded_upd)

lemma unfade_inv:
  "flagsSettled E s \<Longrightarrow> flagsSettled E (unfade E tr s)"
  "poolBounded (unfade E tr s) = poolBounded s"
  by (simp_all add: unfade_def Let_def updatePointerLocked_settled startAnimationLocked_settled
      updatePointerLocked_poolBounded startAnimationLocked_poolBounded
      resetInactivityTimeoutLocked_def emit_def flagsSettled_upd poolBounded_upd)

lemma setPresentation_settled:
  assumes "flagsSettled E s"
  shows "flagsSettled E (setPresentation E p s)"
proof (cases "presentation s = p")
  case True
  with assms show ?thesis by (simp add: setPresentation_def)
next
  case diff: False
  show ?thesis
  proof (cases "isValid E (viewport s)")
    case False
    with diff show ?thesis by (simp add: setPresentation_def Let_def flagsSettled_def)
  next
    case valid: True
    show ?thesis
    proof (cases p)
      case POINTER
      with diff valid show ?thesis
        by (simp add: setPresentation_def Let_def split_def updatePointerLocked_settled)
    next
      case SPOT
      with diff valid show ?thesis by (simp add: setPresentation_def Let_def flagsSettled_def)
    qed
  qed
qed

lemma setPresentation_poolBounded:
  "poolBounded (setPresentation E p s) = poolBounded s"
  by (simp add: setPresentation_def Let_def split_def updatePointerLocked_poolBounded
      fadeOutAndReleaseAllSpotsLocked_poolBounded poolBounded_upd)

lemma setDisplayViewport_eq:
  "setDisplayViewport E v s =
     (if v = viewport s then s
      else updatePointerLocked E
        (if displayChanged (viewport s) v then
           fadeOutAndReleaseAllSpotsLocked E
             (if isValid E v
              then loadResourcesLocked E
                     (s\<lparr>viewport := v,
                        pointerX := fmul (fadd (float_of_int32 (logicalLeft v))
                                               (float_of_int32 (logicalRight v - 1)))
                                         (FVal (1 / 2)),
                        pointerY := fmul (fadd (float_of_int32 (logicalTop v))
                                               (float_of_int32 (logicalBottom v - 1)))
                                         (FVal (1 / 2))\<rparr>)
              else s\<lparr>viewport := v, pointerX := FVal 0, pointerY := FVal 0\<rparr>)
         else if orientation (viewport s) \<noteq> orientation v then
           s\<lparr>viewport := v,
             pointerX := fsub (fst (applyRotation v (undoRotation (viewport s)
                                 (fadd (pointerX s) (FVal (1 / 2)),
                                  fadd (pointerY s) (FVal (1 / 2))))))
                              (FVal (1 / 2)),
             pointerY := fsub (snd (applyRotation v (undoRotation (viewport s)
                                 (fadd (pointerX s) (FVal (1 / 2)),
                                  fadd (pointerY s) (FVal (1 / 2))))))
                              (FVal (1 / 2))\<rparr>
         else s\<lparr>viewport := v\<rparr>))"
  by (simp add: setDisplayViewport_def displayChanged_def getBoundsLocked_def Let_def split_def
      prod_eq_iff)

lemma setDisplayViewport_settled:
  assumes "flagsSettled E s"
  shows "flagsSettled E (setDisplayViewport E v s)"
  using assms by (simp add: setDisplayViewport_eq updatePointerLocked_settled)

lemma setDisplayViewport_poolBounded:
  "poolBounded (setDisplayViewport E v s) = poolBounded s"
  by (simp add: setDisplayViewport_eq updatePointerLocked_poolBounded
      fadeOutAndReleaseAllSpotsLocked_poolBounded loadResourcesLocked_poolBounded
      poolBounded_upd)

lemma doBitmapAnimationLocked_frame:
  assumes "doBitmapAnimationLocked E ts s = Some (k, s')"
  shows "viewport s' = viewport s" and "presentation s' = presentation s"
    and "pointerIconChanged s' = pointerIconChanged s"
    and "presentationChanged s' = presentationChanged s"
    and "recycledSprites s' = recycledSprites s"
    and "pointerAlpha s' = pointerAlpha s"
    and "pointerFadeDirection s' = pointerFadeDirection s"
    and "spotsByDisplay s' = spotsByDisplay s"
    and "animationPending s' = animationPending s"
  using assms
  by (auto simp: doBitmapAnimationLocked_def emit_def Let_def split: option.splits if_splits)

lemma fadePointerLocked_inv:
  assumes "fadePointerLocked E d s = (k, s')"
  shows "flagsSettled E s \<Longrightarrow> flagsSettled E s'"
    and "poolBounded s' = poolBounded s"
    and "spotsByDisplay s' = spotsByDisplay s"
  using assms
  by (auto simp: fadePointerLocked_def Let_def updatePointerLocked_settled
      updatePointerLocked_poolBounded updatePointerLocked_frame2 poolBounded_upd
      split: if_splits)

lemma doFadingAnimationLocked_inv:
  assumes "doFadingAnimationLocked E ts s = (k, s')"
  shows "flagsSettled E s \<Longrightarrow> flagsSettled E s'" and "poolBounded s \<Longrightarrow> poolBounded s'"
proof -
  let ?d = "ts - animationTime s"
  obtain k1 s1 where h1: "fadePointerLocked E ?d s = (k1, s1)"
    by (cases "fadePointerLocked E ?d s")
  obtain m s2 k2 where h2: "fadeDisplaysLocked ?d (spotsByDisplay s1) s1 = (m, s2, k2)"
    by (cases "fadeDisplaysLocked ?d (spotsByDisplay s1) s1")
  from assms h1 h2 have r: "s' = s2\<lparr>spotsByDisplay := m\<rparr>"
    by (simp add: doFadingAnimationLocked_def Let_def)
  have e: "exceptPool s2 = exceptPool s1"
    by (rule fadeDisplaysLocked_preserves [where P = "\<lambda>x. exceptPool x = exceptPool s1", OF _ _ h2])
       (simp_all add: releaseSpotLocked_exceptPool)
  note pf = exceptPool_fields [OF e]
  show "flagsSettled E s'" if "flagsSettled E s"
  proof -
    have "flagsSettled E s' = flagsSettled E s1"
      by (rule flagsSettled_cong) (simp_all add: r pf)
    with fadePointerLocked_inv(1) [OF h1 that] show ?thesis by simp
  qed
  show "poolBounded s'" if "poolBounded s"
  proof -
    from that fadePointerLocked_inv(2) [OF h1] have "poolBounded s1" by simp
    then have "poolBounded s2"
      using fadeDisplaysLocked_preserves [where P = poolBounded, OF releaseSpotLocked_poolBounded _ h2]
      by simp
    then show ?thesis by (simp add: r poolBounded_def)
  qed
qed

lemma doAnimate_inv:
  assumes "doAnimate E ts s = Some s'"
  shows "flagsSettled E s \<Longrightarrow> flagsSettled E s'" and "poolBounded s \<Longrightarrow> poolBounded s'"
proof -
  let ?s0 = "s\<lparr>animationPending := False\<rparr>"
  obtain kf s1 where h1: "doFadingAnimationLocked E ts ?s0 = (kf, s1)"
    by (cases "doFadingAnimationLocked E ts ?s0")
  from assms h1 obtain kb s2 where h2: "doBitmapAnimationLocked E ts s1 = Some (kb, s2)"
    and r: "s' = (if kf \<or> kb then startAnimationLocked E s2 else s2)"
    by (auto simp: doAnimate_def Let_def split: option.splits)
  note bf = doBitmapAnimationLocked_frame [OF h2]
  have c1: "flagsSettled E s2 = flagsSettled E s1"
    by (rule flagsSettled_cong) (simp_all add: bf)
  have c2: "poolBounded s2 = poolBounded s1" by (simp add: poolBounded_def bf)
  show "flagsSettled E s'" if "flagsSettled E s"
  proof -
    from that have "flagsSettled E ?s0" by (simp add: flagsSettled_upd)
    from doFadingAnimationLocked_inv(1) [OF h1 this] c1
    show ?thesis by (simp add: r startAnimationLocked_settled)
  qed
  show "poolBounded s'" if "poolBounded s"
  proof -
    from that have "poolBounded ?s0" by (simp add: poolBounded_upd)
    from doFadingAnimationLocked_inv(2) [OF h1 this] c2
    show ?thesis by (simp add: r startAnimationLocked_poolBounded)
  qed
qed

lemma reachable_invariants:
  "reachable E s \<Longrightarrow> flagsSettled E s \<and> poolBounded s"
proof (induction rule: reachable.induct)
  case (r_constructor u)
  show ?case by (simp add: constructor_def flagsSettled_def poolBounded_def)
next
  case (r_move s dx dy)
  then show ?case by (simp add: move_def setPositionLocked_inv)
next
  case (r_setButtonState s b)
  then show ?case by (simp add: setButtonState_def flagsSettled_upd poolBounded_upd)
next
  case (r_setPosition s x y)
  then show ?case by (simp add: setPosition_def setPositionLocked_inv)
next
  case (r_fade s tr)
  then show ?case by (simp add: fade_inv)
next
  case (r_unfade s tr)
  then show ?case by (simp add: unfade_inv)
next
  case (r_setPresentation s p)
  then show ?case by (simp add: setPresentation_settled setPresentation_poolBounded)
next
  case (r_setSpots s coords idx bits d)
  then show ?case
    using flagsSettled_cong [OF setSpots_preserves(1-4), where E = E]
    by (simp add: setSpots_preserves(5))
next
  case (r_clearSpots s)
  then show ?case
    by (simp add: clearSpots_def fadeOutAndReleaseAllSpotsLocked_settled
        fadeOutAndReleaseAllSpotsLocked_poolBounded)
next
  case (r_setInactivityTimeout s t)
  then show ?case
    by (simp add: setInactivityTimeout_def resetInactivityTimeoutLocked_def emit_def
        flagsSettled_upd poolBounded_upd)
next
  case (r_reloadPointerResources s)
  then show ?case
    by (simp add: reloadPointerResources_def updatePointerLocked_settled
        updatePointerLocked_poolBounded loadResourcesLocked_poolBounded)
next
  case (r_setDisplayViewport s v)
  then show ?case by (simp add: setDisplayViewport_settled setDisplayViewport_poolBounded)
next
  case (r_updatePointerIcon s i)
  then show ?case
    by (simp add: updatePointerIcon_def updatePointerLocked_settled
        updatePointerLocked_poolBounded poolBounded_upd)
next
  case (r_setCustomPointerIcon s ic)
  then show ?case
    by (simp add: setCustomPointerIcon_def Let_def updatePointerLocked_settled
        updatePointerLocked_poolBounded poolBounded_upd)
next
  case (r_doInactivityTimeout s)
  then show ?case by (simp add: doInactivityTimeout_def fade_inv)
next
  case (r_doAnimate s ts s')
  then show ?case using doAnimate_inv [of E ts s s'] by simp
qed

subsection \<open>The viewport, the push in a settled state, fading all spots\<close>

lemma exampleViewport_valid: "isValid exampleEnv exampleViewport"
  by (simp add: exampleEnv_def libraryIsValid_def exampleViewport_def)

lemma degenerateViewport_valid: "isValid exampleEnv degenerateViewport"
  by (simp add: exampleEnv_def libraryIsValid_def degenerateViewport_def exampleViewport_def)

lemma setDisplayViewport_viewport: "viewport (setDisplayViewport E v s) = v"
  by (simp add: setDisplayViewport_def updatePointerLocked_frame
      fadeOutAndReleaseAllSpotsLocked_frame loadResourcesLocked_frame Let_def
      split: prod.splits option.splits)

lemma exampleState_viewport: "viewport exampleState = exampleViewport"
  by (simp add: exampleState_def setDisplayViewport_viewport)

lemma degenerateState_viewport: "viewport degenerateState = degenerateViewport"
  by (simp add: degenerateState_def setDisplayViewport_viewport)

lemma updatePointerLocked_settled_effect:
  assumes "flagsSettled E s"
  shows "trace (updatePointerLocked E s)
           = trace s @ (if isValid E (viewport s) then [OpenTransaction, CloseTransaction] else [])"
    and "animationPending (updatePointerLocked E s) = animationPending s"
    and "animationTime (updatePointerLocked E s) = animationTime s"
    and "clockReads (updatePointerLocked E s) = clockReads s"
proof -
  let ?goal = "trace (updatePointerLocked E s)
           = trace s @ (if isValid E (viewport s) then [OpenTransaction, CloseTransaction] else [])
    \<and> animationPending (updatePointerLocked E s) = animationPending s
    \<and> animationTime (updatePointerLocked E s) = animationTime s
    \<and> clockReads (updatePointerLocked E s) = clockReads s"
  consider "\<not> isValid E (viewport s)"
    | "isValid E (viewport s)" "\<not> pointerIconChanged s" "\<not> presentationChanged s"
    | "isValid E (viewport s)" "presentation s = SPOT"
    using assms by (cases "presentation s") (auto simp: flagsSettled_def)
  then have ?goal
  proof cases
    case 1
    then show ?thesis by (simp add: updatePointerLocked_def)
  next
    case 2
    then show ?thesis by (simp add: updatePointerLocked_def emit_def Let_def)
  next
    case 3
    then show ?thesis
      by (simp add: updatePointerLocked_def updatePointerIconLocked_def emit_def Let_def)
  qed
  then show "trace (updatePointerLocked E s)
           = trace s @ (if isValid E (viewport s) then [OpenTransaction, CloseTransaction] else [])"
    and "animationPending (updatePointerLocked E s) = animationPending s"
    and "animationTime (updatePointerLocked E s) = animationTime s"
    and "clockReads (updatePointerLocked E s) = clockReads s"
    by simp_all
qed




lemma exampleState_reachable: "reachable exampleEnv exampleState"
  unfolding exampleState_def freshState_def
  by (rule r_setDisplayViewport) (rule r_constructor)

subsection \<open>The concrete states\<close>

lemmas eval_defs = setDisplayViewport_def getNonRotatedSize_def getBoundsLocked_def
  loadResourcesLocked_def fadeOutAndReleaseAllSpotsLocked_def updatePointerLocked_def
  updatePointerIconLocked_def startAnimationLocked_def emit_def Let_def
  exampleEnv_def libraryIsValid_def exampleViewport_def defaultViewport_def exampleSprite_def
  constructor_def blank_def freshState_def
  DISPLAY_ORIENTATION_90_def DISPLAY_ORIENTATION_270_def DISPLAY_ORIENTATION_180_def
  BASE_LAYER_POINTER_def

lemma exampleState_eq:
  "exampleState =
     \<lparr>animationPending = False, animationTime = 0, presentation = POINTER,
      presentationChanged = False, inactivityTimeout = NORMAL, pointerFadeDirection = 0,
      pointerX = FVal (1079 / 2), pointerY = FVal (1919 / 2), pointerAlpha = FVal 0,
      pointerSprite = \<lparr>spriteId = 0, spriteLayer = 0, spriteX = FVal (1079 / 2),
        spriteY = FVal (1919 / 2), spriteDisplayId = 0, spriteAlpha = FVal 1,
        spriteVisible = False, spriteIcon = Some 4,
        spriteMatrix = (FVal 1, FVal 0, FVal 0, FVal 1)\<rparr>,
      pointerIcon = 4, pointerIconChanged = False, additionalMouseResources = [(1002, 5)],
      animationResources = [], requestedPointerType = 1000, animationFrameIndex = 0,
      lastFrameUpdatedTime = 0, buttonState = 0, viewport = exampleViewport,
      spotsByDisplay = [], recycledSprites = [],
      mResources = \<lparr>spotHover = 1, spotTouch = 2, spotAnchor = 3\<rparr>,
      trace = [OpenTransaction, CloseTransaction], spritesCreated = 1, clockReads = 0\<rparr>"
  unfolding exampleState_def by (simp add: eval_defs float_eval)

declare exampleState_eq [code]

lemma freshState_viewport: "viewport freshState = defaultViewport"
  by (simp add: freshState_def constructor_def blank_def)

lemma defaultViewport_invalid: "\<not> isValid exampleEnv defaultViewport"
  by (simp add: exampleEnv_def libraryIsValid_def defaultViewport_def)




subsection \<open>Eviction\<close>

lemma removeFirstFadingSpotLocked_find:
  "removeFirstFadingSpotLocked spots =
     (find (\<lambda>sp. spotId sp = INVALID_ID) spots,
      takeWhile (\<lambda>sp. spotId sp \<noteq> INVALID_ID) spots
        @ tl (dropWhile (\<lambda>sp. spotId sp \<noteq> INVALID_ID) spots))"
  by (induction spots) simp_all

lemma evictSpots_below: "length spots < MAX_SPOTS \<Longrightarrow> evictSpots spots s = (spots, s)"
  by (simp add: evictSpots.simps [of spots])

lemma withoutVictim_length:
  assumes "spots \<noteq> []"
  shows "Suc (length (withoutVictim spots)) = length spots"
proof (cases "find (\<lambda>sp. spotId sp = INVALID_ID) spots")
  case None
  with assms show ?thesis by (simp add: withoutVictim_def)
next
  case (Some sp)
  then have "removeFirstFadingSpotLocked spots = (Some sp, withoutVictim spots)"
    by (simp add: removeFirstFadingSpotLocked_find withoutVictim_def)
  from removeFirstFadingSpotLocked_length [OF this] show ?thesis by simp
qed

lemma evictSpots_at_capacity:
  assumes "length spots = MAX_SPOTS"
  shows "evictSpots spots s = (withoutVictim spots, releaseSpotLocked (evictionVictim spots) s)"
proof -
  from assms have ne: "spots \<noteq> []" by (auto simp: MAX_SPOTS_def)
  from withoutVictim_length [OF ne] assms have "length (withoutVictim spots) < MAX_SPOTS"
    by simp
  then have b: "evictSpots (withoutVictim spots) x = (withoutVictim spots, x)" for x
    by (rule evictSpots_below)
  show ?thesis
  proof (cases "find (\<lambda>sp. spotId sp = INVALID_ID) spots")
    case None
    then have "withoutVictim spots = tl spots" "evictionVictim spots = hd spots"
      using ne by (simp_all add: withoutVictim_def evictionVictim_def hd_conv_nth)
    with b [of "releaseSpotLocked (hd spots) s"] None assms show ?thesis
      by (simp add: evictSpots.simps [of spots] removeFirstFadingSpotLocked_find)
  next
    case (Some sp)
    then have w: "withoutVictim spots = takeWhile (\<lambda>sp. spotId sp \<noteq> INVALID_ID) spots
                    @ tl (dropWhile (\<lambda>sp. spotId sp \<noteq> INVALID_ID) spots)"
      and v: "evictionVictim spots = sp"
      by (simp_all add: withoutVictim_def evictionVictim_def)
    from b [of "releaseSpotLocked sp s"] Some assms show ?thesis
      by (simp add: evictSpots.simps [of spots] removeFirstFadingSpotLocked_find v
          flip: w)
  qed
qed

subsection \<open>The animation step on spots and pool\<close>

lemma releaseSpotLocked_pool:
  "recycledSprites (releaseSpotLocked spot s)
     = recycledSprites s
         @ take (MAX_RECYCLED_SPRITES - length (recycledSprites s)) [clearIcon (spotSprite spot)]"
  by (simp add: releaseSpotLocked_def Let_def)

lemma take_room:
  "(p @ take (n - length p) xs) @ take (n - length (p @ take (n - length p) xs)) ys
     = p @ take (n - length p) (xs @ ys)"
proof -
  have "n - length (p @ take (n - length p) xs) = n - length p - length xs"
    by (simp add: min_def)
  then show ?thesis by simp
qed

lemma fadeSpotsLocked_pool:
  "fadeSpotsLocked d spots s = (spots', s', k) \<Longrightarrow>
   recycledSprites s'
     = recycledSprites s
         @ take (MAX_RECYCLED_SPRITES - length (recycledSprites s))
             (map (\<lambda>sp. clearIcon (spotSprite sp)) (filter (fadedOut d) spots))"
proof (induction spots arbitrary: s spots' s' k)
  case Nil
  then show ?case by simp
next
  case (Cons spot spots)
  let ?a = "fsub (spotAlpha spot) (fdiv (float_of_nsecs d) (float_of_nsecs SPOT_FADE_DURATION))"
  let ?rest = "map (\<lambda>sp. clearIcon (spotSprite sp)) (filter (fadedOut d) spots)"
  show ?case
  proof (cases "fadedOut d spot")
    case True
    then have c: "spotId spot = INVALID_ID" "fle ?a (FVal 0)" by (simp_all add: fadedOut_def)
    let ?s1 = "releaseSpotLocked (spot\<lparr>spotAlpha := ?a\<rparr>) s"
    from c Cons.prems have "fadeSpotsLocked d spots ?s1 = (spots', s', k)"
      by (simp add: Let_def)
    from Cons.IH [OF this]
    have "recycledSprites s'
            = recycledSprites ?s1 @ take (MAX_RECYCLED_SPRITES - length (recycledSprites ?s1)) ?rest" .
    also have "recycledSprites ?s1
            = recycledSprites s @ take (MAX_RECYCLED_SPRITES - length (recycledSprites s))
                                    [clearIcon (spotSprite spot)]"
      by (simp add: releaseSpotLocked_pool)
    also have "(recycledSprites s @ take (MAX_RECYCLED_SPRITES - length (recycledSprites s))
                                    [clearIcon (spotSprite spot)])
          @ take (MAX_RECYCLED_SPRITES
                   - length (recycledSprites s
                       @ take (MAX_RECYCLED_SPRITES - length (recycledSprites s))
                           [clearIcon (spotSprite spot)])) ?rest
        = recycledSprites s @ take (MAX_RECYCLED_SPRITES - length (recycledSprites s))
                                ([clearIcon (spotSprite spot)] @ ?rest)"
      by (rule take_room)
    finally show ?thesis using True by simp
  next
    case False
    obtain r1 r2 r3 where h: "fadeSpotsLocked d spots s = (r1, r2, r3)"
      by (cases "fadeSpotsLocked d spots s")
    with False Cons.prems have "s' = r2"
      by (auto simp: Let_def fadedOut_def split: if_splits)
    with Cons.IH [OF h] False show ?thesis by simp
  qed
qed

lemma fadeSpotsLocked_result:
  "fadeSpotsLocked d spots s = (spots', s', k) \<Longrightarrow>
   k = (\<exists>sp\<in>set spots'. spotId sp = INVALID_ID) \<and>
   (\<forall>sp\<in>set spots'. spotId sp = INVALID_ID \<longrightarrow> \<not> fle (spotAlpha sp) (FVal 0)) \<and>
   length spots' = length (filter (\<lambda>sp. \<not> fadedOut d sp) spots)"
proof (induction spots arbitrary: s spots' s' k)
  case Nil
  then show ?case by simp
next
  case (Cons spot spots)
  let ?a = "fsub (spotAlpha spot) (fdiv (float_of_nsecs d) (float_of_nsecs SPOT_FADE_DURATION))"
  show ?case
  proof (cases "fadedOut d spot")
    case True
    then have c: "spotId spot = INVALID_ID" "fle ?a (FVal 0)" by (simp_all add: fadedOut_def)
    with Cons.prems
    have "fadeSpotsLocked d spots (releaseSpotLocked (spot\<lparr>spotAlpha := ?a\<rparr>) s) = (spots', s', k)"
      by (simp add: Let_def)
    from Cons.IH [OF this] True show ?thesis by simp
  next
    case False
    obtain r1 r2 r3 where h: "fadeSpotsLocked d spots s = (r1, r2, r3)"
      by (cases "fadeSpotsLocked d spots s")
    show ?thesis
    proof (cases "spotId spot = INVALID_ID")
      case True
      with False have "\<not> fle ?a (FVal 0)" by (simp add: fadedOut_def)
      with True h Cons.prems Cons.IH [OF h] False show ?thesis
        by (auto simp: Let_def)
    next
      case live: False
      with h Cons.prems Cons.IH [OF h] False show ?thesis by auto
    qed
  qed
qed

lemma fadeDisplaysLocked_pool:
  "fadeDisplaysLocked d m s = (m', s', k) \<Longrightarrow>
   recycledSprites s'
     = recycledSprites s
         @ take (MAX_RECYCLED_SPRITES - length (recycledSprites s))
             (map (\<lambda>sp. clearIcon (spotSprite sp)) (filter (fadedOut d) (concat (map snd m))))"
proof (induction m arbitrary: s m' s' k)
  case Nil
  then show ?case by simp
next
  case (Cons a m)
  obtain disp spots where a: "a = (disp, spots)" by (cases a)
  obtain r1 r2 r3 where h1: "fadeSpotsLocked d spots s = (r1, r2, r3)"
    by (cases "fadeSpotsLocked d spots s")
  obtain q1 q2 q3 where h2: "fadeDisplaysLocked d m r2 = (q1, q2, q3)"
    by (cases "fadeDisplaysLocked d m r2")
  from Cons.prems a h1 h2 have e: "s' = q2" by simp
  let ?f = "\<lambda>xs. map (\<lambda>sp. clearIcon (spotSprite sp)) (filter (fadedOut d) xs)"
  have "recycledSprites s'
          = recycledSprites r2 @ take (MAX_RECYCLED_SPRITES - length (recycledSprites r2))
                                   (?f (concat (map snd m)))"
    unfolding e by (rule Cons.IH [OF h2])
  also have "recycledSprites r2
          = recycledSprites s @ take (MAX_RECYCLED_SPRITES - length (recycledSprites s)) (?f spots)"
    by (rule fadeSpotsLocked_pool [OF h1])
  also have "(recycledSprites s @ take (MAX_RECYCLED_SPRITES - length (recycledSprites s)) (?f spots))
        @ take (MAX_RECYCLED_SPRITES
                 - length (recycledSprites s
                     @ take (MAX_RECYCLED_SPRITES - length (recycledSprites s)) (?f spots)))
            (?f (concat (map snd m)))
      = recycledSprites s @ take (MAX_RECYCLED_SPRITES - length (recycledSprites s))
                              (?f spots @ ?f (concat (map snd m)))"
    by (rule take_room)
  finally show ?case by (simp add: a)
qed

lemma fadeDisplaysLocked_result:
  "fadeDisplaysLocked d m s = (m', s', k) \<Longrightarrow>
   k = (\<exists>sp\<in>set (concat (map snd m')). spotId sp = INVALID_ID) \<and>
   (\<forall>sp\<in>set (concat (map snd m')). spotId sp = INVALID_ID \<longrightarrow> \<not> fle (spotAlpha sp) (FVal 0)) \<and>
   length (concat (map snd m')) = length (filter (\<lambda>sp. \<not> fadedOut d sp) (concat (map snd m)))"
proof (induction m arbitrary: s m' s' k)
  case Nil
  then show ?case by simp
next
  case (Cons a m)
  obtain disp spots where a: "a = (disp, spots)" by (cases a)
  obtain r1 r2 r3 where h1: "fadeSpotsLocked d spots s = (r1, r2, r3)"
    by (cases "fadeSpotsLocked d spots s")
  obtain q1 q2 q3 where h2: "fadeDisplaysLocked d m r2 = (q1, q2, q3)"
    by (cases "fadeDisplaysLocked d m r2")
  from Cons.prems a h1 h2
  have e: "m' = (if r1 = [] then q1 else (disp, r1) # q1)" "k = (r3 \<or> q3)" by auto
  from fadeSpotsLocked_result [OF h1] Cons.IH [OF h2] show ?case
    unfolding e a by (cases "r1 = []") auto
qed


lemma fadePointerLocked_frame:
  assumes "fadePointerLocked E d s = (k, s1)"
  shows "recycledSprites s1 = recycledSprites s" and "spotsByDisplay s1 = spotsByDisplay s"
    and "animationResources s1 = animationResources s"
    and "requestedPointerType s1 = requestedPointerType s"
  using assms
  by (auto simp: fadePointerLocked_def Let_def updatePointerLocked_frame2 split: if_splits)

lemma doFadingAnimationLocked_parts:
  assumes "doFadingAnimationLocked E ts s = (k, s')"
  obtains k1 s1 m s2 k2 where
    "fadePointerLocked E (ts - animationTime s) s = (k1, s1)"
    "fadeDisplaysLocked (ts - animationTime s) (spotsByDisplay s) s1 = (m, s2, k2)"
    "k = (k1 \<or> k2)" "s' = s2\<lparr>spotsByDisplay := m\<rparr>" "exceptPool s2 = exceptPool s1"
proof -
  let ?d = "ts - animationTime s"
  obtain k1 s1 where h1: "fadePointerLocked E ?d s = (k1, s1)"
    by (cases "fadePointerLocked E ?d s")
  obtain m s2 k2 where h2: "fadeDisplaysLocked ?d (spotsByDisplay s1) s1 = (m, s2, k2)"
    by (cases "fadeDisplaysLocked ?d (spotsByDisplay s1) s1")
  from assms h1 h2 have r: "k = (k1 \<or> k2)" "s' = s2\<lparr>spotsByDisplay := m\<rparr>"
    by (simp_all add: doFadingAnimationLocked_def Let_def)
  have e: "exceptPool s2 = exceptPool s1"
    by (rule fadeDisplaysLocked_preserves [where P = "\<lambda>x. exceptPool x = exceptPool s1", OF _ _ h2])
       (simp_all add: releaseSpotLocked_exceptPool)
  from h2 have h2': "fadeDisplaysLocked ?d (spotsByDisplay s) s1 = (m, s2, k2)"
    by (simp add: fadePointerLocked_frame(2) [OF h1])
  show thesis by (rule that [OF h1 h2' r e])
qed

lemma doFadingAnimationLocked_spots:
  assumes "doFadingAnimationLocked E ts s = (k, s')"
  shows "recycledSprites s'
     = recycledSprites s
         @ take (MAX_RECYCLED_SPRITES - length (recycledSprites s))
             (map (\<lambda>sp. clearIcon (spotSprite sp))
                (filter (fadedOut (ts - animationTime s)) (allSpots s)))"
    and "length (allSpots s')
           = length (filter (\<lambda>sp. \<not> fadedOut (ts - animationTime s) sp) (allSpots s))"
    and "\<forall>sp\<in>set (allSpots s'). spotId sp = INVALID_ID \<longrightarrow> \<not> fle (spotAlpha sp) (FVal 0)"
proof -
  from assms obtain k1 s1 m s2 k2 where
    h1: "fadePointerLocked E (ts - animationTime s) s = (k1, s1)" and
    h2: "fadeDisplaysLocked (ts - animationTime s) (spotsByDisplay s) s1 = (m, s2, k2)" and
    r: "s' = s2\<lparr>spotsByDisplay := m\<rparr>"
    by (rule doFadingAnimationLocked_parts)
  show "recycledSprites s'
     = recycledSprites s
         @ take (MAX_RECYCLED_SPRITES - length (recycledSprites s))
             (map (\<lambda>sp. clearIcon (spotSprite sp))
                (filter (fadedOut (ts - animationTime s)) (allSpots s)))"
    using fadeDisplaysLocked_pool [OF h2]
    by (simp add: r allSpots_def fadePointerLocked_frame(1) [OF h1])
  show "length (allSpots s')
           = length (filter (\<lambda>sp. \<not> fadedOut (ts - animationTime s) sp) (allSpots s))"
    and "\<forall>sp\<in>set (allSpots s'). spotId sp = INVALID_ID \<longrightarrow> \<not> fle (spotAlpha sp) (FVal 0)"
    using fadeDisplaysLocked_result [OF h2] by (simp_all add: r allSpots_def)
qed

lemma doAnimate_parts:
  assumes "doAnimate E ts s = Some s'"
  obtains kf s1 kb s2 where
    "doFadingAnimationLocked E ts (s\<lparr>animationPending := False\<rparr>) = (kf, s1)"
    "doBitmapAnimationLocked E ts s1 = Some (kb, s2)"
    "s' = (if kf \<or> kb then startAnimationLocked E s2 else s2)"
proof -
  let ?s0 = "s\<lparr>animationPending := False\<rparr>"
  obtain kf s1 where h1: "doFadingAnimationLocked E ts ?s0 = (kf, s1)"
    by (cases "doFadingAnimationLocked E ts ?s0")
  from assms h1 have c: "(case doBitmapAnimationLocked E ts s1 of
            None \<Rightarrow> None
          | Some (kb, s2) \<Rightarrow> Some (if kf \<or> kb then startAnimationLocked E s2 else s2))
        = Some s'"
    by (simp add: doAnimate_def Let_def)
  then obtain kb s2 where h2: "doBitmapAnimationLocked E ts s1 = Some (kb, s2)"
    by (cases "doBitmapAnimationLocked E ts s1") auto
  with c have r: "s' = (if kf \<or> kb then startAnimationLocked E s2 else s2)"
    by (simp only: option.case prod.case option.inject)
  show thesis by (rule that [OF h1 h2 r])
qed

lemma startAnimationLocked_spots:
  "recycledSprites (startAnimationLocked E s) = recycledSprites s"
  "spotsByDisplay (startAnimationLocked E s) = spotsByDisplay s"
  using exceptAnimation_fields [OF startAnimationLocked_exceptAnimation [of E s]] by simp_all

lemma doAnimate_spots:
  assumes "doAnimate E ts s = Some s'"
  shows "recycledSprites s'
     = recycledSprites s
         @ take (MAX_RECYCLED_SPRITES - length (recycledSprites s))
             (map (\<lambda>sp. clearIcon (spotSprite sp))
                (filter (fadedOut (ts - animationTime s)) (allSpots s)))"
    and "length (allSpots s')
           = length (filter (\<lambda>sp. \<not> fadedOut (ts - animationTime s) sp) (allSpots s))"
    and "\<forall>sp\<in>set (allSpots s'). spotId sp = INVALID_ID \<longrightarrow> \<not> fle (spotAlpha sp) (FVal 0)"
proof -
  from assms obtain kf s1 kb s2 where
    h1: "doFadingAnimationLocked E ts (s\<lparr>animationPending := False\<rparr>) = (kf, s1)" and
    h2: "doBitmapAnimationLocked E ts s1 = Some (kb, s2)" and
    r: "s' = (if kf \<or> kb then startAnimationLocked E s2 else s2)"
    by (rule doAnimate_parts)
  note b = doBitmapAnimationLocked_frame [OF h2]
  have p: "recycledSprites s' = recycledSprites s1" "allSpots s' = allSpots s1"
    by (simp_all add: r allSpots_def startAnimationLocked_spots b)
  have q: "allSpots (s\<lparr>animationPending := False\<rparr>) = allSpots s" by (simp add: allSpots_def)
  show "recycledSprites s'
     = recycledSprites s
         @ take (MAX_RECYCLED_SPRITES - length (recycledSprites s))
             (map (\<lambda>sp. clearIcon (spotSprite sp))
                (filter (fadedOut (ts - animationTime s)) (allSpots s)))"
    and "length (allSpots s')
           = length (filter (\<lambda>sp. \<not> fadedOut (ts - animationTime s) sp) (allSpots s))"
    and "\<forall>sp\<in>set (allSpots s'). spotId sp = INVALID_ID \<longrightarrow> \<not> fle (spotAlpha sp) (FVal 0)"
    using doFadingAnimationLocked_spots [OF h1] by (simp_all add: p q)
qed

subsection \<open>Comparisons and conversions of \<open>float\<close>\<close>

lemma fle_NaN [simp]: "\<not> fle a FNaN" "\<not> fle FNaN a"
  by (cases a; simp)+

lemma flt_NaN [simp]: "\<not> flt a FNaN" "\<not> flt FNaN a"
  by (cases a; simp)+

lemma feq_NaN [simp]: "\<not> feq a FNaN" "\<not> feq FNaN a"
  by (cases a; simp)+

lemma fle_refl: "a \<noteq> FNaN \<Longrightarrow> fle a a"
  by (cases a) simp_all

lemma fle_total: "a \<noteq> FNaN \<Longrightarrow> b \<noteq> FNaN \<Longrightarrow> fle a b \<or> fle b a"
  by (cases a; cases b) auto

lemma fle_not_NaN: "fle a b \<Longrightarrow> a \<noteq> FNaN \<and> b \<noteq> FNaN"
  by (cases a; cases b) simp_all

lemma bitLength_double: "0 < n \<Longrightarrow> bitLength (2 * n) = Suc (bitLength n)"
  by (simp add: bitLength.simps [of "2 * n"])

lemma bitLength_shift: "0 < n \<Longrightarrow> bitLength (n * 2 ^ j) = bitLength n + j"
proof (induction j)
  case 0
  show ?case by simp
next
  case (Suc j)
  then have "0 < n * 2 ^ j" by simp
  from bitLength_double [OF this] Suc show ?case by (simp add: mult.commute mult.left_commute)
qed

lemma roundScaled_exact:
  assumes "b = of_int q * 2 ^ (bitLength \<lfloor>b\<rfloor> - 24)"
  shows "roundScaled b = b"
proof -
  define k where "k = bitLength \<lfloor>b\<rfloor> - 24"
  from assms have b: "b = of_int q * 2 ^ k" by (simp only: k_def)
  have "b / 2 ^ k = of_int q" by (subst b) simp
  then have "roundHalfEven (b / 2 ^ k) = q" by (simp only: roundHalfEven_of_int)
  then have "roundScaled b = of_int q * 2 ^ k" by (simp add: roundScaled_def Let_def k_def)
  with b show ?thesis by simp
qed

lemma roundScaled_int:
  assumes "0 \<le> a" and "a \<le> 2 ^ 24"
  shows "roundScaled (of_int a * 2 ^ 149) = of_int a * 2 ^ 149"
proof (cases "a = 0")
  case True
  then show ?thesis
    by (simp add: roundScaled_def roundHalfEven_def bitLength.simps Let_def)
next
  case False
  with assms(1) have pos: "0 < a" by simp
  let ?b = "(of_int a :: real) * 2 ^ 149"
  have fl: "\<lfloor>?b\<rfloor> = a * 2 ^ 149"
  proof -
    have "?b = of_int (a * 2 ^ 149)" by simp
    then show ?thesis by (simp only: floor_of_int)
  qed
  have bl: "bitLength \<lfloor>?b\<rfloor> = bitLength a + 149"
    unfolding fl by (rule bitLength_shift [OF pos])
  from assms(2) have "a < 2 ^ 25" by simp
  from bitLength_le [OF this] have l25: "bitLength a \<le> 25" .
  show ?thesis
  proof (cases "bitLength a \<le> 24")
    case True
    let ?k = "bitLength a + 125"
    have k: "bitLength \<lfloor>?b\<rfloor> - 24 = ?k" by (simp only: bl; simp)
    from True have "149 = (149 - ?k) + ?k" by simp
    then have "(2::real) ^ 149 = 2 ^ (149 - ?k) * 2 ^ ?k" by (metis power_add)
    then have e: "?b = of_int (a * 2 ^ (149 - ?k)) * 2 ^ ?k"
      by (simp only: of_int_mult of_int_power of_int_numeral mult.assoc)
    show ?thesis
      by (rule roundScaled_exact [where q = "a * 2 ^ (149 - ?k)"], subst k, rule e)
  next
    case False
    with l25 have l: "bitLength a = 25" by simp
    then have "0 < bitLength a" by simp
    from bitLength_lower [OF this] l have "2 ^ 24 \<le> a" by simp
    with assms(2) have a: "a = 2 ^ 24" by simp
    have k: "bitLength \<lfloor>?b\<rfloor> - 24 = 150" by (simp only: bl l; simp)
    have e: "?b = of_int (2 ^ 23) * 2 ^ 150" by (simp add: a)
    show ?thesis
      by (rule roundScaled_exact [where q = "2 ^ 23"], subst k, rule e)
  qed
qed

lemma round32_int_exact:
  assumes "\<bar>n\<bar> \<le> 2 ^ 24"
  shows "round32 (of_int n) = FVal (of_int n)"
proof -
  have "roundScaled (of_int \<bar>n\<bar> * 2 ^ 149) = of_int \<bar>n\<bar> * 2 ^ 149"
    by (rule roundScaled_int) (use assms in simp_all)
  then have m: "roundScaled (\<bar>of_int n\<bar> * 2 ^ 149) = \<bar>of_int n\<bar> * 2 ^ 149" by simp
  from assms have "(of_int \<bar>n\<bar> :: real) \<le> of_int (2 ^ 24)" by (simp only: of_int_le_iff)
  then have "\<bar>of_int n :: real\<bar> \<le> 2 ^ 24" by simp
  then have "\<bar>of_int n :: real\<bar> * 2 ^ 149 \<le> 2 ^ 24 * 2 ^ 149"
    by (rule mult_right_mono) simp
  then have lt: "\<not> 2 ^ 277 \<le> \<bar>of_int n :: real\<bar> * 2 ^ 149" by simp
  show ?thesis
    unfolding round32_def Let_def m using lt by simp
qed

lemma float_of_int32_exact:
  "\<bar>sint w\<bar> \<le> 2 ^ 24 \<Longrightarrow> float_of_int32 w = FVal (real_of_int (sint w))"
  unfolding float_of_int32_def by (rule round32_int_exact)

lemma float_of_int32_finite: "\<exists>v. float_of_int32 w = FVal v"
proof -
  have "- (2 ^ 31) \<le> sint w" "sint w < 2 ^ 31"
    using sint_range_size [of w] by (simp_all add: word_size)
  then have "\<bar>sint w\<bar> \<le> 2 ^ 31" by simp
  then have "real_of_int \<bar>sint w\<bar> \<le> real_of_int (2 ^ 31)" by (simp only: of_int_le_iff)
  then have "\<bar>real_of_int (sint w)\<bar> < 2 ^ 128 - 2 ^ 103" by (simp del: of_int_sint)
  from round32_finite [OF this] obtain v where "round32 (real_of_int (sint w)) = FVal v" .
  then show ?thesis unfolding float_of_int32_def by blast
qed

subsection \<open>What the rendering push and the fade-out of all spots do\<close>

lemma updatePointerLocked_sprite:
  assumes "isValid E (viewport s)"
  shows "spriteX (pointerSprite (updatePointerLocked E s)) = pointerX s"
    and "spriteY (pointerSprite (updatePointerLocked E s)) = pointerY s"
    and "spriteLayer (pointerSprite (updatePointerLocked E s)) = BASE_LAYER_POINTER"
    and "spriteDisplayId (pointerSprite (updatePointerLocked E s)) = displayId (viewport s)"
    and "spriteVisible (pointerSprite (updatePointerLocked E s)) = fgt (pointerAlpha s) (FVal 0)"
    and "spriteAlpha (pointerSprite (updatePointerLocked E s))
           = (if fgt (pointerAlpha s) (FVal 0) then pointerAlpha s
              else spriteAlpha (pointerSprite s))"
    and "spriteId (pointerSprite (updatePointerLocked E s)) = spriteId (pointerSprite s)"
  using assms
  by (simp_all add: updatePointerLocked_def updatePointerIconLocked_def startAnimationLocked_def
      emit_def Let_def split: option.splits)













subsection \<open>More concrete states\<close>

lemma fadingState_reachable: "reachable exampleEnv fadingState"
  unfolding fadingState_def visibleState_def
  by (intro r_fade r_unfade exampleState_reachable)

lemma visibleState_eq:
  "visibleState =
     \<lparr>animationPending = False, animationTime = 0, presentation = POINTER,
      presentationChanged = False, inactivityTimeout = NORMAL, pointerFadeDirection = 0,
      pointerX = FVal (1079 / 2), pointerY = FVal (1919 / 2), pointerAlpha = FVal 1,
      pointerSprite = \<lparr>spriteId = 0, spriteLayer = 0, spriteX = FVal (1079 / 2),
        spriteY = FVal (1919 / 2), spriteDisplayId = 0, spriteAlpha = FVal 1,
        spriteVisible = True, spriteIcon = Some 4,
        spriteMatrix = (FVal 1, FVal 0, FVal 0, FVal 1)\<rparr>,
      pointerIcon = 4, pointerIconChanged = False, additionalMouseResources = [(1002, 5)],
      animationResources = [], requestedPointerType = 1000, animationFrameIndex = 0,
      lastFrameUpdatedTime = 0, buttonState = 0, viewport = exampleViewport,
      spotsByDisplay = [], recycledSprites = [],
      mResources = \<lparr>spotHover = 1, spotTouch = 2, spotAnchor = 3\<rparr>,
      trace = [OpenTransaction, CloseTransaction, RemoveMessages,
               SendMessageDelayed 15000000000, OpenTransaction, CloseTransaction],
      spritesCreated = 1, clockReads = 0\<rparr>"
  unfolding visibleState_def by code_simp

declare visibleState_eq [code]

lemma fadingState_eq:
  "fadingState =
     \<lparr>animationPending = True, animationTime = 0, presentation = POINTER,
      presentationChanged = False, inactivityTimeout = NORMAL, pointerFadeDirection = - 1,
      pointerX = FVal (1079 / 2), pointerY = FVal (1919 / 2), pointerAlpha = FVal 1,
      pointerSprite = \<lparr>spriteId = 0, spriteLayer = 0, spriteX = FVal (1079 / 2),
        spriteY = FVal (1919 / 2), spriteDisplayId = 0, spriteAlpha = FVal 1,
        spriteVisible = True, spriteIcon = Some 4,
        spriteMatrix = (FVal 1, FVal 0, FVal 0, FVal 1)\<rparr>,
      pointerIcon = 4, pointerIconChanged = False, additionalMouseResources = [(1002, 5)],
      animationResources = [], requestedPointerType = 1000, animationFrameIndex = 0,
      lastFrameUpdatedTime = 0, buttonState = 0, viewport = exampleViewport,
      spotsByDisplay = [], recycledSprites = [],
      mResources = \<lparr>spotHover = 1, spotTouch = 2, spotAnchor = 3\<rparr>,
      trace = [OpenTransaction, CloseTransaction, RemoveMessages,
               SendMessageDelayed 15000000000, OpenTransaction, CloseTransaction,
               RemoveMessages, RequestNextVsync],
      spritesCreated = 1, clockReads = 1\<rparr>"
  unfolding fadingState_def by code_simp

declare fadingState_eq [code]

lemma wideViewport_valid: "isValid exampleEnv wideViewport"
  by (simp add: exampleEnv_def libraryIsValid_def wideViewport_def exampleViewport_def)

lemma wideState_viewport: "viewport wideState = wideViewport"
  by (simp add: wideState_def setDisplayViewport_viewport)


subsection \<open>Rounding in the fade step\<close>

lemma roundScaled_error_abs:
  assumes "0 \<le> b" and "b < 2 ^ (24 + j)"
  shows "\<bar>roundScaled b - b\<bar> \<le> 2 ^ j / 2"
proof -
  let ?k = "bitLength \<lfloor>b\<rfloor> - 24"
  let ?n = "roundHalfEven (b / 2 ^ ?k)"
  have m: "roundScaled b = of_int ?n * 2 ^ ?k" by (simp add: roundScaled_def Let_def)
  have "\<bar>of_int ?n - b / 2 ^ ?k\<bar> \<le> 1 / 2" by (rule roundHalfEven_error)
  then have "\<bar>of_int ?n - b / 2 ^ ?k\<bar> * 2 ^ ?k \<le> 1 / 2 * 2 ^ ?k"
    by (rule mult_right_mono) simp
  moreover have "\<bar>of_int ?n - b / 2 ^ ?k\<bar> * 2 ^ ?k = \<bar>of_int ?n * 2 ^ ?k - b\<bar>"
  proof -
    have "\<bar>of_int ?n - b / 2 ^ ?k\<bar> * 2 ^ ?k = \<bar>(of_int ?n - b / 2 ^ ?k) * 2 ^ ?k\<bar>"
      by (simp add: abs_mult)
    also have "(of_int ?n - b / 2 ^ ?k) * 2 ^ ?k = of_int ?n * 2 ^ ?k - b"
      by (simp add: algebra_simps)
    finally show ?thesis .
  qed
  ultimately have e: "\<bar>roundScaled b - b\<bar> \<le> 2 ^ ?k / 2" by (simp add: m)
  from ulp_bound [OF assms(2)] have "?k \<le> j" .
  then have "(2::real) ^ ?k \<le> 2 ^ j" by (rule power_increasing) simp
  with e show ?thesis by linarith
qed

lemma round32_below_one:
  assumes "0 \<le> r" and "r < 1"
  obtains v where "round32 r = FVal v" and "0 \<le> v" and "\<bar>v - r\<bar> \<le> 1 / 2 ^ 25"
proof -
  let ?b = "\<bar>r\<bar> * 2 ^ 149"
  let ?m = "roundScaled ?b"
  have b0: "0 \<le> ?b" by simp
  from assms have "?b < 1 * 2 ^ 149" by (simp only: abs_of_nonneg mult_strict_right_mono zero_less_power zero_less_numeral)
  then have b1: "?b < 2 ^ (24 + 125)" by simp
  from roundScaled_error_abs [OF b0 b1] have e: "\<bar>?m - ?b\<bar> \<le> 2 ^ 125 / 2" .
  from b1 have "?b < 2 ^ 277 - 2 ^ 252" by simp
  from roundScaled_finite [OF b0 this] have nf: "\<not> 2 ^ 277 \<le> ?m" by simp
  have n: "0 \<le> ?m" by (rule roundScaled_nonneg [OF b0])
  have "\<bar>?m / 2 ^ 149 - \<bar>r\<bar>\<bar> = \<bar>?m - ?b\<bar> / 2 ^ 149" by (rule abs_scale) simp
  also from e have "\<dots> \<le> (2 ^ 125 / 2) / 2 ^ 149" by (rule divide_right_mono) simp
  also have "\<dots> = 1 / 2 ^ 25" by simp
  finally have e': "\<bar>?m / 2 ^ 149 - \<bar>r\<bar>\<bar> \<le> 1 / 2 ^ 25" .
  show ?thesis
  proof (rule that [of "?m / 2 ^ 149"])
    from nf assms(1) show "round32 r = FVal (?m / 2 ^ 149)" by (simp add: round32_def Let_def)
    from n show "0 \<le> ?m / 2 ^ 149" by simp
    from e' assms(1) show "\<bar>?m / 2 ^ 149 - r\<bar> \<le> 1 / 2 ^ 25" by simp
  qed
qed

lemma POINTER_FADE_DURATION_float: "float_of_nsecs POINTER_FADE_DURATION = FVal 500000000"
  by (simp add: POINTER_FADE_DURATION_def float_eval)

lemma float_of_nsecs_positive:
  assumes "0 < sint d"
  obtains fd where "float_of_nsecs d = FVal fd"
    and "\<bar>fd - real_of_int (sint d)\<bar> \<le> real_of_int (sint d) / 2 ^ 24"
proof -
  let ?e = "real_of_int (sint d)"
  have "sint d < 2 ^ 63" using sint_range_size [of d] by (simp add: word_size)
  then have "real_of_int (sint d) < real_of_int (2 ^ 63)" by (simp only: of_int_less_iff)
  then have u: "?e < 2 ^ 63" by (simp del: of_int_sint)
  from assms have "real_of_int 1 \<le> real_of_int (sint d)" by (simp only: of_int_le_iff; simp)
  then have l: "1 \<le> ?e" by (simp del: of_int_sint)
  from u l have "\<bar>?e\<bar> < 2 ^ 128 - 2 ^ 103" by simp
  from round32_finite [OF this] obtain v where v: "round32 ?e = FVal v"
    and e: "\<bar>v - ?e\<bar> \<le> max (1 / 2 ^ 150) (\<bar>?e\<bar> / 2 ^ 24)" by blast
  from l have "1 / 2 ^ 150 \<le> \<bar>?e\<bar> / 2 ^ 24" by simp
  with e l have "\<bar>v - ?e\<bar> \<le> ?e / 2 ^ 24" by simp
  with v show thesis by (intro that [of v]) (simp_all add: float_of_nsecs_def del: of_int_sint)
qed

lemma fade_quotient:
  assumes "0 < sint d"
  obtains qv where "fdiv (float_of_nsecs d) (FVal 500000000) = FVal qv"
    and "\<bar>qv - real_of_int (sint d) / 500000000\<bar>
           \<le> 3 * (real_of_int (sint d) / 500000000) / 2 ^ 24"
    and "0 \<le> qv"
proof -
  define e where "e = real_of_int (sint d)"
  from float_of_nsecs_positive [OF assms] obtain fd where
    fd: "float_of_nsecs d = FVal fd" and fe: "\<bar>fd - e\<bar> \<le> e / 2 ^ 24"
    unfolding e_def by blast
  have "sint d < 2 ^ 63" using sint_range_size [of d] by (simp add: word_size)
  then have "real_of_int (sint d) < real_of_int (2 ^ 63)" by (simp only: of_int_less_iff)
  then have u: "e < 2 ^ 63" by (simp add: e_def del: of_int_sint)
  from assms have "real_of_int 1 \<le> real_of_int (sint d)" by (simp only: of_int_le_iff; simp)
  then have l: "1 \<le> e" by (simp add: e_def del: of_int_sint)
  define r where "r = fd / 500000000"
  define t where "t = e / 500000000"
  from fe have rt: "\<bar>r - t\<bar> \<le> t / 2 ^ 24"
    unfolding r_def t_def by (simp add: field_simps abs_if split: if_splits)
  from l have tl: "1 / 500000000 \<le> t" unfolding t_def by (simp add: field_simps)
  from u have tu: "t < 2 ^ 63 / 500000000" unfolding t_def by (simp add: field_simps)
  from rt tl have rl: "1 / 1000000000 \<le> r" by (simp add: abs_if split: if_splits)
  from rt tu tl have ru: "r < 2 ^ 64" by (simp add: abs_if split: if_splits)
  from rl ru have "\<bar>r\<bar> < 2 ^ 128 - 2 ^ 103" by simp
  from round32_finite [OF this] obtain qv where q: "round32 r = FVal qv"
    and qe: "\<bar>qv - r\<bar> \<le> max (1 / 2 ^ 150) (\<bar>r\<bar> / 2 ^ 24)"
    and qs: "0 \<le> r \<Longrightarrow> 0 \<le> qv" by blast
  from rl have "1 / 2 ^ 150 \<le> \<bar>r\<bar> / 2 ^ 24" by simp
  with qe rl have qe': "\<bar>qv - r\<bar> \<le> r / 2 ^ 24" by simp
  from qe' rt tl have "\<bar>qv - t\<bar> \<le> 3 * t / 2 ^ 24"
    by (simp add: abs_if split: if_splits)
  moreover from rl qs have "0 \<le> qv" by simp
  moreover have "fdiv (float_of_nsecs d) (FVal 500000000) = FVal qv"
    by (simp add: fd q [unfolded r_def])
  ultimately show thesis
    by (intro that [of qv]) (simp_all add: t_def e_def del: of_int_sint)
qed

lemma fade_step_numeric:
  assumes a0: "0 \<le> \<alpha>" and a1: "\<alpha> \<le> 1" and d: "0 < sint d"
  obtains av where
    "fsub (FVal \<alpha>) (fdiv (float_of_nsecs d) (FVal 500000000)) = FVal av"
    and "\<bar>max 0 av - max 0 (\<alpha> - real_of_int (sint d) / 500000000)\<bar> \<le> 1 / 2 ^ 20"
    and "15 \<le> sint d \<Longrightarrow> 0 < \<alpha> \<Longrightarrow> max 0 av < \<alpha>"
    and "round32 \<alpha> = FVal \<alpha> \<Longrightarrow> av \<le> \<alpha>"
proof -
  define t where "t = real_of_int (sint d) / 500000000"
  from fade_quotient [OF d] obtain qv where
    q: "fdiv (float_of_nsecs d) (FVal 500000000) = FVal qv"
    and qe: "\<bar>qv - t\<bar> \<le> 3 * t / 2 ^ 24" and q0: "0 \<le> qv"
    unfolding t_def by blast
  have "sint d < 2 ^ 63" using sint_range_size [of d] by (simp add: word_size)
  then have "real_of_int (sint d) < real_of_int (2 ^ 63)" by (simp only: of_int_less_iff)
  then have tu: "t < 2 ^ 63 / 500000000" by (simp add: t_def field_simps del: of_int_sint)
  from d have "real_of_int 1 \<le> real_of_int (sint d)" by (simp only: of_int_le_iff; simp)
  then have tl: "1 / 500000000 \<le> t" by (simp add: t_def field_simps del: of_int_sint)
  from qe tl have qpos: "0 < qv" by (simp add: abs_if split: if_splits)
  from qe tu tl have qu: "qv < 2 ^ 64" by (simp add: abs_if split: if_splits)
  have t15: "15 / 500000000 \<le> t" if "15 \<le> sint d"
  proof -
    from that have "real_of_int 15 \<le> real_of_int (sint d)" by (simp only: of_int_le_iff)
    then show ?thesis by (simp add: t_def field_simps del: of_int_sint)
  qed
  have s: "fsub (FVal \<alpha>) (FVal qv) = round32 (\<alpha> - qv)" by (simp add: fsub_def)
  show thesis
  proof (cases "\<alpha> - qv < 0")
    case True
    from True a0 qu have "\<bar>\<alpha> - qv\<bar> < 2 ^ 128 - 2 ^ 103" by simp
    from round32_finite [OF this] obtain av where av: "round32 (\<alpha> - qv) = FVal av"
      and neg: "\<alpha> - qv \<le> 0 \<Longrightarrow> av \<le> 0" by blast
    from True neg have n: "av \<le> 0" by simp
    show ?thesis
    proof (rule that [of av])
      show "fsub (FVal \<alpha>) (fdiv (float_of_nsecs d) (FVal 500000000)) = FVal av"
        by (simp add: q s av)
      show "\<bar>max 0 av - max 0 (\<alpha> - real_of_int (sint d) / 500000000)\<bar> \<le> 1 / 2 ^ 20"
      proof (cases "\<alpha> - t \<le> 0")
        case True
        with n show ?thesis by (simp add: t_def max_def del: of_int_sint)
      next
        case False
        with a1 have "t < 1" by simp
        with qe \<open>\<alpha> - qv < 0\<close> False have "\<alpha> - t \<le> 3 / 2 ^ 24"
          by (simp add: abs_if split: if_splits)
        with False n show ?thesis by (simp add: t_def max_def del: of_int_sint)
      qed
      show "max 0 av < \<alpha>" if "0 < \<alpha>" using n that by (simp add: max_def)
      show "av \<le> \<alpha>" using n a0 by simp
    qed
  next
    case False
    with qpos a1 have r0: "0 \<le> \<alpha> - qv" and r1: "\<alpha> - qv < 1" by simp_all
    from round32_below_one [OF r0 r1] obtain av where av: "round32 (\<alpha> - qv) = FVal av"
      and p: "0 \<le> av" and e: "\<bar>av - (\<alpha> - qv)\<bar> \<le> 1 / 2 ^ 25" by blast
    from r0 a1 have q1: "qv \<le> 1" by simp
    with qe have t2: "t \<le> 2" by (simp add: abs_if split: if_splits)
    show ?thesis
    proof (rule that [of av])
      show "fsub (FVal \<alpha>) (fdiv (float_of_nsecs d) (FVal 500000000)) = FVal av"
        by (simp add: q s av)
      from qe t2 have "\<bar>qv - t\<bar> \<le> 6 / 2 ^ 24" by (simp add: abs_if split: if_splits)
      with e have "\<bar>av - (\<alpha> - t)\<bar> \<le> 1 / 2 ^ 20" by (simp add: abs_if split: if_splits)
      then show "\<bar>max 0 av - max 0 (\<alpha> - real_of_int (sint d) / 500000000)\<bar> \<le> 1 / 2 ^ 20"
        by (simp add: t_def max_def abs_if del: of_int_sint split: if_splits)
      show "max 0 av < \<alpha>" if "15 \<le> sint d" "0 < \<alpha>"
      proof -
        from t15 [OF that(1)] qe have "1 / 2 ^ 25 < qv" by (simp add: abs_if split: if_splits)
        with e have "av < \<alpha>" by (simp add: abs_if split: if_splits)
        with that(2) show ?thesis by (simp add: max_def)
      qed
      show "av \<le> \<alpha>" if "round32 \<alpha> = FVal \<alpha>"
      proof (rule round32_mono [OF _ av that])
        from q0 show "\<alpha> - qv \<le> \<alpha>" by simp
      qed
    qed
  qed
qed

subsection \<open>The animation step on the pointer\<close>

lemma fadePointerLocked_fading_out:
  assumes "sint (pointerFadeDirection s) < 0" and "fadePointerLocked E d s = (k, s1)"
  shows "pointerAlpha s1
           = (if fle (fsub (pointerAlpha s) (fdiv (float_of_nsecs d) (FVal 500000000))) (FVal 0)
              then FVal 0
              else fsub (pointerAlpha s) (fdiv (float_of_nsecs d) (FVal 500000000)))"
    and "pointerFadeDirection s1
           = (if fle (fsub (pointerAlpha s) (fdiv (float_of_nsecs d) (FVal 500000000))) (FVal 0)
              then 0 else pointerFadeDirection s)"
    and "k = (\<not> fle (fsub (pointerAlpha s) (fdiv (float_of_nsecs d) (FVal 500000000))) (FVal 0))"
  using assms
  by (auto simp: fadePointerLocked_def Let_def POINTER_FADE_DURATION_float
      updatePointerLocked_frame split: if_splits)

lemma fadePointerLocked_pending:
  assumes "flagsSettled E s" and "sint (pointerFadeDirection s) < 0"
    and "fadePointerLocked E d s = (k, s1)"
  shows "animationPending s1 = animationPending s"
    and "trace s1
           = trace s @ (if isValid E (viewport s) then [OpenTransaction, CloseTransaction] else [])"
proof -
  have f1: "flagsSettled E (s\<lparr>pointerAlpha := a, pointerFadeDirection := f\<rparr>)" for a f
    using assms(1) by (simp add: flagsSettled_upd)
  have f2: "flagsSettled E (s\<lparr>pointerAlpha := a\<rparr>)" for a
    using assms(1) by (simp add: flagsSettled_upd)
  show "animationPending s1 = animationPending s"
    using assms(2,3)
    by (auto simp: fadePointerLocked_def Let_def updatePointerLocked_settled_effect [OF f1]
        updatePointerLocked_settled_effect [OF f2] split: if_splits)
  show "trace s1
           = trace s @ (if isValid E (viewport s) then [OpenTransaction, CloseTransaction] else [])"
    using assms(2,3)
    by (auto simp: fadePointerLocked_def Let_def updatePointerLocked_settled_effect [OF f1]
        updatePointerLocked_settled_effect [OF f2] split: if_splits)
qed

lemma fadePointerLocked_viewport:
  "fadePointerLocked E d s = (k, s1) \<Longrightarrow> viewport s1 = viewport s"
  by (auto simp: fadePointerLocked_def Let_def updatePointerLocked_frame split: if_splits)

lemma doFadingAnimationLocked_fading_out:
  assumes dir: "sint (pointerFadeDirection s) < 0"
    and h: "doFadingAnimationLocked E ts s = (k, s')"
  shows "pointerAlpha s'
           = (if fle (fsub (pointerAlpha s)
                        (fdiv (float_of_nsecs (ts - animationTime s)) (FVal 500000000))) (FVal 0)
              then FVal 0
              else fsub (pointerAlpha s)
                     (fdiv (float_of_nsecs (ts - animationTime s)) (FVal 500000000)))"
    and "pointerFadeDirection s'
           = (if fle (fsub (pointerAlpha s)
                        (fdiv (float_of_nsecs (ts - animationTime s)) (FVal 500000000))) (FVal 0)
              then 0 else pointerFadeDirection s)"
    and "k = (\<not> fle (fsub (pointerAlpha s)
                        (fdiv (float_of_nsecs (ts - animationTime s)) (FVal 500000000))) (FVal 0)
              \<or> fadingSpotLeft s')"
    and "flagsSettled E s \<Longrightarrow> animationPending s' = animationPending s"
    and "flagsSettled E s \<Longrightarrow>
         trace s' = trace s @ (if isValid E (viewport s)
                               then [OpenTransaction, CloseTransaction] else [])"
    and "animationResources s' = animationResources s"
    and "requestedPointerType s' = requestedPointerType s"
proof -
  from h obtain k1 s1 m s2 k2 where
    h1: "fadePointerLocked E (ts - animationTime s) s = (k1, s1)" and
    h2: "fadeDisplaysLocked (ts - animationTime s) (spotsByDisplay s) s1 = (m, s2, k2)" and
    r: "k = (k1 \<or> k2)" "s' = s2\<lparr>spotsByDisplay := m\<rparr>" and
    e: "exceptPool s2 = exceptPool s1"
    by (rule doFadingAnimationLocked_parts)
  note f = exceptPool_fields [OF e]
  note p = fadePointerLocked_fading_out [OF dir h1]
  have k2: "k2 = fadingSpotLeft s'"
    using fadeDisplaysLocked_result [OF h2] by (simp add: r fadingSpotLeft_def allSpots_def)
  show "pointerAlpha s'
           = (if fle (fsub (pointerAlpha s)
                        (fdiv (float_of_nsecs (ts - animationTime s)) (FVal 500000000))) (FVal 0)
              then FVal 0
              else fsub (pointerAlpha s)
                     (fdiv (float_of_nsecs (ts - animationTime s)) (FVal 500000000)))"
    and "pointerFadeDirection s'
           = (if fle (fsub (pointerAlpha s)
                        (fdiv (float_of_nsecs (ts - animationTime s)) (FVal 500000000))) (FVal 0)
              then 0 else pointerFadeDirection s)"
    by (simp_all add: r f p)
  show "k = (\<not> fle (fsub (pointerAlpha s)
                        (fdiv (float_of_nsecs (ts - animationTime s)) (FVal 500000000))) (FVal 0)
              \<or> fadingSpotLeft s')"
    by (simp add: r(1) p(3) k2)
  show "animationPending s' = animationPending s" if "flagsSettled E s"
    using fadePointerLocked_pending(1) [OF that dir h1] by (simp add: r f)
  show "trace s' = trace s @ (if isValid E (viewport s)
                               then [OpenTransaction, CloseTransaction] else [])"
    if "flagsSettled E s"
    using fadePointerLocked_pending(2) [OF that dir h1] by (simp add: r f)
  show "animationResources s' = animationResources s"
    and "requestedPointerType s' = requestedPointerType s"
    using fadePointerLocked_frame [OF h1] by (simp_all add: r f)
qed

lemma doBitmapAnimationLocked_keeps:
  "doBitmapAnimationLocked E ts s = Some (k, s') \<Longrightarrow>
   k = (map_of (animationResources s) (requestedPointerType s) \<noteq> None)"
  by (auto simp: doBitmapAnimationLocked_def Let_def split: option.splits if_splits)

lemma doBitmapAnimationLocked_still:
  "map_of (animationResources s) (requestedPointerType s) = None \<Longrightarrow>
   doBitmapAnimationLocked E ts s = Some (False, s)"
  by (simp add: doBitmapAnimationLocked_def)

lemma doBitmapAnimationLocked_trace:
  "doBitmapAnimationLocked E ts s = Some (k, s') \<Longrightarrow>
   trace s' = trace s \<or> trace s' = trace s @ [OpenTransaction, CloseTransaction]"
  by (auto simp: doBitmapAnimationLocked_def emit_def Let_def split: option.splits if_splits)

lemma startAnimationLocked_pending: "animationPending (startAnimationLocked E s)"
  by (simp add: startAnimationLocked_def emit_def)

lemma startAnimationLocked_trace:
  "trace (startAnimationLocked E s)
     = trace s @ (if animationPending s then [] else [RequestNextVsync])"
  by (simp add: startAnimationLocked_def emit_def)

lemma fadingState_tick_value:
  "doAnimate exampleEnv 100000000 fadingState = Some
     \<lparr>animationPending = True, animationTime = 1000000, presentation = POINTER,
      presentationChanged = False, inactivityTimeout = NORMAL, pointerFadeDirection = - 1,
      pointerX = FVal (1079 / 2), pointerY = FVal (1919 / 2),
      pointerAlpha = FVal (13421773 / 16777216),
      pointerSprite = \<lparr>spriteId = 0, spriteLayer = 0, spriteX = FVal (1079 / 2),
        spriteY = FVal (1919 / 2), spriteDisplayId = 0,
        spriteAlpha = FVal (13421773 / 16777216), spriteVisible = True, spriteIcon = Some 4,
        spriteMatrix = (FVal 1, FVal 0, FVal 0, FVal 1)\<rparr>,
      pointerIcon = 4, pointerIconChanged = False, additionalMouseResources = [(1002, 5)],
      animationResources = [], requestedPointerType = 1000, animationFrameIndex = 0,
      lastFrameUpdatedTime = 0, buttonState = 0, viewport = exampleViewport,
      spotsByDisplay = [], recycledSprites = [],
      mResources = \<lparr>spotHover = 1, spotTouch = 2, spotAnchor = 3\<rparr>,
      trace = [OpenTransaction, CloseTransaction, RemoveMessages,
               SendMessageDelayed 15000000000, OpenTransaction, CloseTransaction,
               RemoveMessages, RequestNextVsync, OpenTransaction, CloseTransaction,
               RequestNextVsync],
      spritesCreated = 1, clockReads = 2\<rparr>"
  by code_simp

lemma dimmedState_eq:
  "dimmedState =
     \<lparr>animationPending = True, animationTime = 1000000, presentation = POINTER,
      presentationChanged = False, inactivityTimeout = NORMAL, pointerFadeDirection = - 1,
      pointerX = FVal (1079 / 2), pointerY = FVal (1919 / 2),
      pointerAlpha = FVal (13421773 / 16777216),
      pointerSprite = \<lparr>spriteId = 0, spriteLayer = 0, spriteX = FVal (1079 / 2),
        spriteY = FVal (1919 / 2), spriteDisplayId = 0,
        spriteAlpha = FVal (13421773 / 16777216), spriteVisible = True, spriteIcon = Some 4,
        spriteMatrix = (FVal 1, FVal 0, FVal 0, FVal 1)\<rparr>,
      pointerIcon = 4, pointerIconChanged = False, additionalMouseResources = [(1002, 5)],
      animationResources = [], requestedPointerType = 1000, animationFrameIndex = 0,
      lastFrameUpdatedTime = 0, buttonState = 0, viewport = exampleViewport,
      spotsByDisplay = [], recycledSprites = [],
      mResources = \<lparr>spotHover = 1, spotTouch = 2, spotAnchor = 3\<rparr>,
      trace = [OpenTransaction, CloseTransaction, RemoveMessages,
               SendMessageDelayed 15000000000, OpenTransaction, CloseTransaction,
               RemoveMessages, RequestNextVsync, OpenTransaction, CloseTransaction,
               RequestNextVsync],
      spritesCreated = 1, clockReads = 2\<rparr>"
  by (simp add: dimmedState_def tick_def fadingState_tick_value)

declare dimmedState_eq [code]

lemma fadingState_tick: "doAnimate exampleEnv 100000000 fadingState = Some dimmedState"
  by (simp only: fadingState_tick_value dimmedState_eq)

lemma dimmedState_tick_value:
  "doAnimate exampleEnv 1000000000 dimmedState = Some
     \<lparr>animationPending = False, animationTime = 1000000, presentation = POINTER,
      presentationChanged = False, inactivityTimeout = NORMAL, pointerFadeDirection = 0,
      pointerX = FVal (1079 / 2), pointerY = FVal (1919 / 2), pointerAlpha = FVal 0,
      pointerSprite = \<lparr>spriteId = 0, spriteLayer = 0, spriteX = FVal (1079 / 2),
        spriteY = FVal (1919 / 2), spriteDisplayId = 0,
        spriteAlpha = FVal (13421773 / 16777216), spriteVisible = False, spriteIcon = Some 4,
        spriteMatrix = (FVal 1, FVal 0, FVal 0, FVal 1)\<rparr>,
      pointerIcon = 4, pointerIconChanged = False, additionalMouseResources = [(1002, 5)],
      animationResources = [], requestedPointerType = 1000, animationFrameIndex = 0,
      lastFrameUpdatedTime = 0, buttonState = 0, viewport = exampleViewport,
      spotsByDisplay = [], recycledSprites = [],
      mResources = \<lparr>spotHover = 1, spotTouch = 2, spotAnchor = 3\<rparr>,
      trace = [OpenTransaction, CloseTransaction, RemoveMessages,
               SendMessageDelayed 15000000000, OpenTransaction, CloseTransaction,
               RemoveMessages, RequestNextVsync, OpenTransaction, CloseTransaction,
               RequestNextVsync, OpenTransaction, CloseTransaction],
      spritesCreated = 1, clockReads = 2\<rparr>"
  by code_simp

lemma transparentState_eq:
  "transparentState =
     \<lparr>animationPending = False, animationTime = 1000000, presentation = POINTER,
      presentationChanged = False, inactivityTimeout = NORMAL, pointerFadeDirection = 0,
      pointerX = FVal (1079 / 2), pointerY = FVal (1919 / 2), pointerAlpha = FVal 0,
      pointerSprite = \<lparr>spriteId = 0, spriteLayer = 0, spriteX = FVal (1079 / 2),
        spriteY = FVal (1919 / 2), spriteDisplayId = 0,
        spriteAlpha = FVal (13421773 / 16777216), spriteVisible = False, spriteIcon = Some 4,
        spriteMatrix = (FVal 1, FVal 0, FVal 0, FVal 1)\<rparr>,
      pointerIcon = 4, pointerIconChanged = False, additionalMouseResources = [(1002, 5)],
      animationResources = [], requestedPointerType = 1000, animationFrameIndex = 0,
      lastFrameUpdatedTime = 0, buttonState = 0, viewport = exampleViewport,
      spotsByDisplay = [], recycledSprites = [],
      mResources = \<lparr>spotHover = 1, spotTouch = 2, spotAnchor = 3\<rparr>,
      trace = [OpenTransaction, CloseTransaction, RemoveMessages,
               SendMessageDelayed 15000000000, OpenTransaction, CloseTransaction,
               RemoveMessages, RequestNextVsync, OpenTransaction, CloseTransaction,
               RequestNextVsync, OpenTransaction, CloseTransaction],
      spritesCreated = 1, clockReads = 2\<rparr>"
  by (simp add: transparentState_def tick_def dimmedState_tick_value)

lemma dimmedState_tick: "doAnimate exampleEnv 1000000000 dimmedState = Some transparentState"
  by (simp only: dimmedState_tick_value transparentState_eq)

section \<open>The clamping law\<close>

text \<open>
  C1 (as amended). For every valid viewport, let minX, minY be the \<open>float\<close> values of
  logicalLeft, logicalTop and maxX, maxY those of logicalRight - 1, logicalBottom - 1
  (the values that \<open>getBounds\<close> returns; the conversion is exact up to magnitude 2^24). If
  minX \<le> maxX then after \<open>setPosition(x, y)\<close> with x not a NaN the stored position
  satisfies minX \<le> position.x \<le> maxX, and likewise for y; the viewport is not changed by
  the call. In particular, with the viewport left 0, top 0, width 1080, height 1920,
  \<open>setPosition(2000, 5000)\<close> stores (1079, 1919).
\<close>

theorem setPosition_clamps_to_bounds:
  "(isValid E (viewport s) \<and> x \<noteq> FNaN \<and>
    fle (float_of_int32 (logicalLeft (viewport s)))
        (float_of_int32 (logicalRight (viewport s) - 1))
    \<longrightarrow>
      fle (float_of_int32 (logicalLeft (viewport s))) (pointerX (setPosition E x y s)) \<and>
      fle (pointerX (setPosition E x y s)) (float_of_int32 (logicalRight (viewport s) - 1)))
   \<and>
   (isValid E (viewport s) \<and> y \<noteq> FNaN \<and>
    fle (float_of_int32 (logicalTop (viewport s)))
        (float_of_int32 (logicalBottom (viewport s) - 1))
    \<longrightarrow>
      fle (float_of_int32 (logicalTop (viewport s))) (pointerY (setPosition E x y s)) \<and>
      fle (pointerY (setPosition E x y s)) (float_of_int32 (logicalBottom (viewport s) - 1)))
   \<and>
   viewport (setPosition E x y s) = viewport s
   \<and>
   (\<bar>sint w\<bar> \<le> 2 ^ 24 \<longrightarrow> float_of_int32 w = FVal (real_of_int (sint w)))
   \<and>
   (isValid E (viewport s) \<and>
    logicalLeft (viewport s) = 0 \<and> logicalTop (viewport s) = 0 \<and>
    logicalRight (viewport s) = 1080 \<and> logicalBottom (viewport s) = 1920
    \<longrightarrow> getPosition (setPosition E (FVal 2000) (FVal 5000) s) = (FVal 1079, FVal 1919))"
proof -
  have clamp: "fle lo (if fle a lo then lo else if fge a hi then hi else a) \<and>
               fle (if fle a lo then lo else if fge a hi then hi else a) hi"
    if "a \<noteq> FNaN" "fle lo hi" for a lo hi
  proof -
    from fle_not_NaN [OF that(2)] have n: "lo \<noteq> FNaN" "hi \<noteq> FNaN" by simp_all
    from fle_total [OF that(1) n(1)] fle_total [OF that(1) n(2)] fle_refl [OF n(1)]
      fle_refl [OF n(2)] that(2)
    show ?thesis by (auto simp: fge_def)
  qed
  have px: "pointerX (setPosition E x y s)
      = (if fle x (float_of_int32 (logicalLeft (viewport s)))
         then float_of_int32 (logicalLeft (viewport s))
         else if fge x (float_of_int32 (logicalRight (viewport s) - 1))
         then float_of_int32 (logicalRight (viewport s) - 1) else x)"
    and py: "pointerY (setPosition E x y s)
      = (if fle y (float_of_int32 (logicalTop (viewport s)))
         then float_of_int32 (logicalTop (viewport s))
         else if fge y (float_of_int32 (logicalBottom (viewport s) - 1))
         then float_of_int32 (logicalBottom (viewport s) - 1) else y)"
    if "isValid E (viewport s)"
    using that
    by (simp_all add: setPosition_def setPositionLocked_def getBoundsLocked_def
        updatePointerLocked_frame)
  have a: "fle (float_of_int32 (logicalLeft (viewport s))) (pointerX (setPosition E x y s)) \<and>
      fle (pointerX (setPosition E x y s)) (float_of_int32 (logicalRight (viewport s) - 1))"
    if "isValid E (viewport s)" "x \<noteq> FNaN"
      "fle (float_of_int32 (logicalLeft (viewport s)))
           (float_of_int32 (logicalRight (viewport s) - 1))"
    unfolding px [OF that(1)] by (rule clamp [OF that(2,3)])
  have b: "fle (float_of_int32 (logicalTop (viewport s))) (pointerY (setPosition E x y s)) \<and>
      fle (pointerY (setPosition E x y s)) (float_of_int32 (logicalBottom (viewport s) - 1))"
    if "isValid E (viewport s)" "y \<noteq> FNaN"
      "fle (float_of_int32 (logicalTop (viewport s)))
           (float_of_int32 (logicalBottom (viewport s) - 1))"
    unfolding py [OF that(1)] by (rule clamp [OF that(2,3)])
  have c: "viewport (setPosition E x y s) = viewport s"
    by (simp add: setPosition_def setPositionLocked_def updatePointerLocked_frame
        split: option.splits)
  have d: "\<bar>sint w\<bar> \<le> 2 ^ 24 \<longrightarrow> float_of_int32 w = FVal (real_of_int (sint w))"
    using float_of_int32_exact [of w] by blast
  have e: "getPosition (setPosition E (FVal 2000) (FVal 5000) s) = (FVal 1079, FVal 1919)"
    if "isValid E (viewport s)" "logicalLeft (viewport s) = 0" "logicalTop (viewport s) = 0"
      "logicalRight (viewport s) = 1080" "logicalBottom (viewport s) = 1920"
  proof -
    have f: "float_of_int32 0 = FVal 0" "float_of_int32 1079 = FVal 1079"
      "float_of_int32 1919 = FVal 1919"
      by (simp_all add: float_eval)
    show ?thesis
      using that
      by (simp add: setPosition_def setPositionLocked_def getBoundsLocked_def getPosition_def
          updatePointerLocked_frame f fge_def)
  qed
  from a b c d e show ?thesis by blast
qed

theorem setPosition_clamps_to_bounds_witness:
  "isValid exampleEnv (viewport exampleState) \<and>
   FVal 2000 \<noteq> FNaN \<and> FVal 5000 \<noteq> FNaN \<and>
   float_of_int32 (logicalLeft (viewport exampleState)) = FVal 0 \<and>
   float_of_int32 (logicalRight (viewport exampleState) - 1) = FVal 1079 \<and>
   float_of_int32 (logicalTop (viewport exampleState)) = FVal 0 \<and>
   float_of_int32 (logicalBottom (viewport exampleState) - 1) = FVal 1919 \<and>
   fle (FVal 0) (FVal 1079) \<and> fle (FVal 0) (FVal 1919) \<and>
   logicalLeft (viewport exampleState) = 0 \<and> logicalTop (viewport exampleState) = 0 \<and>
   logicalRight (viewport exampleState) = 1080 \<and> logicalBottom (viewport exampleState) = 1920 \<and>
   fle (FVal 0) (pointerX (setPosition exampleEnv (FVal 2000) (FVal 5000) exampleState)) \<and>
   fle (pointerX (setPosition exampleEnv (FVal 2000) (FVal 5000) exampleState)) (FVal 1079) \<and>
   fle (FVal 0) (pointerY (setPosition exampleEnv (FVal 2000) (FVal 5000) exampleState)) \<and>
   fle (pointerY (setPosition exampleEnv (FVal 2000) (FVal 5000) exampleState)) (FVal 1919) \<and>
   getPosition (setPosition exampleEnv (FVal 2000) (FVal 5000) exampleState)
     = (FVal 1079, FVal 1919) \<and>
   fle (FVal 0) (pointerX (setPosition exampleEnv (FVal (- 3)) FNaN exampleState)) \<and>
   fle (pointerX (setPosition exampleEnv (FVal (- 3)) FNaN exampleState)) (FVal 1079) \<and>
   fle (FVal 0) (pointerX (setPosition exampleEnv FPosInf (FVal 7) exampleState)) \<and>
   fle (pointerX (setPosition exampleEnv FPosInf (FVal 7) exampleState)) (FVal 1079) \<and>
   \<bar>sint (1079 :: int32)\<bar> \<le> 2 ^ 24 \<and>
   float_of_int32 1079 = FVal (real_of_int (sint (1079 :: int32)))"
proof -
  have v: "isValid exampleEnv (viewport exampleState)"
    by (simp add: exampleState_viewport exampleViewport_valid)
  have b: "logicalLeft (viewport exampleState) = 0" "logicalTop (viewport exampleState) = 0"
    "logicalRight (viewport exampleState) = 1080" "logicalBottom (viewport exampleState) = 1920"
    by (simp_all add: exampleState_viewport exampleViewport_def)
  have f: "float_of_int32 (logicalLeft (viewport exampleState)) = FVal 0"
    "float_of_int32 (logicalRight (viewport exampleState) - 1) = FVal 1079"
    "float_of_int32 (logicalTop (viewport exampleState)) = FVal 0"
    "float_of_int32 (logicalBottom (viewport exampleState) - 1) = FVal 1919"
    by (simp_all add: b float_eval)
  have o: "fle (FVal 0) (FVal 1079)" "fle (FVal 0) (FVal 1919)" by simp_all
  have n: "FVal 2000 \<noteq> FNaN" "FVal 5000 \<noteq> FNaN" "FVal (- 3) \<noteq> FNaN" "FPosInf \<noteq> FNaN"
    by simp_all
  have w: "\<bar>sint (1079 :: int32)\<bar> \<le> 2 ^ 24" by simp
  note t1 = setPosition_clamps_to_bounds
    [of exampleEnv exampleState "FVal 2000" "FVal 5000" 1079, unfolded f]
  note t2 = setPosition_clamps_to_bounds
    [of exampleEnv exampleState "FVal (- 3)" FNaN 1079, unfolded f]
  note t3 = setPosition_clamps_to_bounds
    [of exampleEnv exampleState FPosInf "FVal 7" 1079, unfolded f]
  from t1 v n o b w
  have p1: "fle (FVal 0) (pointerX (setPosition exampleEnv (FVal 2000) (FVal 5000) exampleState))"
    "fle (pointerX (setPosition exampleEnv (FVal 2000) (FVal 5000) exampleState)) (FVal 1079)"
    "fle (FVal 0) (pointerY (setPosition exampleEnv (FVal 2000) (FVal 5000) exampleState))"
    "fle (pointerY (setPosition exampleEnv (FVal 2000) (FVal 5000) exampleState)) (FVal 1919)"
    "getPosition (setPosition exampleEnv (FVal 2000) (FVal 5000) exampleState)
       = (FVal 1079, FVal 1919)"
    "float_of_int32 1079 = FVal (real_of_int (sint (1079 :: int32)))"
    by blast+
  from t2 v n o
  have p2: "fle (FVal 0) (pointerX (setPosition exampleEnv (FVal (- 3)) FNaN exampleState))"
    "fle (pointerX (setPosition exampleEnv (FVal (- 3)) FNaN exampleState)) (FVal 1079)"
    by blast+
  from t3 v n o
  have p3: "fle (FVal 0) (pointerX (setPosition exampleEnv FPosInf (FVal 7) exampleState))"
    "fle (pointerX (setPosition exampleEnv FPosInf (FVal 7) exampleState)) (FVal 1079)"
    by blast+
  from v n(1,2) f o b p1 p2 p3 w show ?thesis by blast
qed

text \<open>
  The law as first stated, for every valid viewport and every x, y, with the integers
  logicalRight - 1 and logicalBottom - 1 as upper bounds, fails in three ways. A NaN
  passes both comparisons of \<open>setPositionLocked\<close> and is stored. A viewport with a valid
  display id and logical bounds left 10, right 5 has minX = 10 above maxX = 4, and
  \<open>setPosition(0, 0)\<close> stores x = 10. With logicalRight = 16777220 the bound
  logicalRight - 1 = 16777219 is not a \<open>float\<close>: \<open>getBounds\<close> returns 16777220, and
  \<open>setPosition(20000000, 0)\<close> stores x = 16777220, above logicalRight - 1.
\<close>

theorem setPosition_unclamped_counterexample:
  "isValid exampleEnv (viewport exampleState) \<and>
   pointerX (setPosition exampleEnv FNaN (FVal 0) exampleState) = FNaN \<and>
   \<not> fle (float_of_int32 (logicalLeft (viewport exampleState)))
          (pointerX (setPosition exampleEnv FNaN (FVal 0) exampleState)) \<and>
   \<not> fle (pointerX (setPosition exampleEnv FNaN (FVal 0) exampleState))
          (float_of_int32 (logicalRight (viewport exampleState) - 1)) \<and>
   isValid exampleEnv (viewport degenerateState) \<and>
   float_of_int32 (logicalLeft (viewport degenerateState)) = FVal 10 \<and>
   float_of_int32 (logicalRight (viewport degenerateState) - 1) = FVal 4 \<and>
   pointerX (setPosition exampleEnv (FVal 0) (FVal 0) degenerateState) = FVal 10 \<and>
   \<not> fle (pointerX (setPosition exampleEnv (FVal 0) (FVal 0) degenerateState))
          (float_of_int32 (logicalRight (viewport degenerateState) - 1)) \<and>
   isValid exampleEnv (viewport wideState) \<and>
   isFloat32 (FVal 20000000) \<and>
   sint (logicalRight (viewport wideState) - 1) = 16777219 \<and>
   float_of_int32 (logicalRight (viewport wideState) - 1) = FVal 16777220 \<and>
   pointerX (setPosition exampleEnv (FVal 20000000) (FVal 0) wideState) = FVal 16777220 \<and>
   real_of_int (sint (logicalRight (viewport wideState) - 1))
     < valueOf (pointerX (setPosition exampleEnv (FVal 20000000) (FVal 0) wideState))"
proof -
  have v: "isValid exampleEnv (viewport exampleState)"
    "isValid exampleEnv (viewport degenerateState)"
    "isValid exampleEnv (viewport wideState)"
    by (simp_all add: exampleState_viewport exampleViewport_valid degenerateState_viewport
        degenerateViewport_valid wideState_viewport wideViewport_valid)
  have px: "pointerX (setPosition exampleEnv x y s)
      = (if fle x (float_of_int32 (logicalLeft (viewport s)))
         then float_of_int32 (logicalLeft (viewport s))
         else if fge x (float_of_int32 (logicalRight (viewport s) - 1))
         then float_of_int32 (logicalRight (viewport s) - 1) else x)"
    if "isValid exampleEnv (viewport s)" for x y s
    using that
    by (simp add: setPosition_def setPositionLocked_def getBoundsLocked_def
        updatePointerLocked_frame)
  have f: "float_of_int32 (logicalLeft (viewport degenerateState)) = FVal 10"
    "float_of_int32 (logicalRight (viewport degenerateState) - 1) = FVal 4"
    "float_of_int32 (logicalLeft (viewport wideState)) = FVal 0"
    "float_of_int32 (logicalRight (viewport wideState) - 1) = FVal 16777220"
    "sint (logicalRight (viewport wideState) - 1) = 16777219"
    by (simp_all add: degenerateState_viewport degenerateViewport_def wideState_viewport
        wideViewport_def exampleViewport_def float_eval)
  have i: "isFloat32 (FVal 20000000)" by (simp add: isFloat32_def float_eval)
  have p1: "pointerX (setPosition exampleEnv FNaN (FVal 0) exampleState) = FNaN"
    by (simp add: px [OF v(1)] fge_def)
  have p2: "pointerX (setPosition exampleEnv (FVal 0) (FVal 0) degenerateState) = FVal 10"
    by (simp add: px [OF v(2)] f)
  have p3: "pointerX (setPosition exampleEnv (FVal 20000000) (FVal 0) wideState) = FVal 16777220"
    by (simp add: px [OF v(3)] f fge_def)
  show ?thesis
    by (simp add: v p1 p2 p3 f i valueOf_def)
qed

section \<open>Moving the pointer\<close>

text \<open>
  C9. \<open>move(0, 0)\<close> returns before touching any state: the whole state, with the alpha,
  the position and the trace of rendering calls, is the one before the call.
\<close>

theorem move_zero_is_noop: "move E (FVal 0) (FVal 0) s = s"
  by (simp add: move_def)

theorem move_zero_is_noop_witness:
  "move exampleEnv (FVal 0) (FVal 0) exampleState = exampleState \<and>
   pointerAlpha (move exampleEnv (FVal 0) (FVal 0) exampleState) = pointerAlpha exampleState \<and>
   trace (move exampleEnv (FVal 0) (FVal 0) exampleState) = trace exampleState"
  using move_zero_is_noop [of exampleEnv exampleState] by simp

text \<open>
  C10. For every current position (px, py) and every delta with dx \<noteq> 0 or dy \<noteq> 0
  (the comparison \<open>==\<close> of \<open>float\<close> is false for one of them), \<open>move(dx, dy)\<close> leaves the
  controller in exactly the state in which \<open>setPosition(px + dx, py + dy)\<close> leaves it,
  the sums being those of \<open>float\<close>.
\<close>

theorem move_is_setPosition:
  "\<not> feq dx (FVal 0) \<or> \<not> feq dy (FVal 0) \<Longrightarrow>
   move E dx dy s = setPosition E (fadd (pointerX s) dx) (fadd (pointerY s) dy) s"
  by (auto simp: move_def setPosition_def)

theorem move_is_setPosition_witness:
  "FVal 3 \<noteq> FVal 0 \<and>
   move exampleEnv (FVal 3) (FVal 0) exampleState
     = setPosition exampleEnv (fadd (pointerX exampleState) (FVal 3))
         (fadd (pointerY exampleState) (FVal 0)) exampleState \<and>
   move exampleEnv FNaN (FVal 0) exampleState
     = setPosition exampleEnv (fadd (pointerX exampleState) FNaN)
         (fadd (pointerY exampleState) (FVal 0)) exampleState"
  using move_is_setPosition [of "FVal 3" "FVal 0" exampleEnv exampleState]
    move_is_setPosition [of FNaN "FVal 0" exampleEnv exampleState]
  by simp

section \<open>Immediate fade and unfade\<close>

text \<open>
  C5. In every state of the controller (every reachable state), \<open>fade(IMMEDIATE)\<close> sets the
  pointer alpha to exactly 0 and \<open>unfade(IMMEDIATE)\<close> sets it to exactly 1; each clears the
  fade direction and pushes the state to the pointer sprite before it returns: with a
  valid viewport the sprite is hidden by \<open>fade\<close> and shown with alpha 1 by \<open>unfade\<close>, at the
  pointer position, on the pointer layer of the viewport's display, inside one sprite
  transaction (without a valid viewport the push does nothing). Neither arms an
  animation: \<open>animationPending\<close> keeps its value and the calls that the operation makes
  are the ones to the inactivity timer and the opening and closing of the transaction;
  no vsync is requested.
\<close>

theorem fade_unfade_immediate:
  assumes "reachable E s"
  shows "pointerAlpha (fade E IMMEDIATE s) = FVal 0 \<and>
         pointerFadeDirection (fade E IMMEDIATE s) = 0 \<and>
         fade E IMMEDIATE s
           = updatePointerLocked E
               ((removeInactivityTimeoutLocked s)
                  \<lparr>pointerFadeDirection := 0, pointerAlpha := FVal 0\<rparr>) \<and>
         trace (fade E IMMEDIATE s)
           = trace s @ [RemoveMessages]
               @ (if isValid E (viewport s) then [OpenTransaction, CloseTransaction] else []) \<and>
         animationPending (fade E IMMEDIATE s) = animationPending s \<and>
         (isValid E (viewport s) \<longrightarrow>
            \<not> spriteVisible (pointerSprite (fade E IMMEDIATE s)) \<and>
            spriteAlpha (pointerSprite (fade E IMMEDIATE s)) = spriteAlpha (pointerSprite s) \<and>
            spriteX (pointerSprite (fade E IMMEDIATE s)) = pointerX s \<and>
            spriteY (pointerSprite (fade E IMMEDIATE s)) = pointerY s \<and>
            spriteLayer (pointerSprite (fade E IMMEDIATE s)) = BASE_LAYER_POINTER \<and>
            spriteDisplayId (pointerSprite (fade E IMMEDIATE s)) = displayId (viewport s)) \<and>
         (\<not> isValid E (viewport s) \<longrightarrow>
            pointerSprite (fade E IMMEDIATE s) = pointerSprite s) \<and>
         pointerAlpha (unfade E IMMEDIATE s) = FVal 1 \<and>
         pointerFadeDirection (unfade E IMMEDIATE s) = 0 \<and>
         unfade E IMMEDIATE s
           = updatePointerLocked E
               ((resetInactivityTimeoutLocked s)
                  \<lparr>pointerFadeDirection := 0, pointerAlpha := FVal 1\<rparr>) \<and>
         trace (unfade E IMMEDIATE s)
           = trace s @ [RemoveMessages,
                        SendMessageDelayed
                          (if inactivityTimeout s = SHORT then INACTIVITY_TIMEOUT_DELAY_TIME_SHORT
                           else INACTIVITY_TIMEOUT_DELAY_TIME_NORMAL)]
               @ (if isValid E (viewport s) then [OpenTransaction, CloseTransaction] else []) \<and>
         animationPending (unfade E IMMEDIATE s) = animationPending s \<and>
         (isValid E (viewport s) \<longrightarrow>
            spriteVisible (pointerSprite (unfade E IMMEDIATE s)) \<and>
            spriteAlpha (pointerSprite (unfade E IMMEDIATE s)) = FVal 1 \<and>
            spriteX (pointerSprite (unfade E IMMEDIATE s)) = pointerX s \<and>
            spriteY (pointerSprite (unfade E IMMEDIATE s)) = pointerY s \<and>
            spriteLayer (pointerSprite (unfade E IMMEDIATE s)) = BASE_LAYER_POINTER \<and>
            spriteDisplayId (pointerSprite (unfade E IMMEDIATE s)) = displayId (viewport s)) \<and>
         (\<not> isValid E (viewport s) \<longrightarrow>
            pointerSprite (unfade E IMMEDIATE s) = pointerSprite s)"
proof -
  from assms have fs: "flagsSettled E s" by (simp add: reachable_invariants)
  let ?f = "(removeInactivityTimeoutLocked s)\<lparr>pointerFadeDirection := 0, pointerAlpha := FVal 0\<rparr>"
  let ?u = "(resetInactivityTimeoutLocked s)\<lparr>pointerFadeDirection := 0, pointerAlpha := FVal 1\<rparr>"
  have ff: "flagsSettled E ?f"
    using fs by (simp add: removeInactivityTimeoutLocked_def emit_def flagsSettled_upd)
  have fu: "flagsSettled E ?u"
    using fs by (simp add: resetInactivityTimeoutLocked_def emit_def flagsSettled_upd)
  have e1: "fade E IMMEDIATE s = updatePointerLocked E ?f" by (simp add: fade_def Let_def)
  have e2: "unfade E IMMEDIATE s = updatePointerLocked E ?u" by (simp add: unfade_def Let_def)
  have vf: "viewport ?f = viewport s" "pointerX ?f = pointerX s" "pointerY ?f = pointerY s"
    "pointerSprite ?f = pointerSprite s" "pointerAlpha ?f = FVal 0"
    by (simp_all add: removeInactivityTimeoutLocked_def emit_def)
  have vu: "viewport ?u = viewport s" "pointerX ?u = pointerX s" "pointerY ?u = pointerY s"
    "pointerSprite ?u = pointerSprite s" "pointerAlpha ?u = FVal 1"
    by (simp_all add: resetInactivityTimeoutLocked_def emit_def)
  have a1: "pointerAlpha (fade E IMMEDIATE s) = FVal 0"
    "pointerFadeDirection (fade E IMMEDIATE s) = 0"
    "pointerAlpha (unfade E IMMEDIATE s) = FVal 1"
    "pointerFadeDirection (unfade E IMMEDIATE s) = 0"
    unfolding e1 e2 by (simp_all add: updatePointerLocked_frame)
  have t1: "trace (fade E IMMEDIATE s)
           = trace s @ [RemoveMessages]
               @ (if isValid E (viewport s) then [OpenTransaction, CloseTransaction] else [])"
    "animationPending (fade E IMMEDIATE s) = animationPending s"
    unfolding e1
    by (simp_all add: updatePointerLocked_settled_effect [OF ff])
       (simp_all add: removeInactivityTimeoutLocked_def emit_def)
  have t2: "trace (unfade E IMMEDIATE s)
           = trace s @ [RemoveMessages,
                        SendMessageDelayed
                          (if inactivityTimeout s = SHORT then INACTIVITY_TIMEOUT_DELAY_TIME_SHORT
                           else INACTIVITY_TIMEOUT_DELAY_TIME_NORMAL)]
               @ (if isValid E (viewport s) then [OpenTransaction, CloseTransaction] else [])"
    "animationPending (unfade E IMMEDIATE s) = animationPending s"
    unfolding e2
    by (simp_all add: updatePointerLocked_settled_effect [OF fu])
       (simp_all add: resetInactivityTimeoutLocked_def emit_def)
  have s1: "\<not> spriteVisible (pointerSprite (fade E IMMEDIATE s)) \<and>
            spriteAlpha (pointerSprite (fade E IMMEDIATE s)) = spriteAlpha (pointerSprite s) \<and>
            spriteX (pointerSprite (fade E IMMEDIATE s)) = pointerX s \<and>
            spriteY (pointerSprite (fade E IMMEDIATE s)) = pointerY s \<and>
            spriteLayer (pointerSprite (fade E IMMEDIATE s)) = BASE_LAYER_POINTER \<and>
            spriteDisplayId (pointerSprite (fade E IMMEDIATE s)) = displayId (viewport s)"
    if "isValid E (viewport s)"
  proof -
    from that have "isValid E (viewport ?f)" by (simp add: vf)
    from updatePointerLocked_sprite [OF this] show ?thesis
      unfolding e1 by (simp add: vf fgt_def)
  qed
  have s2: "spriteVisible (pointerSprite (unfade E IMMEDIATE s)) \<and>
            spriteAlpha (pointerSprite (unfade E IMMEDIATE s)) = FVal 1 \<and>
            spriteX (pointerSprite (unfade E IMMEDIATE s)) = pointerX s \<and>
            spriteY (pointerSprite (unfade E IMMEDIATE s)) = pointerY s \<and>
            spriteLayer (pointerSprite (unfade E IMMEDIATE s)) = BASE_LAYER_POINTER \<and>
            spriteDisplayId (pointerSprite (unfade E IMMEDIATE s)) = displayId (viewport s)"
    if "isValid E (viewport s)"
  proof -
    from that have "isValid E (viewport ?u)" by (simp add: vu)
    from updatePointerLocked_sprite [OF this] show ?thesis
      unfolding e2 by (simp add: vu fgt_def)
  qed
  have n1: "pointerSprite (fade E IMMEDIATE s) = pointerSprite s" if "\<not> isValid E (viewport s)"
    unfolding e1 using that by (simp add: updatePointerLocked_invalid vf)
  have n2: "pointerSprite (unfade E IMMEDIATE s) = pointerSprite s" if "\<not> isValid E (viewport s)"
    unfolding e2 using that by (simp add: updatePointerLocked_invalid vu)
  from a1 e1 e2 t1 t2 s1 s2 n1 n2 show ?thesis by blast
qed

theorem fade_unfade_immediate_witness:
  "reachable exampleEnv fadingState \<and>
   isValid exampleEnv (viewport fadingState) \<and>
   pointerAlpha fadingState = FVal 1 \<and>
   pointerFadeDirection fadingState = - 1 \<and>
   spriteVisible (pointerSprite fadingState) \<and>
   animationPending fadingState \<and>
   pointerAlpha (fade exampleEnv IMMEDIATE fadingState) = FVal 0 \<and>
   pointerFadeDirection (fade exampleEnv IMMEDIATE fadingState) = 0 \<and>
   \<not> spriteVisible (pointerSprite (fade exampleEnv IMMEDIATE fadingState)) \<and>
   animationPending (fade exampleEnv IMMEDIATE fadingState) \<and>
   trace (fade exampleEnv IMMEDIATE fadingState)
     = trace fadingState @ [RemoveMessages, OpenTransaction, CloseTransaction] \<and>
   reachable exampleEnv exampleState \<and>
   isValid exampleEnv (viewport exampleState) \<and>
   pointerAlpha exampleState = FVal 0 \<and>
   \<not> spriteVisible (pointerSprite exampleState) \<and>
   \<not> animationPending exampleState \<and>
   pointerAlpha (unfade exampleEnv IMMEDIATE exampleState) = FVal 1 \<and>
   spriteVisible (pointerSprite (unfade exampleEnv IMMEDIATE exampleState)) \<and>
   spriteAlpha (pointerSprite (unfade exampleEnv IMMEDIATE exampleState)) = FVal 1 \<and>
   \<not> animationPending (unfade exampleEnv IMMEDIATE exampleState) \<and>
   pointerFadeDirection (unfade exampleEnv IMMEDIATE fadingState) = 0 \<and>
   pointerAlpha (fade exampleEnv IMMEDIATE freshState) = FVal 0 \<and>
   pointerSprite (fade exampleEnv IMMEDIATE freshState) = pointerSprite freshState"
proof -
  note r1 = fadingState_reachable
  note r2 = exampleState_reachable
  have r3: "reachable exampleEnv freshState" unfolding freshState_def by (rule r_constructor)
  have v1: "isValid exampleEnv (viewport fadingState)"
    by (simp add: fadingState_eq exampleViewport_valid)
  have v2: "isValid exampleEnv (viewport exampleState)"
    by (simp add: exampleState_viewport exampleViewport_valid)
  have v3: "\<not> isValid exampleEnv (viewport freshState)"
    by (simp add: freshState_viewport defaultViewport_invalid)
  have f: "pointerAlpha fadingState = FVal 1" "pointerFadeDirection fadingState = - 1"
    "spriteVisible (pointerSprite fadingState)" "animationPending fadingState"
    by (simp_all add: fadingState_eq)
  have e: "pointerAlpha exampleState = FVal 0" "\<not> spriteVisible (pointerSprite exampleState)"
    "\<not> animationPending exampleState"
    by (simp_all add: exampleState_eq)
  note a = fade_unfade_immediate [OF r1]
  note b = fade_unfade_immediate [OF r2]
  note c = fade_unfade_immediate [OF r3]
  from a v1 f(4) have a1: "pointerAlpha (fade exampleEnv IMMEDIATE fadingState) = FVal 0"
    "pointerFadeDirection (fade exampleEnv IMMEDIATE fadingState) = 0"
    "\<not> spriteVisible (pointerSprite (fade exampleEnv IMMEDIATE fadingState))"
    "animationPending (fade exampleEnv IMMEDIATE fadingState)"
    "pointerFadeDirection (unfade exampleEnv IMMEDIATE fadingState) = 0"
    by blast+
  from a have "trace (fade exampleEnv IMMEDIATE fadingState)
     = trace fadingState @ [RemoveMessages]
         @ (if isValid exampleEnv (viewport fadingState)
            then [OpenTransaction, CloseTransaction] else [])"
    by blast
  with v1 have a2: "trace (fade exampleEnv IMMEDIATE fadingState)
     = trace fadingState @ [RemoveMessages, OpenTransaction, CloseTransaction]"
    by simp
  from b v2 e(3) have b1: "pointerAlpha (unfade exampleEnv IMMEDIATE exampleState) = FVal 1"
    "spriteVisible (pointerSprite (unfade exampleEnv IMMEDIATE exampleState))"
    "spriteAlpha (pointerSprite (unfade exampleEnv IMMEDIATE exampleState)) = FVal 1"
    "\<not> animationPending (unfade exampleEnv IMMEDIATE exampleState)"
    by blast+
  from c v3 have c1: "pointerAlpha (fade exampleEnv IMMEDIATE freshState) = FVal 0"
    "pointerSprite (fade exampleEnv IMMEDIATE freshState) = pointerSprite freshState"
    by blast+
  from r1 v1 f a1 a2 r2 v2 e b1 c1 show ?thesis by blast
qed

section \<open>Changing the display viewport\<close>




section \<open>Invalid viewport and missing icon\<close>

text \<open>
  C8. While the viewport is not valid, \<open>setPosition\<close>, \<open>move\<close>, \<open>setSpots\<close>, \<open>clearSpots\<close>
  and the rendering push leave the whole state as it is. When the push has an icon to
  resolve (the icon or the presentation changed, in POINTER presentation) and the
  requested icon is neither the default one nor in the table of additional icons, it
  logs a warning and shows the default icon; so does \<open>updatePointerIcon\<close> with such an
  icon id, which returns normally with the new id requested.
\<close>

theorem invalid_viewport_noop_and_icon_fallback:
  "(\<not> isValid E (viewport s) \<longrightarrow>
      setPosition E x y s = s \<and> move E dx dy s = s \<and>
      setSpots E coords idx bits d s = s \<and> clearSpots E s = s \<and>
      updatePointerLocked E s = s)
   \<and>
   (isValid E (viewport s) \<and> (pointerIconChanged s \<or> presentationChanged s) \<and>
    presentation s = POINTER \<and>
    requestedPointerType s \<noteq> getDefaultPointerIconId E \<and>
    map_of (additionalMouseResources s) (requestedPointerType s) = None
    \<longrightarrow>
      spriteIcon (pointerSprite (updatePointerLocked E s)) = Some (pointerIcon s) \<and>
      trace (updatePointerLocked E s)
        = trace s @ [OpenTransaction, LogWarning (requestedPointerType s), CloseTransaction])
   \<and>
   (isValid E (viewport s) \<and> presentation s = POINTER \<and>
    i \<noteq> requestedPointerType s \<and> i \<noteq> getDefaultPointerIconId E \<and>
    map_of (additionalMouseResources s) i = None
    \<longrightarrow>
      spriteIcon (pointerSprite (updatePointerIcon E i s)) = Some (pointerIcon s) \<and>
      requestedPointerType (updatePointerIcon E i s) = i \<and>
      trace (updatePointerIcon E i s)
        = trace s @ [OpenTransaction, LogWarning i, CloseTransaction])"
  by (auto simp: setPosition_def setPositionLocked_def getBoundsLocked_def move_def setSpots_def
      clearSpots_def updatePointerIcon_def updatePointerLocked_def updatePointerIconLocked_def
      emit_def Let_def)

theorem invalid_viewport_noop_and_icon_fallback_witness:
  "\<not> isValid exampleEnv (viewport freshState) \<and>
   setPosition exampleEnv (FVal 5) (FVal 7) freshState = freshState \<and>
   move exampleEnv (FVal 1) (FVal 2) freshState = freshState \<and>
   setSpots exampleEnv plainCoords (\<lambda>k. 0) 0x80000000 0 freshState = freshState \<and>
   clearSpots exampleEnv freshState = freshState \<and>
   isValid exampleEnv (viewport exampleState) \<and>
   presentation exampleState = POINTER \<and>
   spriteIcon (pointerSprite (updatePointerIcon exampleEnv 1234 exampleState)) = Some 4 \<and>
   trace (updatePointerIcon exampleEnv 1234 exampleState)
     = [OpenTransaction, CloseTransaction, OpenTransaction, LogWarning 1234, CloseTransaction]"
proof -
  have f: "\<not> isValid exampleEnv (viewport freshState)"
    by (simp add: freshState_viewport defaultViewport_invalid)
  have e: "isValid exampleEnv (viewport exampleState)"
    by (simp add: exampleState_viewport exampleViewport_valid)
  have g: "presentation exampleState = POINTER" "(1234::int32) \<noteq> requestedPointerType exampleState"
    "(1234::int32) \<noteq> getDefaultPointerIconId exampleEnv"
    "map_of (additionalMouseResources exampleState) (1234::int32) = None"
    "pointerIcon exampleState = 4" "trace exampleState = [OpenTransaction, CloseTransaction]"
    by (simp_all add: exampleState_eq) (simp add: exampleEnv_def)
  note a = invalid_viewport_noop_and_icon_fallback
    [of exampleEnv freshState "FVal 5" "FVal 7" "FVal 1" "FVal 2" plainCoords "\<lambda>k. 0" "0x80000000" 0 1234]
  note b = invalid_viewport_noop_and_icon_fallback
    [of exampleEnv exampleState "FVal 5" "FVal 7" "FVal 1" "FVal 2" plainCoords "\<lambda>k. 0" "0x80000000" 0 1234, unfolded g]
  from a f have "setPosition exampleEnv (FVal 5) (FVal 7) freshState = freshState"
    and "move exampleEnv (FVal 1) (FVal 2) freshState = freshState"
    and "setSpots exampleEnv plainCoords (\<lambda>k. 0) 0x80000000 0 freshState = freshState"
    and "clearSpots exampleEnv freshState = freshState"
    by blast+
  moreover from b e g(1-4)
  have "spriteIcon (pointerSprite (updatePointerIcon exampleEnv 1234 exampleState)) = Some 4"
    and "trace (updatePointerIcon exampleEnv 1234 exampleState)
     = [OpenTransaction, CloseTransaction, OpenTransaction, LogWarning 1234, CloseTransaction]"
    by simp_all
  ultimately show ?thesis using f e g(1) by blast
qed

section \<open>Eviction from a full spot list\<close>

text \<open>
  C3. For every spot list that holds \<open>MAX_SPOTS\<close> spots, creating one more spot runs the
  eviction loop exactly once: the victim is the first fading spot (id \<open>INVALID_ID\<close>) in
  list order if there is one and the spot at index 0 otherwise, the list keeps the other
  spots in their order, the victim goes through \<open>releaseSpotLocked\<close>, and the new spot is
  appended with a sprite taken from the pool as the release left it (or a new sprite),
  so the list holds \<open>MAX_SPOTS\<close> spots again. When no spot is fading the victim is the
  spot at index 0, the earliest created one.
\<close>

theorem createAndAddSpot_evicts_one:
  assumes "length spots = MAX_SPOTS"
  shows
    "evictSpots spots s = (withoutVictim spots, releaseSpotLocked (evictionVictim spots) s) \<and>
     length (withoutVictim spots) = MAX_SPOTS - 1 \<and>
     createAndAddSpotLocked E i spots s =
       (if recycledSprites (releaseSpotLocked (evictionVictim spots) s) \<noteq> []
        then (withoutVictim spots
                @ [newSpot i (last (recycledSprites (releaseSpotLocked (evictionVictim spots) s)))],
              (releaseSpotLocked (evictionVictim spots) s)
                \<lparr>recycledSprites :=
                   butlast (recycledSprites (releaseSpotLocked (evictionVictim spots) s))\<rparr>)
        else (withoutVictim spots
                @ [newSpot i (createSprite E
                     (spritesCreated (releaseSpotLocked (evictionVictim spots) s)))],
              (releaseSpotLocked (evictionVictim spots) s)
                \<lparr>spritesCreated :=
                   Suc (spritesCreated (releaseSpotLocked (evictionVictim spots) s))\<rparr>)) \<and>
     length (fst (createAndAddSpotLocked E i spots s)) = MAX_SPOTS \<and>
     ((\<forall>sp\<in>set spots. spotId sp \<noteq> INVALID_ID) \<longrightarrow>
        evictionVictim spots = spots ! 0 \<and> withoutVictim spots = tl spots)"
proof -
  from assms have ne: "spots \<noteq> []" by (auto simp: MAX_SPOTS_def)
  have pos: "0 < MAX_SPOTS" by (simp add: MAX_SPOTS_def)
  note e = evictSpots_at_capacity [OF assms, of s]
  from withoutVictim_length [OF ne] assms have l: "length (withoutVictim spots) = MAX_SPOTS - 1"
    by simp
  have c: "createAndAddSpotLocked E i spots s =
       (if recycledSprites (releaseSpotLocked (evictionVictim spots) s) \<noteq> []
        then (withoutVictim spots
                @ [newSpot i (last (recycledSprites (releaseSpotLocked (evictionVictim spots) s)))],
              (releaseSpotLocked (evictionVictim spots) s)
                \<lparr>recycledSprites :=
                   butlast (recycledSprites (releaseSpotLocked (evictionVictim spots) s))\<rparr>)
        else (withoutVictim spots
                @ [newSpot i (createSprite E
                     (spritesCreated (releaseSpotLocked (evictionVictim spots) s)))],
              (releaseSpotLocked (evictionVictim spots) s)
                \<lparr>spritesCreated :=
                   Suc (spritesCreated (releaseSpotLocked (evictionVictim spots) s))\<rparr>))"
    by (simp add: createAndAddSpotLocked_def e)
  have l2: "length (fst (createAndAddSpotLocked E i spots s)) = MAX_SPOTS"
    using l pos by (simp add: c)
  have sc: "evictionVictim spots = spots ! 0 \<and> withoutVictim spots = tl spots"
    if "\<forall>sp\<in>set spots. spotId sp \<noteq> INVALID_ID"
  proof -
    from that have "find (\<lambda>sp. spotId sp = INVALID_ID) spots = None"
      by (simp add: find_None_iff)
    then show ?thesis by (simp add: evictionVictim_def withoutVictim_def)
  qed
  from e l c l2 sc show ?thesis by blast
qed

theorem createAndAddSpot_evicts_one_witness:
  "length twelveSpots = MAX_SPOTS \<and>
   map spotId twelveSpots = [0, 1, 2, 3, 4, 5, 6, 7, 8, 9, 10, 11] \<and>
   map spotId (fst (createAndAddSpotLocked exampleEnv 12 twelveSpots exampleState))
     = [1, 2, 3, 4, 5, 6, 7, 8, 9, 10, 11, 12] \<and>
   length twelveSpotsOneFading = MAX_SPOTS \<and>
   map spotId twelveSpotsOneFading = [0, 1, 2, 3, 4, INVALID_ID, 6, 7, 8, 9, 10, 11] \<and>
   map spotId (fst (createAndAddSpotLocked exampleEnv 12 twelveSpotsOneFading exampleState))
     = [0, 1, 2, 3, 4, 6, 7, 8, 9, 10, 11, 12] \<and>
   map (\<lambda>(d, spots). (d, map spotId spots)) (spotsByDisplay thirteen)
     = [(0, [1, 2, 3, 4, 5, 6, 7, 8, 9, 10, 11, 12])]"
proof -
  have l: "length twelveSpots = MAX_SPOTS" "length twelveSpotsOneFading = MAX_SPOTS"
    by (simp_all add: twelveSpots_def twelveSpotsOneFading_def MAX_SPOTS_def)
  have m: "map spotId twelveSpots = [0, 1, 2, 3, 4, 5, 6, 7, 8, 9, 10, 11]"
    "map spotId twelveSpotsOneFading = [0, 1, 2, 3, 4, INVALID_ID, 6, 7, 8, 9, 10, 11]"
    by (simp_all add: twelveSpots_def twelveSpotsOneFading_def newSpot_def)
  have w1: "map spotId (withoutVictim twelveSpots) = [1, 2, 3, 4, 5, 6, 7, 8, 9, 10, 11]"
    by (simp add: withoutVictim_def twelveSpots_def newSpot_def INVALID_ID_def)
  have w2: "map spotId (withoutVictim twelveSpotsOneFading) = [0, 1, 2, 3, 4, 6, 7, 8, 9, 10, 11]"
    by (simp add: withoutVictim_def twelveSpots_def twelveSpotsOneFading_def newSpot_def
        INVALID_ID_def)
  have a: "map spotId (fst (createAndAddSpotLocked exampleEnv 12 twelveSpots exampleState))
     = [1, 2, 3, 4, 5, 6, 7, 8, 9, 10, 11, 12]"
    using createAndAddSpot_evicts_one [OF l(1), of exampleState exampleEnv 12]
    by (simp add: w1 newSpot_def split: if_splits)
  have b: "map spotId (fst (createAndAddSpotLocked exampleEnv 12 twelveSpotsOneFading exampleState))
     = [0, 1, 2, 3, 4, 6, 7, 8, 9, 10, 11, 12]"
    using createAndAddSpot_evicts_one [OF l(2), of exampleState exampleEnv 12]
    by (simp add: w2 newSpot_def split: if_splits)
  have t: "map (\<lambda>(d, spots). (d, map spotId spots)) (spotsByDisplay thirteen)
     = [(0, [1, 2, 3, 4, 5, 6, 7, 8, 9, 10, 11, 12])]"
    by code_simp
  from l m a b t show ?thesis by blast
qed


section \<open>The pool of recycled sprites\<close>

text \<open>
  C7. Releasing a spot clears the icon of its sprite and appends the sprite to the pool
  if and only if the pool holds fewer than \<open>MAX_RECYCLED_SPRITES\<close> sprites; otherwise the
  pool is left as it is. In every reachable state the pool holds at most
  \<open>MAX_RECYCLED_SPRITES\<close> sprites. An animation step erases exactly the spots that it
  fades out and sends their sprites, icons cleared, to the pool in iteration order as
  far as the pool has room; when the room suffices for all of them, the sprite of every
  faded-out spot is in the pool after the step.
\<close>

theorem recycle_pool_bounded:
  "(recycledSprites (releaseSpotLocked spot s)
      = (if length (recycledSprites s) < MAX_RECYCLED_SPRITES
         then recycledSprites s @ [clearIcon (spotSprite spot)]
         else recycledSprites s) \<and>
    spriteIcon (clearIcon (spotSprite spot)) = None \<and>
    spriteId (clearIcon (spotSprite spot)) = spriteId (spotSprite spot))
   \<and>
   (reachable E s \<longrightarrow> length (recycledSprites s) \<le> MAX_RECYCLED_SPRITES)
   \<and>
   (doAnimate E ts s = Some s' \<longrightarrow>
      recycledSprites s'
        = recycledSprites s
            @ take (MAX_RECYCLED_SPRITES - length (recycledSprites s))
                (map (\<lambda>sp. clearIcon (spotSprite sp))
                   (filter (fadedOut (ts - animationTime s)) (allSpots s))) \<and>
      length (allSpots s')
        = length (filter (\<lambda>sp. \<not> fadedOut (ts - animationTime s) sp) (allSpots s)) \<and>
      (\<forall>sp\<in>set (allSpots s'). spotId sp = INVALID_ID \<longrightarrow> \<not> fle (spotAlpha sp) (FVal 0)) \<and>
      (length (recycledSprites s)
         + length (filter (fadedOut (ts - animationTime s)) (allSpots s))
           \<le> MAX_RECYCLED_SPRITES \<longrightarrow>
         (\<forall>sp\<in>set (allSpots s). fadedOut (ts - animationTime s) sp \<longrightarrow>
            clearIcon (spotSprite sp) \<in> set (recycledSprites s'))))"
proof -
  have a: "recycledSprites (releaseSpotLocked spot s)
      = (if length (recycledSprites s) < MAX_RECYCLED_SPRITES
         then recycledSprites s @ [clearIcon (spotSprite spot)]
         else recycledSprites s) \<and>
    spriteIcon (clearIcon (spotSprite spot)) = None \<and>
    spriteId (clearIcon (spotSprite spot)) = spriteId (spotSprite spot)"
    by (simp add: releaseSpotLocked_def clearIcon_def Let_def)
  have b: "length (recycledSprites s) \<le> MAX_RECYCLED_SPRITES" if "reachable E s"
    using reachable_invariants [OF that] by (simp add: poolBounded_def)
  have c: "\<forall>sp\<in>set (allSpots s). fadedOut (ts - animationTime s) sp \<longrightarrow>
            clearIcon (spotSprite sp) \<in> set (recycledSprites s')"
    if h: "doAnimate E ts s = Some s'"
      and room: "length (recycledSprites s)
         + length (filter (fadedOut (ts - animationTime s)) (allSpots s))
           \<le> MAX_RECYCLED_SPRITES"
  proof -
    from room have "take (MAX_RECYCLED_SPRITES - length (recycledSprites s))
                (map (\<lambda>sp. clearIcon (spotSprite sp))
                   (filter (fadedOut (ts - animationTime s)) (allSpots s)))
        = map (\<lambda>sp. clearIcon (spotSprite sp))
                   (filter (fadedOut (ts - animationTime s)) (allSpots s))"
      by simp
    with doAnimate_spots(1) [OF h] show ?thesis by simp
  qed
  have d: "doAnimate E ts s = Some s' \<longrightarrow>
      recycledSprites s'
        = recycledSprites s
            @ take (MAX_RECYCLED_SPRITES - length (recycledSprites s))
                (map (\<lambda>sp. clearIcon (spotSprite sp))
                   (filter (fadedOut (ts - animationTime s)) (allSpots s))) \<and>
      length (allSpots s')
        = length (filter (\<lambda>sp. \<not> fadedOut (ts - animationTime s) sp) (allSpots s)) \<and>
      (\<forall>sp\<in>set (allSpots s'). spotId sp = INVALID_ID \<longrightarrow> \<not> fle (spotAlpha sp) (FVal 0)) \<and>
      (length (recycledSprites s)
         + length (filter (fadedOut (ts - animationTime s)) (allSpots s))
           \<le> MAX_RECYCLED_SPRITES \<longrightarrow>
         (\<forall>sp\<in>set (allSpots s). fadedOut (ts - animationTime s) sp \<longrightarrow>
            clearIcon (spotSprite sp) \<in> set (recycledSprites s')))"
  proof
    assume h: "doAnimate E ts s = Some s'"
    show "recycledSprites s'
        = recycledSprites s
            @ take (MAX_RECYCLED_SPRITES - length (recycledSprites s))
                (map (\<lambda>sp. clearIcon (spotSprite sp))
                   (filter (fadedOut (ts - animationTime s)) (allSpots s))) \<and>
      length (allSpots s')
        = length (filter (\<lambda>sp. \<not> fadedOut (ts - animationTime s) sp) (allSpots s)) \<and>
      (\<forall>sp\<in>set (allSpots s'). spotId sp = INVALID_ID \<longrightarrow> \<not> fle (spotAlpha sp) (FVal 0)) \<and>
      (length (recycledSprites s)
         + length (filter (fadedOut (ts - animationTime s)) (allSpots s))
           \<le> MAX_RECYCLED_SPRITES \<longrightarrow>
         (\<forall>sp\<in>set (allSpots s). fadedOut (ts - animationTime s) sp \<longrightarrow>
            clearIcon (spotSprite sp) \<in> set (recycledSprites s')))"
      by (intro conjI impI)
         (rule doAnimate_spots(1) [OF h], rule doAnimate_spots(2) [OF h],
          rule doAnimate_spots(3) [OF h], rule c [OF h], assumption)
  qed
  have b': "reachable E s \<longrightarrow> length (recycledSprites s) \<le> MAX_RECYCLED_SPRITES"
    using b by blast
  show ?thesis by (rule conjI [OF a conjI [OF b' d]])
qed


lemma liftedState_tick: "doAnimate exampleEnv 100000000 liftedState = Some halfFadedState"
  unfolding halfFadedState_def by code_simp

lemma halfFadedState_tick: "doAnimate exampleEnv 300000000 halfFadedState = Some fadedState"
  unfolding fadedState_def by code_simp

lemma fadedState_reachable: "reachable exampleEnv fadedState"
proof -
  have "reachable exampleEnv touchedState"
    unfolding touchedState_def by (rule r_setSpots) (rule exampleState_reachable)
  then have "reachable exampleEnv liftedState"
    unfolding liftedState_def by (rule r_setSpots)
  then have "reachable exampleEnv halfFadedState"
    by (rule r_doAnimate) (rule liftedState_tick)
  then show ?thesis by (rule r_doAnimate) (rule halfFadedState_tick)
qed

theorem recycle_pool_bounded_witness:
  "reachable exampleEnv fadedState \<and>
   length (recycledSprites fadedState) \<le> MAX_RECYCLED_SPRITES \<and>
   map spotId (allSpots touchedState) = [1] \<and>
   map (\<lambda>sp. spriteId (spotSprite sp)) (allSpots touchedState) = [1] \<and>
   map spotId (allSpots liftedState) = [INVALID_ID] \<and>
   map spotAlpha (allSpots liftedState) = [FVal 1] \<and>
   map spotAlpha (allSpots halfFadedState) = [FVal (1 / 2)] \<and>
   recycledSprites halfFadedState = [] \<and>
   doAnimate exampleEnv 300000000 halfFadedState = Some fadedState \<and>
   length (allSpots fadedState) = 0 \<and>
   map spriteId (recycledSprites fadedState) = [1] \<and>
   map spriteIcon (recycledSprites fadedState) = [None]"
proof -
  note r = fadedState_reachable
  note t = halfFadedState_tick
  have f: "filter (fadedOut (300000000 - animationTime halfFadedState)) (allSpots halfFadedState)
             = allSpots halfFadedState"
    by code_simp
  have e: "recycledSprites halfFadedState = []" by code_simp
  have g: "map spotId (allSpots touchedState) = [1]"
    "map (\<lambda>sp. spriteId (spotSprite sp)) (allSpots touchedState) = [1]"
    "map spotId (allSpots liftedState) = [INVALID_ID]"
    "map spotAlpha (allSpots liftedState) = [FVal 1]"
    "map spotAlpha (allSpots halfFadedState) = [FVal (1 / 2)]"
    "map (\<lambda>sp. spriteId (spotSprite sp)) (allSpots halfFadedState) = [1]"
    by code_simp+
  note a = recycle_pool_bounded [of undefined fadedState exampleEnv 0 fadedState]
  note b = recycle_pool_bounded
    [of undefined halfFadedState exampleEnv 300000000 fadedState, unfolded f e]
  from a r have p1: "length (recycledSprites fadedState) \<le> MAX_RECYCLED_SPRITES" by blast
  from b t have p2: "recycledSprites fadedState
      = [] @ take (MAX_RECYCLED_SPRITES - length ([] :: Sprite list))
               (map (\<lambda>sp. clearIcon (spotSprite sp)) (allSpots halfFadedState))"
    and p3: "length (allSpots fadedState)
      = length (filter (\<lambda>sp. \<not> fadedOut (300000000 - animationTime halfFadedState) sp)
          (allSpots halfFadedState))"
    by blast+
  from f have "filter (\<lambda>sp. \<not> fadedOut (300000000 - animationTime halfFadedState) sp)
          (allSpots halfFadedState) = []"
    by (simp add: filter_empty_conv filter_id_conv)
  with p3 have p4: "length (allSpots fadedState) = 0" by simp
  have l: "length (allSpots halfFadedState) = 1" using g(5) by (metis length_map length_Cons list.size(3) One_nat_def)
  from p2 l have p5: "recycledSprites fadedState
      = map (\<lambda>sp. clearIcon (spotSprite sp)) (allSpots halfFadedState)"
    by (simp add: MAX_RECYCLED_SPRITES_def)
  from l obtain sp where sp: "allSpots halfFadedState = [sp]"
    by (cases "allSpots halfFadedState") auto
  have p6: "map spriteId (recycledSprites fadedState) = [1]"
    "map spriteIcon (recycledSprites fadedState) = [None]"
    using g(6) by (simp_all add: p5 sp clearIcon_def)
  from r p1 g e t p4 p6 show ?thesis by blast
qed

section \<open>Gradual fade\<close>

text \<open>
  C4 (as amended). \<open>fade(GRADUAL)\<close> sets the fade direction to -1, arms the animation and
  leaves the alpha as it is. Then every animation step with a positive elapsed time (the
  timestamp minus the time at which the animation was armed, in nanoseconds) replaces
  the pointer alpha by alpha - elapsed / \<open>POINTER_FADE_DURATION\<close> as \<open>float\<close> computes it
  (the conversion of the elapsed time, the division by 500 ms and the subtraction each
  round to nearest), or by exactly 0 if that is 0 or below. For an alpha in [0, 1] the
  new alpha is within 2^-20 of max(0, alpha - elapsed / 500 ms) taken exactly, it does
  not exceed the old alpha (a \<open>float\<close>), and it is strictly smaller whenever alpha > 0
  and the elapsed time is at least 15 ns. While the alpha stays above 0 the direction is
  kept and the next step is requested. When the alpha reaches exactly 0 the fade
  direction is cleared and the pointer branch of the fading step does not ask for
  another step; \<open>doFadingAnimationLocked\<close> as a whole asks for one only if a spot is still
  fading, and \<open>doAnimate\<close> also when the requested icon is animated; \<open>doAnimate\<close> requests
  a vsync exactly when it leaves the animation pending, and it returns whenever the
  requested icon is not animated. Stated for the reachable states of the controller.
\<close>

theorem gradual_fade_tick:
  assumes "reachable E s"
    and "sint (pointerFadeDirection s) < 0"
    and "0 < sint (ts - animationTime s)"
  shows
    "pointerFadeDirection (fade E GRADUAL s0) = - 1 \<and>
     animationPending (fade E GRADUAL s0) \<and>
     pointerAlpha (fade E GRADUAL s0) = pointerAlpha s0 \<and>
     float_of_nsecs POINTER_FADE_DURATION = FVal 500000000 \<and>
     (let step = doFadingAnimationLocked E ts (s\<lparr>animationPending := False\<rparr>);
          keepFading = fst step;
          s1 = snd step;
          a = fsub (pointerAlpha s)
                (fdiv (float_of_nsecs (ts - animationTime s))
                      (float_of_nsecs POINTER_FADE_DURATION))
      in pointerAlpha s1 = (if fle a (FVal 0) then FVal 0 else a) \<and>
         (pointerAlpha s = FVal \<alpha> \<and> 0 \<le> \<alpha> \<and> \<alpha> \<le> 1 \<longrightarrow>
            isFinite (pointerAlpha s1) \<and>
            0 \<le> valueOf (pointerAlpha s1) \<and>
            \<bar>valueOf (pointerAlpha s1)
               - max 0 (\<alpha> - real_of_int (sint (ts - animationTime s)) / 500000000)\<bar>
              \<le> 1 / 2 ^ 20 \<and>
            (isFloat32 (pointerAlpha s) \<longrightarrow> valueOf (pointerAlpha s1) \<le> \<alpha>) \<and>
            (15 \<le> sint (ts - animationTime s) \<and> 0 < \<alpha> \<longrightarrow>
               valueOf (pointerAlpha s1) < \<alpha>)) \<and>
         (pointerAlpha s1 \<noteq> FVal 0 \<longrightarrow>
            pointerFadeDirection s1 = pointerFadeDirection s \<and> keepFading) \<and>
         (pointerAlpha s1 = FVal 0 \<longrightarrow>
            pointerFadeDirection s1 = 0 \<and>
            \<not> fst (fadePointerLocked E (ts - animationTime s) (s\<lparr>animationPending := False\<rparr>)) \<and>
            keepFading = fadingSpotLeft s1) \<and>
         (map_of (animationResources s) (requestedPointerType s) = None \<longrightarrow>
            doAnimate E ts s = Some (if keepFading then startAnimationLocked E s1 else s1) \<and>
            trace (if keepFading then startAnimationLocked E s1 else s1)
              = trace s
                  @ (if isValid E (viewport s) then [OpenTransaction, CloseTransaction] else [])
                  @ (if keepFading then [RequestNextVsync] else [])) \<and>
         (doAnimate E ts s = Some s' \<longrightarrow>
            pointerAlpha s' = pointerAlpha s1 \<and>
            pointerFadeDirection s' = pointerFadeDirection s1 \<and>
            animationPending s'
              = (keepFading \<or> map_of (animationResources s) (requestedPointerType s) \<noteq> None) \<and>
            (pointerAlpha s' = FVal 0 \<longrightarrow>
               animationPending s'
                 = (fadingSpotLeft s'
                    \<or> map_of (animationResources s) (requestedPointerType s) \<noteq> None)) \<and>
            animationPending s'
              = (RequestNextVsync \<in> set (drop (length (trace s)) (trace s')))))"
proof -
  let ?s0 = "s\<lparr>animationPending := False\<rparr>"
  let ?d = "ts - animationTime s"
  let ?a = "fsub (pointerAlpha s) (fdiv (float_of_nsecs ?d) (FVal 500000000))"
  obtain kf s1 where h1: "doFadingAnimationLocked E ts ?s0 = (kf, s1)"
    by (cases "doFadingAnimationLocked E ts ?s0")
  from assms(1) have fs: "flagsSettled E ?s0"
    by (simp add: reachable_invariants flagsSettled_upd)
  note f = doFadingAnimationLocked_fading_out [of ?s0 E ts kf s1, simplified, OF assms(2) h1]
  note fp = f(4) [OF fs]
  note ft = f(5) [OF fs]
  obtain kp sp1 where hp: "fadePointerLocked E ?d ?s0 = (kp, sp1)"
    by (cases "fadePointerLocked E ?d ?s0")
  have kp: "kp = (\<not> fle ?a (FVal 0))"
    using fadePointerLocked_fading_out(3) [OF _ hp] assms(2) by simp
  have g: "pointerFadeDirection (fade E GRADUAL s0) = - 1"
    "animationPending (fade E GRADUAL s0)"
    "pointerAlpha (fade E GRADUAL s0) = pointerAlpha s0"
    by (simp_all add: fade_def Let_def startAnimationLocked_pending startAnimationLocked_frame
        removeInactivityTimeoutLocked_def emit_def)
  note pd = POINTER_FADE_DURATION_float
  have al: "pointerAlpha s1 = (if fle ?a (FVal 0) then FVal 0 else ?a)" using f(1) by simp
  have z: "(pointerAlpha s1 = FVal 0) = fle ?a (FVal 0)"
    unfolding al by (cases "fle ?a (FVal 0)") auto
  have num: "isFinite (pointerAlpha s1) \<and>
            0 \<le> valueOf (pointerAlpha s1) \<and>
            \<bar>valueOf (pointerAlpha s1)
               - max 0 (\<alpha> - real_of_int (sint ?d) / 500000000)\<bar> \<le> 1 / 2 ^ 20 \<and>
            (isFloat32 (pointerAlpha s) \<longrightarrow> valueOf (pointerAlpha s1) \<le> \<alpha>) \<and>
            (15 \<le> sint ?d \<and> 0 < \<alpha> \<longrightarrow> valueOf (pointerAlpha s1) < \<alpha>)"
    if a: "pointerAlpha s = FVal \<alpha>" "0 \<le> \<alpha>" "\<alpha> \<le> 1"
  proof -
    from fade_step_numeric [OF a(2,3) assms(3)] obtain av where
      av: "fsub (FVal \<alpha>) (fdiv (float_of_nsecs ?d) (FVal 500000000)) = FVal av"
      and e: "\<bar>max 0 av - max 0 (\<alpha> - real_of_int (sint ?d) / 500000000)\<bar> \<le> 1 / 2 ^ 20"
      and st: "15 \<le> sint ?d \<Longrightarrow> 0 < \<alpha> \<Longrightarrow> max 0 av < \<alpha>"
      and mo: "round32 \<alpha> = FVal \<alpha> \<Longrightarrow> av \<le> \<alpha>"
      by blast
    have v: "pointerAlpha s1 = FVal (max 0 av)"
      unfolding al a(1) av by (simp add: max_def)
    have m: "valueOf (pointerAlpha s1) \<le> \<alpha>" if "isFloat32 (pointerAlpha s)"
    proof -
      from that have "round32 \<alpha> = FVal \<alpha>" by (simp add: isFloat32_def a(1))
      from mo [OF this] a(2) show ?thesis by (simp add: v valueOf_def max_def)
    qed
    from e st m show ?thesis by (simp add: v valueOf_def isFinite_def del: of_int_sint)
  qed
  have up: "pointerFadeDirection s1 = pointerFadeDirection s \<and> kf"
    if "pointerAlpha s1 \<noteq> FVal 0"
    using that z by (simp add: f(2) f(3))
  have dn: "pointerFadeDirection s1 = 0 \<and> \<not> kp \<and> kf = fadingSpotLeft s1"
    if "pointerAlpha s1 = FVal 0"
    using that z by (simp add: f(2) f(3) kp)
  have still: "doAnimate E ts s = Some (if kf then startAnimationLocked E s1 else s1) \<and>
            trace (if kf then startAnimationLocked E s1 else s1)
              = trace s
                  @ (if isValid E (viewport s) then [OpenTransaction, CloseTransaction] else [])
                  @ (if kf then [RequestNextVsync] else [])"
    if n: "map_of (animationResources s) (requestedPointerType s) = None"
  proof -
    from n have "map_of (animationResources s1) (requestedPointerType s1) = None"
      by (simp add: f(6) f(7))
    from doBitmapAnimationLocked_still [OF this]
    have "doAnimate E ts s = Some (if kf then startAnimationLocked E s1 else s1)"
      by (simp add: doAnimate_def Let_def h1)
    moreover have "trace (if kf then startAnimationLocked E s1 else s1)
              = trace s
                  @ (if isValid E (viewport s) then [OpenTransaction, CloseTransaction] else [])
                  @ (if kf then [RequestNextVsync] else [])"
      using fp ft by (simp add: startAnimationLocked_trace)
    ultimately show ?thesis by blast
  qed
  have gen: "pointerAlpha s' = pointerAlpha s1 \<and>
            pointerFadeDirection s' = pointerFadeDirection s1 \<and>
            animationPending s'
              = (kf \<or> map_of (animationResources s) (requestedPointerType s) \<noteq> None) \<and>
            (pointerAlpha s' = FVal 0 \<longrightarrow>
               animationPending s'
                 = (fadingSpotLeft s'
                    \<or> map_of (animationResources s) (requestedPointerType s) \<noteq> None)) \<and>
            animationPending s'
              = (RequestNextVsync \<in> set (drop (length (trace s)) (trace s')))"
    if h: "doAnimate E ts s = Some s'"
  proof -
    from h obtain kf' s1' kb s2 where
      h1': "doFadingAnimationLocked E ts ?s0 = (kf', s1')" and
      h2: "doBitmapAnimationLocked E ts s1' = Some (kb, s2)" and
      r': "s' = (if kf' \<or> kb then startAnimationLocked E s2 else s2)"
      by (rule doAnimate_parts)
    from h1 h1' have eq: "kf' = kf" "s1' = s1" by simp_all
    note h2 = h2 [unfolded eq]
    note r = r' [unfolded eq]
    note b = doBitmapAnimationLocked_frame [OF h2]
    note sa = exceptAnimation_fields [OF startAnimationLocked_exceptAnimation [of E s2]]
    have p1: "pointerAlpha s' = pointerAlpha s1" "pointerFadeDirection s' = pointerFadeDirection s1"
      "fadingSpotLeft s' = fadingSpotLeft s1"
      by (simp_all add: r sa b fadingSpotLeft_def allSpots_def)
    have kb: "kb = (map_of (animationResources s) (requestedPointerType s) \<noteq> None)"
      using doBitmapAnimationLocked_keeps [OF h2] by (simp add: f)
    have np: "\<not> animationPending s2" by (simp add: b fp)
    have pe: "animationPending s' = (kf \<or> kb)"
      using np by (simp add: r startAnimationLocked_pending)
    have p2: "animationPending s'
                 = (fadingSpotLeft s'
                    \<or> map_of (animationResources s) (requestedPointerType s) \<noteq> None)"
      if "pointerAlpha s' = FVal 0"
      using that dn by (simp add: p1 pe kb)
    have t2: "trace s2 = trace s1 \<or> trace s2 = trace s1 @ [OpenTransaction, CloseTransaction]"
      by (rule doBitmapAnimationLocked_trace [OF h2])
    have n2: "RequestNextVsync \<notin> set (drop (length (trace s)) (trace s2))"
      using t2 ft by auto
    have ts': "trace s' = trace s2 @ (if kf \<or> kb then [RequestNextVsync] else [])"
      using np by (simp add: r startAnimationLocked_trace)
    have l: "length (trace s) \<le> length (trace s2)" using t2 ft by auto
    have p3: "animationPending s' = (RequestNextVsync \<in> set (drop (length (trace s)) (trace s')))"
      using n2 l by (simp add: ts' pe)
    from p1 pe kb p2 p3 show ?thesis by blast
  qed
  have k1: "fst (doFadingAnimationLocked E ts ?s0) = kf" "snd (doFadingAnimationLocked E ts ?s0) = s1"
    by (simp_all add: h1)
  have kp1: "fst (fadePointerLocked E ?d ?s0) = kp" by (simp add: hp)
  show ?thesis
    unfolding Let_def k1 kp1 pd
    using g al num up dn still gen by blast
qed

theorem gradual_fade_tick_witness:
  "reachable exampleEnv fadingState \<and>
   sint (pointerFadeDirection fadingState) < 0 \<and>
   0 < sint (100000000 - animationTime fadingState) \<and>
   15 \<le> sint (100000000 - animationTime fadingState) \<and>
   pointerAlpha fadingState = FVal 1 \<and>
   isFloat32 (pointerAlpha fadingState) \<and>
   map_of (animationResources fadingState) (requestedPointerType fadingState) = None \<and>
   doAnimate exampleEnv 100000000 fadingState = Some dimmedState \<and>
   pointerAlpha dimmedState = FVal (13421773 / 16777216) \<and>
   valueOf (pointerAlpha dimmedState) < 1 \<and>
   \<bar>valueOf (pointerAlpha dimmedState)
      - max 0 (1 - real_of_int (sint (100000000 - animationTime fadingState)) / 500000000)\<bar>
     \<le> 1 / 2 ^ 20 \<and>
   pointerFadeDirection dimmedState = pointerFadeDirection fadingState \<and>
   animationPending dimmedState \<and>
   RequestNextVsync \<in> set (drop (length (trace fadingState)) (trace dimmedState)) \<and>
   reachable exampleEnv dimmedState \<and>
   sint (pointerFadeDirection dimmedState) < 0 \<and>
   0 < sint (1000000000 - animationTime dimmedState) \<and>
   doAnimate exampleEnv 1000000000 dimmedState = Some transparentState \<and>
   pointerAlpha transparentState = FVal 0 \<and>
   pointerFadeDirection transparentState = 0 \<and>
   \<not> animationPending transparentState \<and>
   RequestNextVsync \<notin> set (drop (length (trace dimmedState)) (trace transparentState))"
proof -
  note r1 = fadingState_reachable
  note t1 = fadingState_tick
  note t2 = dimmedState_tick
  have r2: "reachable exampleEnv dimmedState" by (rule r_doAnimate [OF r1 t1])
  have d1: "sint (pointerFadeDirection fadingState) < 0"
    "0 < sint (100000000 - animationTime fadingState)"
    "15 \<le> sint (100000000 - animationTime fadingState)"
    "pointerAlpha fadingState = FVal 1"
    "map_of (animationResources fadingState) (requestedPointerType fadingState) = None"
    by (simp_all add: fadingState_eq)
  have i1: "isFloat32 (pointerAlpha fadingState)"
    by (simp add: fadingState_eq isFloat32_def float_eval)
  have d2: "sint (pointerFadeDirection dimmedState) < 0"
    "0 < sint (1000000000 - animationTime dimmedState)"
    "map_of (animationResources dimmedState) (requestedPointerType dimmedState) = None"
    by (simp_all add: dimmedState_eq)
  have a2: "pointerAlpha dimmedState = FVal (13421773 / 16777216)"
    by (simp add: dimmedState_eq)
  have a3: "pointerAlpha transparentState = FVal 0" "\<not> fadingSpotLeft transparentState"
    by (simp_all add: transparentState_eq fadingSpotLeft_def allSpots_def)
  note g1 = gradual_fade_tick [OF r1 d1(1,2), of fadingState 1 dimmedState, unfolded Let_def]
  note g2 = gradual_fade_tick [OF r2 d2(1,2), of fadingState "13421773 / 16777216"
      transparentState, unfolded Let_def]
  let ?s1 = "snd (doFadingAnimationLocked exampleEnv 100000000
                    (fadingState\<lparr>animationPending := False\<rparr>))"
  from g1 t1 have e1: "pointerAlpha dimmedState = pointerAlpha ?s1"
    "pointerFadeDirection dimmedState = pointerFadeDirection ?s1"
    "animationPending dimmedState
       = (RequestNextVsync \<in> set (drop (length (trace fadingState)) (trace dimmedState)))"
    by blast+
  from g1 d1(3,4) i1 have n1: "valueOf (pointerAlpha ?s1) < 1"
    "\<bar>valueOf (pointerAlpha ?s1)
      - max 0 (1 - real_of_int (sint (100000000 - animationTime fadingState)) / 500000000)\<bar>
     \<le> 1 / 2 ^ 20"
    by force+
  from a2 e1(1) have nz: "pointerAlpha ?s1 \<noteq> FVal 0" by simp
  with g1 have k1: "pointerFadeDirection ?s1 = pointerFadeDirection fadingState"
    "fst (doFadingAnimationLocked exampleEnv 100000000
            (fadingState\<lparr>animationPending := False\<rparr>))"
    by blast+
  from g1 t1 k1(2) have q1: "animationPending dimmedState" by blast
  with e1(3) have v1: "RequestNextVsync \<in> set (drop (length (trace fadingState)) (trace dimmedState))"
    by simp
  from g2 t2 a3 have q2: "pointerFadeDirection transparentState = 0"
    "animationPending transparentState
       = (fadingSpotLeft transparentState
          \<or> map_of (animationResources dimmedState) (requestedPointerType dimmedState) \<noteq> None)"
    "animationPending transparentState
       = (RequestNextVsync \<in> set (drop (length (trace dimmedState)) (trace transparentState)))"
    by force+
  from q2(2) a3(2) d2(3) have q3: "\<not> animationPending transparentState" by simp
  with q2(3) have v2: "RequestNextVsync \<notin> set (drop (length (trace dimmedState)) (trace transparentState))"
    by simp
  from n1 e1(1) have n1': "valueOf (pointerAlpha dimmedState) < 1"
    "\<bar>valueOf (pointerAlpha dimmedState)
      - max 0 (1 - real_of_int (sint (100000000 - animationTime fadingState)) / 500000000)\<bar>
     \<le> 1 / 2 ^ 20"
    by simp_all
  from e1(2) k1(1) have dk: "pointerFadeDirection dimmedState = pointerFadeDirection fadingState"
    by simp
  from r1 d1 i1 t1 a2 n1' dk q1 v1 r2 d2(1,2) t2 a3(1) q2(1) q3 v2 show ?thesis by blast
qed

text \<open>
  The claim as first stated has every step with a positive elapsed time strictly
  decrease the alpha, by elapsed / 500 ms, until it reaches 0. In binary32 a step of
  1 ns or of 14 ns from alpha 1.0 leaves the alpha at 1.0: the quotient is below half
  the distance from 1.0 to the next \<open>float\<close> below it, and the difference rounds back. A
  step of 499,999,999 ns from alpha 1.0 ends the fade at 0, although
  1 - 499999999 / 500000000 is above 0: the elapsed time converts to the \<open>float\<close> 5 * 10^8.
\<close>

theorem gradual_fade_short_step_counterexample:
  "reachable exampleEnv fadingState \<and>
   sint (pointerFadeDirection fadingState) < 0 \<and>
   pointerAlpha fadingState = FVal 1 \<and>
   0 < sint (1 - animationTime fadingState) \<and>
   map_option pointerAlpha (doAnimate exampleEnv 1 fadingState) = Some (FVal 1) \<and>
   0 < sint (14 - animationTime fadingState) \<and>
   map_option pointerAlpha (doAnimate exampleEnv 14 fadingState) = Some (FVal 1) \<and>
   0 < sint (499999999 - animationTime fadingState) \<and>
   (0 :: real) < 1 - 499999999 / 500000000 \<and>
   map_option pointerAlpha (doAnimate exampleEnv 499999999 fadingState) = Some (FVal 0)"
proof -
  have d: "sint (pointerFadeDirection fadingState) < 0" "pointerAlpha fadingState = FVal 1"
    "0 < sint (1 - animationTime fadingState)" "0 < sint (14 - animationTime fadingState)"
    "0 < sint (499999999 - animationTime fadingState)"
    by (simp_all add: fadingState_eq)
  have a: "map_option pointerAlpha (doAnimate exampleEnv 1 fadingState) = Some (FVal 1)"
    "map_option pointerAlpha (doAnimate exampleEnv 14 fadingState) = Some (FVal 1)"
    "map_option pointerAlpha (doAnimate exampleEnv 499999999 fadingState) = Some (FVal 0)"
    by code_simp+
  from fadingState_reachable d a show ?thesis by simp
qed


end
